(* ===== verification/Prelude.thy ===== *)
theory Prelude
  imports Main "HOL-Library.State_Monad" "HOL-Library.Sublist"
begin

section \<open>Shared types, automation and lemmas\<close>

text \<open>
  What every component of the development uses: Go's \<open>error\<close> values and the text they carry,
  Go's \<open>strconv.Itoa\<close> and the duration arithmetic of \<open>time\<close> (saturating at 64 bits), and a
  small calculus for stateful code. Handlers are written in the state monad of
  HOL-Library.State\_Monad; the locale \<open>effect_relation\<close> proves once, for any reflexive and
  transitive relation between the state before and after, that sequencing and branching keep it,
  so that a component proves such a fact for a handler by walking over its statements.
\<close>

subsection \<open>Collections of facts\<close>

named_theorems run_simps \<open>how a primitive operation transforms the operator's state\<close>
named_theorems laws \<open>what the interfaces promise\<close>

subsection \<open>Go errors\<close>

text \<open>
  \<open>ApiError nf txt\<close> is an error answered by a remote API; \<open>nf\<close> says whether its reason is
  \<open>NotFound\<close>. \<open>Errorf txt\<close> is an error made by \<open>fmt.Errorf\<close> without a cause, and
  \<open>Wrapf txt e\<close> one made with a trailing \<open>: %w\<close>.
\<close>

datatype go_error =
    ApiError (api_not_found: bool) (api_text: string)
  | Errorf string
  | Wrapf string go_error

fun Error :: "go_error \<Rightarrow> string" where
  "Error (ApiError nf txt) = txt"
| "Error (Errorf txt) = txt"
| "Error (Wrapf txt e) = txt @ '': '' @ Error e"

type_synonym 'a go_result = "go_error + 'a"

subsection \<open>Decimal printing\<close>

text \<open>\<open>strconv.Itoa\<close>: the decimal digits of an integer, with a minus sign when negative.\<close>

definition digit_char :: "nat \<Rightarrow> char" where
  "digit_char d = char_of (48 + d)"

fun nat_digits :: "nat \<Rightarrow> string" where
  "nat_digits n = (if n < 10 then [digit_char n] else nat_digits (n div 10) @ [digit_char (n mod 10)])"

declare nat_digits.simps [simp del]

definition Itoa :: "int \<Rightarrow> string" where
  "Itoa i = (if i < 0 then ''-'' @ nat_digits (nat (- i)) else nat_digits (nat i))"

definition char_digit :: "char \<Rightarrow> nat" where
  "char_digit c = of_char c - 48"

definition digits_nat :: "string \<Rightarrow> nat" where
  "digits_nat ds = foldl (\<lambda>n c. 10 * n + char_digit c) 0 ds"

definition Atoi :: "string \<Rightarrow> int" where
  "Atoi xs = (if take 1 xs = ''-'' then - int (digits_nat (drop 1 xs)) else int (digits_nat xs))"

lemma char_digit_digit_char [simp]: "d < 10 \<Longrightarrow> char_digit (digit_char d) = d"
  by (simp add: char_digit_def digit_char_def)

lemma digits_nat_nat_digits [simp]: "digits_nat (nat_digits n) = n"
proof (induction n rule: nat_digits.induct)
  case (1 n)
  show ?case
  proof (cases "n < 10")
    case True
    then show ?thesis by (simp add: nat_digits.simps [of n] digits_nat_def)
  next
    case False
    with "1.IH" show ?thesis
      by (simp add: nat_digits.simps [of n] digits_nat_def)
  qed
qed

lemma digit_char_not_minus: "d < 10 \<Longrightarrow> digit_char d \<noteq> CHR ''-''"
proof
  assume d: "d < 10" and "digit_char d = CHR ''-''"
  then have "of_char (digit_char d) = (of_char (CHR ''-'') :: nat)" by simp
  with d show False by (simp add: digit_char_def)
qed

lemma nat_digits_no_minus: "take 1 (nat_digits n) \<noteq> ''-''"
proof (induction n rule: nat_digits.induct)
  case (1 n)
  show ?case
  proof (cases "n < 10")
    case True
    then show ?thesis by (simp add: nat_digits.simps [of n] digit_char_not_minus)
  next
    case False
    moreover have "nat_digits (n div 10) \<noteq> []"
      by (subst nat_digits.simps) simp
    ultimately show ?thesis
      using "1.IH" by (cases "nat_digits (n div 10)") (auto simp: nat_digits.simps [of n])
  qed
qed

lemma Atoi_Itoa: "Atoi (Itoa i) = i"
  using nat_digits_no_minus [of "nat i"] by (simp add: Atoi_def Itoa_def)

lemma Itoa_inject [simp]: "Itoa i = Itoa j \<longleftrightarrow> i = j"
  by (metis Atoi_Itoa)

subsection \<open>Time\<close>

text \<open>
  A \<open>time.Time\<close> (and its wrapper \<open>metav1.Time\<close>) is the number of nanoseconds since the Unix
  epoch, a \<open>time.Duration\<close> a number of nanoseconds in the range of a signed 64-bit integer.
  \<open>Time.Sub\<close> saturates when the difference leaves that range.
\<close>

type_synonym go_time = int
type_synonym go_duration = int

definition Second :: go_duration where "Second = 1000000000"
definition Minute :: go_duration where "Minute = 60 * Second"

definition minDuration :: go_duration where "minDuration = - (2 ^ 63)"
definition maxDuration :: go_duration where "maxDuration = 2 ^ 63 - 1"

definition Unix :: "int \<Rightarrow> go_time" where
  "Unix sec = sec * Second"

definition Sub :: "go_time \<Rightarrow> go_time \<Rightarrow> go_duration" where
  "Sub t u = (if t - u < minDuration then minDuration
              else if maxDuration < t - u then maxDuration
              else t - u)"

lemma Sub_bounds: "minDuration \<le> Sub t u \<and> Sub t u \<le> maxDuration"
  by (simp add: Sub_def minDuration_def maxDuration_def)

lemma Sub_exact: "minDuration \<le> t - u \<Longrightarrow> t - u \<le> maxDuration \<Longrightarrow> Sub t u = t - u"
  by (simp add: Sub_def)

lemma Sub_ge_iff:
  "minDuration \<le> d \<Longrightarrow> d \<le> maxDuration \<Longrightarrow> d \<le> Sub t u \<longleftrightarrow> d = minDuration \<or> d \<le> t - u"
  by (auto simp: Sub_def minDuration_def maxDuration_def)

subsection \<open>Effects of stateful code\<close>

text \<open>A change of the state that returns nothing.\<close>

definition modify :: "('s \<Rightarrow> 's) \<Rightarrow> ('s, unit) state" where
  "modify f = State (\<lambda>s. ((), f s))"

lemma run_modify [run_simps]: "run_state (modify f) s = ((), f s)"
  by (simp add: modify_def)

text \<open>
  \<open>returns Q m\<close>: whatever the state, \<open>m\<close> returns a value satisfying \<open>Q\<close>. It composes over a
  sequence by looking at the last statement only.
\<close>

definition returns :: "('a \<Rightarrow> bool) \<Rightarrow> ('s, 'a) state \<Rightarrow> bool" where
  "returns Q m \<longleftrightarrow> (\<forall>s. Q (fst (run_state m s)))"

lemma returns_return [intro]: "Q a \<Longrightarrow> returns Q (State_Monad.return a)"
  by (simp add: returns_def)

lemma returns_bind [intro]:
  "(\<And>a. a \<in> set_state m \<Longrightarrow> returns Q (f a)) \<Longrightarrow> returns Q (State_Monad.bind m f)"
  by (auto simp: returns_def set_state_iff split: prod.split)

lemma returns_run: "returns Q m \<Longrightarrow> run_state m s = (a, s') \<Longrightarrow> Q a"
  by (metis returns_def fst_conv)

text \<open>
  A relation between the state before and the state after that holds of doing nothing and of
  doing two things in a row. \<open>state_io_rel R m\<close> says that running \<open>m\<close> from any state stays in
  \<open>R\<close>.
\<close>

locale effect_relation =
  fixes R :: "'s \<Rightarrow> 's \<Rightarrow> bool"
  assumes effect_refl: "R s s"
    and effect_trans: "R s t \<Longrightarrow> R t u \<Longrightarrow> R s u"
begin

lemma effect_return: "state_io_rel R (State_Monad.return a)"
  by (simp add: state_io_rel_def effect_refl)

lemma effect_bind:
  assumes "state_io_rel R m" and "\<And>a. a \<in> set_state m \<Longrightarrow> state_io_rel R (f a)"
  shows "state_io_rel R (State_Monad.bind m f)"
proof
  fix b s u
  assume "run_state (State_Monad.bind m f) s = (b, u)"
  then obtain a t where m: "run_state m s = (a, t)" and f: "run_state (f a) t = (b, u)"
    by (auto split: prod.splits)
  from assms(1) m have "R s t" by blast
  moreover from m have "a \<in> set_state m" by (auto simp: set_state_iff)
  with assms(2) f have "R t u" by blast
  ultimately show "R s u" by (rule effect_trans)
qed

lemma effect_modify: "(\<And>s. R s (f s)) \<Longrightarrow> state_io_rel R (modify f)"
  by (simp add: state_io_rel_def run_modify)

lemma effect_get: "state_io_rel R State_Monad.get"
  by (simp add: state_io_rel_def effect_refl)

lemma effect_if:
  "(b \<Longrightarrow> state_io_rel R m) \<Longrightarrow> (\<not> b \<Longrightarrow> state_io_rel R n) \<Longrightarrow>
   state_io_rel R (if b then m else n)"
  by simp

lemma effect_case_sum:
  "(\<And>e. x = Inl e \<Longrightarrow> state_io_rel R (f e)) \<Longrightarrow> (\<And>a. x = Inr a \<Longrightarrow> state_io_rel R (g a)) \<Longrightarrow>
   state_io_rel R (case x of Inl e \<Rightarrow> f e | Inr a \<Rightarrow> g a)"
  by (cases x) simp_all

lemma effect_case_option:
  "(x = None \<Longrightarrow> state_io_rel R m) \<Longrightarrow> (\<And>a. x = Some a \<Longrightarrow> state_io_rel R (g a)) \<Longrightarrow>
   state_io_rel R (case x of None \<Rightarrow> m | Some a \<Rightarrow> g a)"
  by (cases x) simp_all

lemma effect_case_prod:
  "(\<And>a b. x = (a, b) \<Longrightarrow> state_io_rel R (f a b)) \<Longrightarrow> state_io_rel R (case x of (a, b) \<Rightarrow> f a b)"
  by (cases x) simp

lemma effect_case_list:
  "(x = [] \<Longrightarrow> state_io_rel R m) \<Longrightarrow> (\<And>y ys. x = y # ys \<Longrightarrow> state_io_rel R (g y ys)) \<Longrightarrow>
   state_io_rel R (case x of [] \<Rightarrow> m | y # ys \<Rightarrow> g y ys)"
  by (cases x) simp_all

lemma effect_let: "(\<And>y. y = x \<Longrightarrow> state_io_rel R (f y)) \<Longrightarrow> state_io_rel R (let y = x in f y)"
  by (simp add: Let_def)

lemmas effect_rules =
  effect_return effect_get effect_bind effect_if effect_case_sum effect_case_option
  effect_case_prod effect_case_list effect_let

lemma effect_run: "state_io_rel R m \<Longrightarrow> run_state m s = (a, s') \<Longrightarrow> R s s'"
  by blast

end

lemma returns_if [intro]: "(b \<Longrightarrow> returns Q m) \<Longrightarrow> (\<not> b \<Longrightarrow> returns Q n) \<Longrightarrow> returns Q (if b then m else n)"
  by simp

lemma returns_case_sum [intro]:
  "(\<And>e. x = Inl e \<Longrightarrow> returns Q (f e)) \<Longrightarrow> (\<And>a. x = Inr a \<Longrightarrow> returns Q (g a)) \<Longrightarrow>
   returns Q (case x of Inl e \<Rightarrow> f e | Inr a \<Rightarrow> g a)"
  by (cases x) simp_all

lemma returns_case_option [intro]:
  "(x = None \<Longrightarrow> returns Q m) \<Longrightarrow> (\<And>a. x = Some a \<Longrightarrow> returns Q (g a)) \<Longrightarrow>
   returns Q (case x of None \<Rightarrow> m | Some a \<Rightarrow> g a)"
  by (cases x) simp_all

lemma returns_case_prod [intro]:
  "(\<And>a b. x = (a, b) \<Longrightarrow> returns Q (f a b)) \<Longrightarrow> returns Q (case x of (a, b) \<Rightarrow> f a b)"
  by (cases x) simp

lemma returns_let [intro]: "(\<And>y. y = x \<Longrightarrow> returns Q (f y)) \<Longrightarrow> returns Q (let y = x in f y)"
  by (simp add: Let_def)

lemmas returns_rules =
  returns_return returns_bind returns_if returns_case_sum returns_case_option
  returns_case_prod returns_let

end
