(* ===== verification/Api_Types.thy ===== *)
theory Api_Types
  imports Prelude
begin

section \<open>The custom resources (api/v1alpha1)\<close>

text \<open>
  The structs of \<open>src/api/v1alpha1/*_types.go\<close>, one record per struct with the fields in the
  source's order. A pointer is an \<open>option\<close>, a map a partial function, a slice a list; Go's
  \<open>int\<close> and \<open>int64\<close> fields are only stored, compared and printed here and are \<open>int\<close>.
  \<open>metav1.ObjectMeta\<close> and \<open>metav1.Condition\<close> come from Kubernetes; the records below hold
  the fields the operator reads or writes. A field's name carries its struct first
  (\<open>InstanceSpec_URL\<close> is \<open>InstanceSpec.URL\<close>).
\<close>

subsection \<open>Kubernetes metadata\<close>

record ObjectMeta =
  Name :: string
  GenerateName :: string
  Namespace :: string
  ResourceVersion :: string
  Generation :: int
  DeletionTimestamp :: "go_time option"
  Finalizers :: "string list"
  OwnerReferences :: "string list"

datatype ConditionStatus = ConditionTrue | ConditionFalse | ConditionUnknown

record Condition =
  Condition_Type :: string
  Condition_Status :: ConditionStatus
  Condition_Reason :: string
  Condition_Message :: string
  Condition_LastTransitionTime :: "go_time option"

type_synonym conditions = "Condition list"

text \<open>\<open>client.ObjectKey\<close>, that is \<open>types.NamespacedName\<close>.\<close>

record ObjectKey =
  key_Namespace :: string
  key_Name :: string

subsection \<open>Condition types\<close>

definition ConditionReady :: string where "ConditionReady = ''Ready''"
definition ConditionAuthenticated :: string where "ConditionAuthenticated = ''Authenticated''"
definition ConditionWorkersHealthy :: string where "ConditionWorkersHealthy = ''WorkersHealthy''"
definition ConditionConfigWarning :: string where "ConditionConfigWarning = ''ConfigWarning''"
definition ConditionConfigSynced :: string where "ConditionConfigSynced = ''ConfigSynced''"
definition ConditionLastBuildSucceeded :: string where "ConditionLastBuildSucceeded = ''LastBuildSucceeded''"
definition ConditionCheckHealthy :: string where "ConditionCheckHealthy = ''CheckHealthy''"
definition ConditionComplete :: string where "ConditionComplete = ''Complete''"
definition ConditionStalled :: string where "ConditionStalled = ''Stalled''"
definition ConditionStateTransitioning :: string where "ConditionStateTransitioning = ''StateTransitioning''"

lemmas condition_types =
  ConditionReady_def ConditionAuthenticated_def ConditionWorkersHealthy_def
  ConditionConfigWarning_def ConditionConfigSynced_def ConditionLastBuildSucceeded_def
  ConditionCheckHealthy_def ConditionComplete_def ConditionStalled_def
  ConditionStateTransitioning_def

subsection \<open>Instance\<close>

record LocalObjectReference =
  LocalObjectReference_Name :: string

record SecretKeySelector =
  SecretKeySelector_Name :: string
  SecretKeySelector_Key :: string

record BasicAuth =
  BasicAuth_Username :: string
  BasicAuth_PasswordRef :: SecretKeySelector

record TokenAuth =
  TokenAuth_TokenRef :: SecretKeySelector

record TLSConfig =
  TLSConfig_CARef :: "SecretKeySelector option"
  TLSConfig_InsecureSkipVerify :: bool

record InstanceSpec =
  InstanceSpec_URL :: string
  InstanceSpec_BasicAuth :: "BasicAuth option"
  InstanceSpec_TokenAuth :: "TokenAuth option"
  InstanceSpec_TLS :: "TLSConfig option"
  InstanceSpec_Interval :: go_duration

record InstanceStatus =
  InstanceStatus_Conditions :: conditions
  InstanceStatus_Version :: string
  InstanceStatus_WorkerVersion :: string
  InstanceStatus_ClusterName :: string
  InstanceStatus_ExternalURL :: string
  InstanceStatus_WorkerCount :: int
  InstanceStatus_StalledWorkers :: int
  InstanceStatus_RunningWorkers :: int
  InstanceStatus_ObservedGeneration :: int

record Instance =
  Instance_ObjectMeta :: ObjectMeta
  Instance_Spec :: InstanceSpec
  Instance_Status :: InstanceStatus

subsection \<open>Team\<close>

record TeamRole =
  TeamRole_Role :: string
  TeamRole_Users :: "string list"
  TeamRole_Groups :: "string list"

record TeamSpec =
  TeamSpec_InstanceRef :: LocalObjectReference
  TeamSpec_TeamName :: string
  TeamSpec_Roles :: "TeamRole list"

record TeamStatus =
  TeamStatus_Conditions :: conditions
  TeamStatus_TeamID :: int
  TeamStatus_LastApplied :: "go_time option"
  TeamStatus_ObservedGeneration :: int

record Team =
  Team_ObjectMeta :: ObjectMeta
  Team_Spec :: TeamSpec
  Team_Status :: TeamStatus

subsection \<open>Pipeline\<close>

record ConfigMapKeyRef =
  ConfigMapKeyRef_Name :: string
  ConfigMapKeyRef_Key :: string

record PipelineConfig =
  PipelineConfig_Inline :: string
  PipelineConfig_ConfigMapRef :: "ConfigMapKeyRef option"

record PipelineVar =
  PipelineVar_Name :: string
  PipelineVar_Value :: string
  PipelineVar_ValueFrom :: "SecretKeySelector option"

record PipelineSpec =
  PipelineSpec_TeamRef :: LocalObjectReference
  PipelineSpec_PipelineName :: string
  PipelineSpec_Config :: PipelineConfig
  PipelineSpec_Vars :: "PipelineVar list"
  PipelineSpec_Paused :: bool
  PipelineSpec_Exposed :: bool

record PipelineStatus =
  PipelineStatus_Conditions :: conditions
  PipelineStatus_PipelineID :: int
  PipelineStatus_ConfigHash :: string
  PipelineStatus_Paused :: bool
  PipelineStatus_Exposed :: bool
  PipelineStatus_LastUpdated :: "go_time option"
  PipelineStatus_GroupCount :: int
  PipelineStatus_ObservedGeneration :: int

record Pipeline =
  Pipeline_ObjectMeta :: ObjectMeta
  Pipeline_Spec :: PipelineSpec
  Pipeline_Status :: PipelineStatus

subsection \<open>Build\<close>

text \<open>
  \<open>BuildPhase\<close> is a Go string type: the code converts whatever status the server reports into
  it, so it holds any string and not only the six constants.
\<close>

type_synonym BuildPhase = string

definition BuildPhasePending :: BuildPhase where "BuildPhasePending = ''pending''"
definition BuildPhaseStarted :: BuildPhase where "BuildPhaseStarted = ''started''"
definition BuildPhaseSucceeded :: BuildPhase where "BuildPhaseSucceeded = ''succeeded''"
definition BuildPhaseFailed :: BuildPhase where "BuildPhaseFailed = ''failed''"
definition BuildPhaseErrored :: BuildPhase where "BuildPhaseErrored = ''errored''"
definition BuildPhaseAborted :: BuildPhase where "BuildPhaseAborted = ''aborted''"

lemmas build_phases =
  BuildPhasePending_def BuildPhaseStarted_def BuildPhaseSucceeded_def
  BuildPhaseFailed_def BuildPhaseErrored_def BuildPhaseAborted_def

record BuildSpec =
  BuildSpec_JobRef :: "LocalObjectReference option"
  BuildSpec_OneOff :: bool
  BuildSpec_Abort :: bool

record BuildStatus =
  BuildStatus_Conditions :: conditions
  BuildStatus_BuildID :: int
  BuildStatus_BuildName :: string
  BuildStatus_ConcourseStatus :: BuildPhase
  BuildStatus_StartTime :: "go_time option"
  BuildStatus_EndTime :: "go_time option"
  BuildStatus_Duration :: "go_duration option"
  BuildStatus_APIURL :: string
  BuildStatus_CreatedBy :: string
  BuildStatus_ObservedGeneration :: int

record Build =
  Build_ObjectMeta :: ObjectMeta
  Build_Spec :: BuildSpec
  Build_Status :: BuildStatus

subsection \<open>Job\<close>

record JobSpec =
  JobSpec_PipelineRef :: LocalObjectReference
  JobSpec_JobName :: string
  JobSpec_Paused :: bool
  JobSpec_TriggerBuild :: bool

record JobStatus =
  JobStatus_Conditions :: conditions
  JobStatus_Paused :: bool
  JobStatus_NextBuildName :: string
  JobStatus_LastBuildID :: int
  JobStatus_LastBuildStatus :: BuildPhase
  JobStatus_LastBuildTime :: "go_time option"
  JobStatus_ObservedGeneration :: int

record Job =
  Job_ObjectMeta :: ObjectMeta
  Job_Spec :: JobSpec
  Job_Status :: JobStatus

subsection \<open>Resource\<close>

text \<open>
  A version is a Go \<open>map[string]string\<close>, of which the code takes the length and which it copies
  whole: the list of its entries, empty for a nil or empty map.
\<close>

type_synonym version_map = "(string \<times> string) list"

record ResourceSpec =
  ResourceSpec_PipelineRef :: LocalObjectReference
  ResourceSpec_ResourceName :: string
  ResourceSpec_PinnedVersion :: version_map
  ResourceSpec_CheckInterval :: "go_duration option"

record ResourceStatus =
  ResourceStatus_Conditions :: conditions
  ResourceStatus_LastChecked :: "go_time option"
  ResourceStatus_LatestVersion :: version_map
  ResourceStatus_PinnedVersionID :: int
  ResourceStatus_Pinned :: bool
  ResourceStatus_ObservedGeneration :: int

record Resource =
  Resource_ObjectMeta :: ObjectMeta
  Resource_Spec :: ResourceSpec
  Resource_Status :: ResourceStatus

subsection \<open>Worker\<close>

type_synonym WorkerDesiredState = string

definition WorkerDesiredStateActive :: WorkerDesiredState where "WorkerDesiredStateActive = ''active''"
definition WorkerDesiredStateLand :: WorkerDesiredState where "WorkerDesiredStateLand = ''land''"
definition WorkerDesiredStateRetire :: WorkerDesiredState where "WorkerDesiredStateRetire = ''retire''"
definition WorkerDesiredStatePrune :: WorkerDesiredState where "WorkerDesiredStatePrune = ''prune''"

lemmas worker_desired_states =
  WorkerDesiredStateActive_def WorkerDesiredStateLand_def WorkerDesiredStateRetire_def
  WorkerDesiredStatePrune_def

record WorkerSpec =
  WorkerSpec_InstanceRef :: LocalObjectReference
  WorkerSpec_WorkerName :: string
  WorkerSpec_DesiredState :: WorkerDesiredState

record WorkerStatus =
  WorkerStatus_Conditions :: conditions
  WorkerStatus_ActualState :: string
  WorkerStatus_Platform :: string
  WorkerStatus_Tags :: "string list"
  WorkerStatus_ActiveContainers :: int
  WorkerStatus_ActiveVolumes :: int
  WorkerStatus_Version :: string
  WorkerStatus_StartTime :: "go_time option"
  WorkerStatus_Ephemeral :: bool
  WorkerStatus_Team :: string
  WorkerStatus_ObservedGeneration :: int

record Worker =
  Worker_ObjectMeta :: ObjectMeta
  Worker_Spec :: WorkerSpec
  Worker_Status :: WorkerStatus

end
