(* ===== verification/Environment.thy ===== *)
theory Environment
  imports Api_Types
begin

section \<open>The operator's state and its environment\<close>

text \<open>
  The code the operator calls but that is not in the repository enters the model as arguments.
  \<open>lib\<close> holds the library functions without remote effects (apimachinery's condition helpers,
  controller-runtime's finalizer helpers, go-concourse's client constructor and the like),
  \<open>k8s_api\<close> the Kubernetes API client and \<open>concourse_api\<close> the go-concourse client. A remote
  operation takes, before its arguments, the number of the interaction it is (how many remote
  calls and clock readings came before), and answers as it pleases: quantifying over these
  functions covers every behaviour of the cluster, of the Concourse server and of the other
  clients of both, including answers that change from one call to the next.

  \<open>op_state\<close> is what the operator process itself keeps: the trace of the calls it issued, the
  store of the client cache (\<open>internal/concourse/client_cache.go\<close>), and the build controller's
  watcher sentinels, watcher goroutines and event channel
  (\<open>internal/controller/build_controller.go\<close>). Log lines are not modelled.
\<close>

subsection \<open>HTTP client values\<close>

text \<open>
  The values \<open>internal/concourse/auth.go\<close> assembles: \<open>tls.Config\<close>, \<open>http.Transport\<close>,
  \<open>oauth2.Config\<close>, \<open>passwordTokenSource\<close>, the token sources and round trippers of
  \<open>golang.org/x/oauth2\<close> as the terms their constructors build. A certificate pool is the list of
  its certificates.
\<close>

record tls_Config =
  tls_InsecureSkipVerify :: bool
  tls_RootCAs :: "string list option"

record http_Transport =
  Transport_TLSClientConfig :: tls_Config

record oauth2_Config =
  oauth2_ClientID :: string
  oauth2_ClientSecret :: string
  oauth2_TokenURL :: string
  oauth2_Scopes :: "string list"

record passwordTokenSource =
  pts_oauthCfg :: oauth2_Config
  pts_transport :: http_Transport
  pts_username :: string
  pts_password :: string

record oauth2_Token =
  Token_AccessToken :: string
  Token_TokenType :: string

datatype TokenSource =
    ReuseTokenSource "oauth2_Token option" passwordTokenSource
  | StaticTokenSource oauth2_Token

datatype RoundTripper =
    PlainTransport http_Transport
  | OAuth2Transport TokenSource http_Transport

record http_Client =
  Client_Transport :: RoundTripper

subsection \<open>Values of the Concourse API (package atc)\<close>

record atc_Info =
  Info_Version :: string
  Info_WorkerVersion :: string
  Info_ClusterName :: string
  Info_ExternalURL :: string

record atc_Worker =
  atcWorker_Name :: string
  atcWorker_State :: string
  atcWorker_Platform :: string
  atcWorker_Tags :: "string list"
  atcWorker_ActiveContainers :: int
  atcWorker_ActiveVolumes :: int
  atcWorker_Version :: string
  atcWorker_Ephemeral :: bool
  atcWorker_Team :: string
  atcWorker_StartTime :: int

record atc_Build =
  atcBuild_ID :: int
  atcBuild_Name :: string
  atcBuild_Status :: string
  atcBuild_APIURL :: string
  atcBuild_StartTime :: int
  atcBuild_EndTime :: int
  atcBuild_CreatedBy :: "string option"

text \<open>\<open>atc.TeamAuth\<close> is \<open>map[role]map["users"|"groups"][]string\<close>; \<open>None\<close> is the nil map.\<close>

type_synonym atc_TeamAuth = "(string \<rightharpoonup> (string \<rightharpoonup> string list)) option"

record atc_Team =
  atcTeam_ID :: int
  atcTeam_Name :: string
  atcTeam_Auth :: atc_TeamAuth

record atc_Pipeline =
  atcPipeline_ID :: int
  atcPipeline_Groups :: "string list"
  atcPipeline_LastUpdated :: int

record atc_Job =
  atcJob_FinishedBuild :: "atc_Build option"

record ConfigWarning =
  ConfigWarning_Type :: string
  ConfigWarning_Message :: string

record atc_PipelineRef =
  PipelineRef_Name :: string

datatype atc_Event = StatusEvent string | OtherEvent string

text \<open>An open event stream is known to the operator only by its handle.\<close>

type_synonym event_stream = nat

subsection \<open>Calls\<close>

datatype object_kind =
  KInstance | KTeam | KPipeline | KJob | KBuild | KResource | KWorker | KSecret | KConfigMap

datatype k8s_object =
    OInstance Instance
  | OTeam Team
  | OPipeline Pipeline
  | OJob Job
  | OBuild Build
  | OResource Resource
  | OWorker Worker

text \<open>
  One constructor per remote operation the code calls, with the arguments it sends; \<open>Clock\<close> is a
  reading of the wall clock. The operations of a Concourse team carry the client and the team
  name of \<open>cl.Team(teamName)\<close>.
\<close>

datatype 'cl call =
    Clock
  | KGet object_kind ObjectKey
  | KUpdate k8s_object
  | KStatusUpdate k8s_object
  | KCreate k8s_object
  | CGetInfo 'cl
  | CListWorkers 'cl
  | CLandWorker 'cl string
  | CPruneWorker 'cl string
  | CBuild 'cl string
  | CAbortBuild 'cl string
  | CBuildEvents 'cl string
  | CNextEvent event_stream
  | CCloseEvents event_stream
  | TCreateOrUpdate 'cl string atc_Team
  | TDestroyTeam 'cl string string
  | TCreateOrUpdatePipelineConfig 'cl string atc_PipelineRef string string bool
  | TPausePipeline 'cl string atc_PipelineRef
  | TUnpausePipeline 'cl string atc_PipelineRef
  | TExposePipeline 'cl string atc_PipelineRef
  | THidePipeline 'cl string atc_PipelineRef
  | TPipeline 'cl string atc_PipelineRef
  | TDeletePipeline 'cl string atc_PipelineRef
  | TPauseJob 'cl string atc_PipelineRef string
  | TUnpauseJob 'cl string atc_PipelineRef string
  | TJob 'cl string atc_PipelineRef string
  | TCreateJobBuild 'cl string atc_PipelineRef string
  | TCheckResource 'cl string atc_PipelineRef string version_map bool
  | TResourceVersions 'cl string atc_PipelineRef string int
  | OPasswordGrant oauth2_Config http_Transport string string

text \<open>Reading calls leave cluster and server as they are; \<open>concourse_write\<close> is the other kind on
  the Concourse side.\<close>

fun concourse_call :: "'cl call \<Rightarrow> bool" where
  "concourse_call Clock = False"
| "concourse_call (KGet k n) = False"
| "concourse_call (KUpdate x) = False"
| "concourse_call (KStatusUpdate x) = False"
| "concourse_call (KCreate x) = False"
| "concourse_call _ = True"

fun concourse_write :: "'cl call \<Rightarrow> bool" where
  "concourse_write (CLandWorker cl n) = True"
| "concourse_write (CPruneWorker cl n) = True"
| "concourse_write (CAbortBuild cl n) = True"
| "concourse_write (TCreateOrUpdate cl t a) = True"
| "concourse_write (TDestroyTeam cl t n) = True"
| "concourse_write (TCreateOrUpdatePipelineConfig cl t r v c b) = True"
| "concourse_write (TPausePipeline cl t r) = True"
| "concourse_write (TUnpausePipeline cl t r) = True"
| "concourse_write (TExposePipeline cl t r) = True"
| "concourse_write (THidePipeline cl t r) = True"
| "concourse_write (TDeletePipeline cl t r) = True"
| "concourse_write (TPauseJob cl t r j) = True"
| "concourse_write (TUnpauseJob cl t r j) = True"
| "concourse_write (TCreateJobBuild cl t r j) = True"
| "concourse_write (TCheckResource cl t r n v b) = True"
| "concourse_write _ = False"

subsection \<open>The environment\<close>

record 'cl lib =
  SetStatusCondition :: "go_time \<Rightarrow> conditions \<Rightarrow> Condition \<Rightarrow> conditions"
  IsStatusConditionTrue :: "conditions \<Rightarrow> string \<Rightarrow> bool"
  ContainsFinalizer :: "ObjectMeta \<Rightarrow> string \<Rightarrow> bool"
  AddFinalizer :: "ObjectMeta \<Rightarrow> string \<Rightarrow> ObjectMeta"
  RemoveFinalizer :: "ObjectMeta \<Rightarrow> string \<Rightarrow> ObjectMeta"
  IgnoreNotFound :: "go_error \<Rightarrow> go_error option"
  IsZero :: "go_time option \<Rightarrow> bool"
  SetControllerReference :: "Job \<Rightarrow> Build \<Rightarrow> Build go_result"
  AppendCertsFromPEM :: "string \<Rightarrow> bool \<times> string list"
  Quote :: "string \<Rightarrow> string"
  NamespacedName_String :: "ObjectKey \<Rightarrow> string"
  NewClient :: "string \<Rightarrow> http_Client \<Rightarrow> bool \<Rightarrow> 'cl"

text \<open>
  A successful \<open>Update\<close> or \<open>Create\<close> decodes the server's answer into the object that was passed,
  so the object afterwards is what the server returned.
\<close>

record k8s_api =
  Get_Instance :: "nat \<Rightarrow> ObjectKey \<Rightarrow> Instance go_result"
  Get_Team :: "nat \<Rightarrow> ObjectKey \<Rightarrow> Team go_result"
  Get_Pipeline :: "nat \<Rightarrow> ObjectKey \<Rightarrow> Pipeline go_result"
  Get_Job :: "nat \<Rightarrow> ObjectKey \<Rightarrow> Job go_result"
  Get_Build :: "nat \<Rightarrow> ObjectKey \<Rightarrow> Build go_result"
  Get_Resource :: "nat \<Rightarrow> ObjectKey \<Rightarrow> Resource go_result"
  Get_Worker :: "nat \<Rightarrow> ObjectKey \<Rightarrow> Worker go_result"
  Get_Secret :: "nat \<Rightarrow> ObjectKey \<Rightarrow> (string \<rightharpoonup> string) go_result"
  Get_ConfigMap :: "nat \<Rightarrow> ObjectKey \<Rightarrow> (string \<rightharpoonup> string) go_result"
  Update_Instance :: "nat \<Rightarrow> Instance \<Rightarrow> Instance go_result"
  Update_Team :: "nat \<Rightarrow> Team \<Rightarrow> Team go_result"
  Update_Pipeline :: "nat \<Rightarrow> Pipeline \<Rightarrow> Pipeline go_result"
  Status_Instance :: "nat \<Rightarrow> Instance \<Rightarrow> Instance go_result"
  Status_Team :: "nat \<Rightarrow> Team \<Rightarrow> Team go_result"
  Status_Pipeline :: "nat \<Rightarrow> Pipeline \<Rightarrow> Pipeline go_result"
  Status_Job :: "nat \<Rightarrow> Job \<Rightarrow> Job go_result"
  Status_Build :: "nat \<Rightarrow> Build \<Rightarrow> Build go_result"
  Status_Resource :: "nat \<Rightarrow> Resource \<Rightarrow> Resource go_result"
  Status_Worker :: "nat \<Rightarrow> Worker \<Rightarrow> Worker go_result"
  Create_Build :: "nat \<Rightarrow> Build \<Rightarrow> Build go_result"

text \<open>
  Results the code discards (the \<open>found\<close> of a pause, the created and updated flags of a
  \<open>CreateOrUpdate\<close>) are left out. \<open>ListWorkers\<close> answers its list beside its error, since one
  caller uses the list even after an error.
\<close>

record 'cl concourse_api =
  Client_GetInfo :: "nat \<Rightarrow> 'cl \<Rightarrow> atc_Info go_result"
  Client_ListWorkers :: "nat \<Rightarrow> 'cl \<Rightarrow> atc_Worker list \<times> go_error option"
  Client_LandWorker :: "nat \<Rightarrow> 'cl \<Rightarrow> string \<Rightarrow> go_error option"
  Client_PruneWorker :: "nat \<Rightarrow> 'cl \<Rightarrow> string \<Rightarrow> go_error option"
  Client_Build :: "nat \<Rightarrow> 'cl \<Rightarrow> string \<Rightarrow> (atc_Build \<times> bool) go_result"
  Client_AbortBuild :: "nat \<Rightarrow> 'cl \<Rightarrow> string \<Rightarrow> go_error option"
  Client_BuildEvents :: "nat \<Rightarrow> 'cl \<Rightarrow> string \<Rightarrow> event_stream option go_result"
  Events_NextEvent :: "nat \<Rightarrow> event_stream \<Rightarrow> atc_Event go_result"
  Team_CreateOrUpdate :: "nat \<Rightarrow> 'cl \<Rightarrow> string \<Rightarrow> atc_Team \<Rightarrow> (atc_Team \<times> ConfigWarning list) go_result"
  Team_DestroyTeam :: "nat \<Rightarrow> 'cl \<Rightarrow> string \<Rightarrow> string \<Rightarrow> go_error option"
  Team_CreateOrUpdatePipelineConfig ::
    "nat \<Rightarrow> 'cl \<Rightarrow> string \<Rightarrow> atc_PipelineRef \<Rightarrow> string \<Rightarrow> string \<Rightarrow> bool \<Rightarrow> ConfigWarning list go_result"
  Team_PausePipeline :: "nat \<Rightarrow> 'cl \<Rightarrow> string \<Rightarrow> atc_PipelineRef \<Rightarrow> go_error option"
  Team_UnpausePipeline :: "nat \<Rightarrow> 'cl \<Rightarrow> string \<Rightarrow> atc_PipelineRef \<Rightarrow> go_error option"
  Team_ExposePipeline :: "nat \<Rightarrow> 'cl \<Rightarrow> string \<Rightarrow> atc_PipelineRef \<Rightarrow> go_error option"
  Team_HidePipeline :: "nat \<Rightarrow> 'cl \<Rightarrow> string \<Rightarrow> atc_PipelineRef \<Rightarrow> go_error option"
  Team_Pipeline :: "nat \<Rightarrow> 'cl \<Rightarrow> string \<Rightarrow> atc_PipelineRef \<Rightarrow> (atc_Pipeline \<times> bool) go_result"
  Team_DeletePipeline :: "nat \<Rightarrow> 'cl \<Rightarrow> string \<Rightarrow> atc_PipelineRef \<Rightarrow> go_error option"
  Team_PauseJob :: "nat \<Rightarrow> 'cl \<Rightarrow> string \<Rightarrow> atc_PipelineRef \<Rightarrow> string \<Rightarrow> go_error option"
  Team_UnpauseJob :: "nat \<Rightarrow> 'cl \<Rightarrow> string \<Rightarrow> atc_PipelineRef \<Rightarrow> string \<Rightarrow> go_error option"
  Team_Job :: "nat \<Rightarrow> 'cl \<Rightarrow> string \<Rightarrow> atc_PipelineRef \<Rightarrow> string \<Rightarrow> (atc_Job \<times> bool) go_result"
  Team_CreateJobBuild :: "nat \<Rightarrow> 'cl \<Rightarrow> string \<Rightarrow> atc_PipelineRef \<Rightarrow> string \<Rightarrow> atc_Build go_result"
  Team_CheckResource ::
    "nat \<Rightarrow> 'cl \<Rightarrow> string \<Rightarrow> atc_PipelineRef \<Rightarrow> string \<Rightarrow> version_map \<Rightarrow> bool \<Rightarrow> go_error option"
  Team_ResourceVersions ::
    "nat \<Rightarrow> 'cl \<Rightarrow> string \<Rightarrow> atc_PipelineRef \<Rightarrow> string \<Rightarrow> int \<Rightarrow> (version_map list \<times> bool) go_result"
  OAuth_PasswordCredentialsToken ::
    "nat \<Rightarrow> oauth2_Config \<Rightarrow> http_Transport \<Rightarrow> string \<Rightarrow> string \<Rightarrow> oauth2_Token go_result"

record 'cl env =
  lib :: "'cl lib"
  k8s :: k8s_api
  atc :: "'cl concourse_api"
  clock :: "nat \<Rightarrow> go_time"

subsection \<open>The operator's state\<close>

text \<open>
  A watcher goroutine of the build controller: the client, build id and key it was started with and
  how far it is (about to open the stream, in the loop over its events, about to send on the event
  channel, or in its deferred calls). \<open>spawned\<close> lists those that run; \<open>eventCh\<close> is \<open>None\<close> before
  \<open>SetupWithManager\<close> makes the channel and the buffered requests afterwards.
\<close>

datatype watch_phase =
    WOpen
  | WLoop event_stream
  | WSend "event_stream option"
  | WClose "event_stream option"

record 'cl watcher =
  watch_client :: 'cl
  watch_buildID :: int
  watch_key :: ObjectKey
  watch_phase :: watch_phase

record 'cl op_state =
  trace :: "'cl call list"
  store :: "string \<rightharpoonup> 'cl"
  watchers :: "string set"
  spawned :: "'cl watcher list"
  eventCh :: "ObjectKey list option"

type_synonym ('cl, 'a) op = "('cl op_state, 'a) state"

definition ask :: "'cl call \<Rightarrow> (nat \<Rightarrow> 'a) \<Rightarrow> ('cl, 'a) op" where
  "ask c f = State (\<lambda>s. (f (length (trace s)), s\<lparr>trace := trace s @ [c]\<rparr>))"

definition Now :: "'cl env \<Rightarrow> ('cl, go_time) op" where
  "Now E = ask Clock (clock E)"

lemma run_ask [run_simps]:
  "run_state (ask c f) s = (f (length (trace s)), s\<lparr>trace := trace s @ [c]\<rparr>)"
  by (simp add: ask_def)

lemma set_state_ask: "a \<in> set_state (ask c f) \<Longrightarrow> \<exists>n. a = f n"
  by (auto simp: set_state_iff run_simps)

lemma run_Now [run_simps]:
  "run_state (Now E) s = (clock E (length (trace s)), s\<lparr>trace := trace s @ [Clock]\<rparr>)"
  by (simp add: Now_def run_simps)

subsection \<open>Results of a reconciliation\<close>

record ctrl_Result =
  RequeueAfter :: go_duration

type_synonym reconcile_result = "ctrl_Result \<times> go_error option"

abbreviation Result0 :: ctrl_Result where
  "Result0 \<equiv> \<lparr>RequeueAfter = 0\<rparr>"

abbreviation Requeue :: "go_duration \<Rightarrow> reconcile_result" where
  "Requeue d \<equiv> (\<lparr>RequeueAfter = d\<rparr>, None)"

abbreviation Done :: reconcile_result where
  "Done \<equiv> (Result0, None)"

abbreviation Failed :: "go_error \<Rightarrow> reconcile_result" where
  "Failed e \<equiv> (Result0, Some e)"

text \<open>
  controller-runtime runs a request again on its own when the result carries an error or a
  positive delay.
\<close>

definition runs_again :: "reconcile_result \<Rightarrow> bool" where
  "runs_again r \<longleftrightarrow> snd r \<noteq> None \<or> 0 < RequeueAfter (fst r)"

subsection \<open>Effects\<close>

text \<open>The calls an operation issues from a state, and the operations all of whose calls satisfy a
  predicate.\<close>

definition emits :: "('cl call \<Rightarrow> bool) \<Rightarrow> 'cl op_state \<Rightarrow> 'cl op_state \<Rightarrow> bool" where
  "emits P s t \<longleftrightarrow> (\<exists>cs. trace t = trace s @ cs \<and> list_all P cs)"

definition keeps :: "('cl op_state \<Rightarrow> 'b) \<Rightarrow> 'cl op_state \<Rightarrow> 'cl op_state \<Rightarrow> bool" where
  "keeps f s t \<longleftrightarrow> f t = f s"

definition preserves :: "('cl op_state \<Rightarrow> bool) \<Rightarrow> 'cl op_state \<Rightarrow> 'cl op_state \<Rightarrow> bool" where
  "preserves I s t \<longleftrightarrow> (I s \<longrightarrow> I t)"

definition calls :: "('cl, 'a) op \<Rightarrow> 'cl op_state \<Rightarrow> 'cl call list" where
  "calls m s = drop (length (trace s)) (trace (snd (run_state m s)))"

lemma emits_append: "emits P s t \<Longrightarrow> emits P t u \<Longrightarrow> emits P s u"
  by (auto simp: emits_def)

interpretation em: effect_relation "emits P" for P :: "'cl call \<Rightarrow> bool"
proof
  fix s t u :: "'cl op_state"
  show "emits P s s" by (simp add: emits_def)
  show "emits P s t \<Longrightarrow> emits P t u \<Longrightarrow> emits P s u" by (rule emits_append)
qed

interpretation kp: effect_relation "keeps f" for f :: "'cl op_state \<Rightarrow> 'b"
  by unfold_locales (simp_all add: keeps_def)

interpretation pr: effect_relation "preserves I" for I :: "'cl op_state \<Rightarrow> bool"
  by unfold_locales (simp_all add: preserves_def)

lemma emits_ask: "P c \<Longrightarrow> state_io_rel (emits P) (ask c f)"
  by (auto simp: state_io_rel_def emits_def run_simps)

lemma emits_Now: "P Clock \<Longrightarrow> state_io_rel (emits P) (Now E)"
  by (simp add: Now_def emits_ask)

lemma keeps_ask: "(\<And>s tr. f (s\<lparr>trace := tr\<rparr>) = f s) \<Longrightarrow> state_io_rel (keeps f) (ask c g)"
  by (simp add: state_io_rel_def keeps_def run_simps)

lemma keeps_Now: "(\<And>s tr. f (s\<lparr>trace := tr\<rparr>) = f s) \<Longrightarrow> state_io_rel (keeps f) (Now E)"
  by (simp add: Now_def keeps_ask)

lemma preserves_ask: "(\<And>s tr. I s \<Longrightarrow> I (s\<lparr>trace := tr\<rparr>)) \<Longrightarrow> state_io_rel (preserves I) (ask c g)"
  by (simp add: state_io_rel_def preserves_def run_simps)

lemma preserves_Now: "(\<And>s tr. I s \<Longrightarrow> I (s\<lparr>trace := tr\<rparr>)) \<Longrightarrow> state_io_rel (preserves I) (Now E)"
  by (simp add: Now_def preserves_ask)

lemma emits_mono: "state_io_rel (emits P) m \<Longrightarrow> (\<And>c. P c \<Longrightarrow> Q c) \<Longrightarrow> state_io_rel (emits Q) m"
  by (auto simp: state_io_rel_def emits_def list_all_iff) blast

lemma emits_run: "state_io_rel (emits P) m \<Longrightarrow> run_state m s = (a, t) \<Longrightarrow> emits P s t"
  by (rule em.effect_run)

lemma emits_calls: "state_io_rel (emits P) m \<Longrightarrow> c \<in> set (calls m s) \<Longrightarrow> P c"
  by (auto simp: state_io_rel_def emits_def calls_def list_all_iff)
     (metis append_eq_conv_conj)

end
