(* ===== verification/Conditions.thy ===== *)
theory Conditions
  imports Environment
begin

section \<open>Status conditions (conditions.go)\<close>

text \<open>
  \<open>setCondition\<close> of \<open>internal/controller/conditions.go\<close> and \<open>isReady\<close> of
  \<open>internal/controller/resolver.go\<close>. Both delegate to apimachinery's \<open>meta.SetStatusCondition\<close>
  and \<open>meta.IsStatusConditionTrue\<close>, which are parameters; \<open>condition_laws\<close> states what their
  documentation promises: setting a condition makes it the one found under its type, up to the
  transition time the helper maintains, and leaves the conditions of every other type alone.
\<close>

definition setCondition ::
  "'cl env \<Rightarrow> conditions \<Rightarrow> string \<Rightarrow> ConditionStatus \<Rightarrow> string \<Rightarrow> string \<Rightarrow> ('cl, conditions) op" where
  "setCondition E conditions condType status reason message = do {
     let cond = \<lparr>Condition_Type = condType, Condition_Status = status, Condition_Reason = reason,
                 Condition_Message = message, Condition_LastTransitionTime = None\<rparr>;
     now \<leftarrow> Now E;
     State_Monad.return (SetStatusCondition (lib E) now conditions cond)
   }"

definition isReady :: "'cl env \<Rightarrow> conditions \<Rightarrow> bool" where
  "isReady E conditions = IsStatusConditionTrue (lib E) conditions ConditionReady"

subsection \<open>What the condition helpers promise\<close>

definition find_condition :: "conditions \<Rightarrow> string \<Rightarrow> Condition option" where
  "find_condition cs t = List.find (\<lambda>c. Condition_Type c = t) cs"

text \<open>The part of a condition that a reader of the status goes by.\<close>

definition reports :: "conditions \<Rightarrow> string \<Rightarrow> ConditionStatus \<Rightarrow> string \<Rightarrow> string \<Rightarrow> bool" where
  "reports cs t st r m \<longleftrightarrow>
     (case find_condition cs t of
        None \<Rightarrow> False
      | Some c \<Rightarrow> Condition_Status c = st \<and> Condition_Reason c = r \<and> Condition_Message c = m)"

definition condition_laws :: "'cl lib \<Rightarrow> bool" where
  "condition_laws L \<longleftrightarrow>
     (\<forall>now cs c. \<exists>ltt.
        find_condition (SetStatusCondition L now cs c) (Condition_Type c) =
          Some (c\<lparr>Condition_LastTransitionTime := ltt\<rparr>)) \<and>
     (\<forall>now cs c t. t \<noteq> Condition_Type c \<longrightarrow>
        find_condition (SetStatusCondition L now cs c) t = find_condition cs t) \<and>
     (\<forall>cs t. IsStatusConditionTrue L cs t \<longleftrightarrow>
        (\<exists>c. find_condition cs t = Some c \<and> Condition_Status c = ConditionTrue))"

definition set_cond :: "'cl lib \<Rightarrow> go_time \<Rightarrow> conditions \<Rightarrow> string \<Rightarrow> ConditionStatus \<Rightarrow> string \<Rightarrow> string \<Rightarrow> conditions" where
  "set_cond L now cs t st r m = SetStatusCondition L now cs
     \<lparr>Condition_Type = t, Condition_Status = st, Condition_Reason = r, Condition_Message = m,
      Condition_LastTransitionTime = None\<rparr>"

lemma run_setCondition [run_simps]:
  "run_state (setCondition E cs t st r m) s =
     (set_cond (lib E) (clock E (length (trace s))) cs t st r m, s\<lparr>trace := trace s @ [Clock]\<rparr>)"
  by (simp add: setCondition_def set_cond_def Let_def run_simps)

lemma find_set_cond_same:
  assumes "condition_laws L"
  shows "\<exists>ltt. find_condition (set_cond L now cs t st r m) t =
    Some \<lparr>Condition_Type = t, Condition_Status = st, Condition_Reason = r, Condition_Message = m,
          Condition_LastTransitionTime = ltt\<rparr>"
proof -
  let ?c = "\<lparr>Condition_Type = t, Condition_Status = st, Condition_Reason = r, Condition_Message = m,
             Condition_LastTransitionTime = None\<rparr>"
  from assms obtain ltt where
    "find_condition (SetStatusCondition L now cs ?c) (Condition_Type ?c) =
       Some (?c\<lparr>Condition_LastTransitionTime := ltt\<rparr>)"
    unfolding condition_laws_def by blast
  then show ?thesis by (auto simp: set_cond_def)
qed

lemma find_set_cond_other:
  "condition_laws L \<Longrightarrow> u \<noteq> t \<Longrightarrow> find_condition (set_cond L now cs t st r m) u = find_condition cs u"
  by (simp add: condition_laws_def set_cond_def)

lemma reports_set_cond [laws]:
  "condition_laws L \<Longrightarrow>
   reports (set_cond L now cs t st r m) u st' r' m' \<longleftrightarrow>
     (if u = t then st' = st \<and> r' = r \<and> m' = m else reports cs u st' r' m')"
  using find_set_cond_same [of L now cs t st r m]
  by (auto simp: reports_def find_set_cond_other)

lemma IsStatusConditionTrue_set_cond [laws]:
  assumes "condition_laws L"
  shows "IsStatusConditionTrue L (set_cond L now cs t st r m) u \<longleftrightarrow>
     (if u = t then st = ConditionTrue else IsStatusConditionTrue L cs u)"
proof -
  have true_iff: "IsStatusConditionTrue L ds v \<longleftrightarrow>
      (\<exists>c. find_condition ds v = Some c \<and> Condition_Status c = ConditionTrue)" for ds v
    using assms by (simp add: condition_laws_def)
  show ?thesis
    using find_set_cond_same [OF assms, of now cs t st r m]
    by (auto simp: true_iff find_set_cond_other [OF assms])
qed

lemma isReady_set_cond [laws]:
  "condition_laws (lib E) \<Longrightarrow>
   isReady E (set_cond (lib E) now cs t st r m) \<longleftrightarrow>
     (if t = ConditionReady then st = ConditionTrue else isReady E cs)"
  by (auto simp: isReady_def laws)

subsection \<open>Effects\<close>

lemma emits_setCondition: "P Clock \<Longrightarrow> state_io_rel (emits P) (setCondition E cs t st r m)"
  by (simp add: setCondition_def Let_def emits_Now em.effect_bind em.effect_return)

lemma keeps_setCondition:
  "(\<And>s tr. f (s\<lparr>trace := tr\<rparr>) = f s) \<Longrightarrow> state_io_rel (keeps f) (setCondition E cs t st r m)"
  by (simp add: setCondition_def Let_def keeps_Now kp.effect_bind kp.effect_return)

lemma preserves_setCondition:
  "(\<And>s tr. I s \<Longrightarrow> I (s\<lparr>trace := tr\<rparr>)) \<Longrightarrow> state_io_rel (preserves I) (setCondition E cs t st r m)"
  by (simp add: setCondition_def Let_def preserves_Now pr.effect_bind pr.effect_return)

end
