(* ===== verification/Auth.thy ===== *)
theory Auth
  imports Environment
begin

section \<open>Credentials and HTTP clients (auth.go)\<close>

text \<open>
  \<open>internal/concourse/auth.go\<close>: reading a key of a Secret, the TLS configuration, and the HTTP
  client for an instance's spec. Basic authentication takes precedence over a bearer token, and an
  instance with neither gets a plain client.
\<close>

definition flyOAuthClientID :: string where "flyOAuthClientID = ''fly''"
definition flyOAuthClientSecret :: string where "flyOAuthClientSecret = ''Zmx5''"

definition Token :: "'cl env \<Rightarrow> passwordTokenSource \<Rightarrow> ('cl, oauth2_Token go_result) op" where
  "Token E s = do {
     r \<leftarrow> ask (OPasswordGrant (pts_oauthCfg s) (pts_transport s) (pts_username s) (pts_password s))
            (\<lambda>n. OAuth_PasswordCredentialsToken (atc E) n (pts_oauthCfg s) (pts_transport s)
                   (pts_username s) (pts_password s));
     case r of
       Inl err \<Rightarrow> State_Monad.return (Inl (Wrapf ''oauth2 password grant'' err))
     | Inr token \<Rightarrow> State_Monad.return (Inr token)
   }"

definition readSecretKey :: "'cl env \<Rightarrow> string \<Rightarrow> SecretKeySelector \<Rightarrow> ('cl, string go_result) op" where
  "readSecretKey E ns ref = do {
     let key = \<lparr>key_Namespace = ns, key_Name = SecretKeySelector_Name ref\<rparr>;
     r \<leftarrow> ask (KGet KSecret key) (\<lambda>n. Get_Secret (k8s E) n key);
     case r of
       Inl err \<Rightarrow>
         State_Monad.return (Inl (Wrapf (''get secret '' @ ns @ ''/'' @ SecretKeySelector_Name ref) err))
     | Inr data \<Rightarrow>
         (case data (SecretKeySelector_Key ref) of
            None \<Rightarrow> State_Monad.return (Inl (Errorf (''key '' @ Quote (lib E) (SecretKeySelector_Key ref) @
                     '' not found in secret '' @ ns @ ''/'' @ SecretKeySelector_Name ref)))
          | Some val \<Rightarrow> State_Monad.return (Inr val))
   }"

definition buildTLSConfig :: "'cl env \<Rightarrow> string \<Rightarrow> TLSConfig option \<Rightarrow> ('cl, tls_Config go_result) op" where
  "buildTLSConfig E ns cfg =
     (let tlsCfg = \<lparr>tls_InsecureSkipVerify = False, tls_RootCAs = None\<rparr> in
      case cfg of
        None \<Rightarrow> State_Monad.return (Inr tlsCfg)
      | Some c \<Rightarrow>
          (let tlsCfg = tlsCfg\<lparr>tls_InsecureSkipVerify := TLSConfig_InsecureSkipVerify c\<rparr> in
           case TLSConfig_CARef c of
             None \<Rightarrow> State_Monad.return (Inr tlsCfg)
           | Some caRef \<Rightarrow> do {
               r \<leftarrow> readSecretKey E ns caRef;
               case r of
                 Inl err \<Rightarrow> State_Monad.return (Inl (Wrapf ''read CA cert'' err))
               | Inr caData \<Rightarrow>
                   (case AppendCertsFromPEM (lib E) caData of (ok, pool) \<Rightarrow>
                      if \<not> ok
                      then State_Monad.return (Inl (Errorf (''failed to parse CA certificate from secret '' @
                             ns @ ''/'' @ SecretKeySelector_Name caRef)))
                      else State_Monad.return (Inr (tlsCfg\<lparr>tls_RootCAs := Some pool\<rparr>)))
             }))"

definition oauth_scopes :: "string list" where
  "oauth_scopes = [''openid'', ''profile'', ''email'', ''federated:id'', ''groups'']"

definition BuildHTTPClient :: "'cl env \<Rightarrow> string \<Rightarrow> InstanceSpec \<Rightarrow> ('cl, http_Client go_result) op" where
  "BuildHTTPClient E ns spec = do {
     r \<leftarrow> buildTLSConfig E ns (InstanceSpec_TLS spec);
     case r of
       Inl err \<Rightarrow> State_Monad.return (Inl (Wrapf ''build TLS config'' err))
     | Inr tlsCfg \<Rightarrow>
         (let transport = \<lparr>Transport_TLSClientConfig = tlsCfg\<rparr> in
          case InstanceSpec_BasicAuth spec of
            Some basic \<Rightarrow> do {
              p \<leftarrow> readSecretKey E ns (BasicAuth_PasswordRef basic);
              case p of
                Inl err \<Rightarrow> State_Monad.return (Inl (Wrapf ''read basic auth password'' err))
              | Inr password \<Rightarrow>
                  (let oauthCfg = \<lparr>oauth2_ClientID = flyOAuthClientID,
                                   oauth2_ClientSecret = flyOAuthClientSecret,
                                   oauth2_TokenURL = InstanceSpec_URL spec @ ''/sky/issuer/token'',
                                   oauth2_Scopes = oauth_scopes\<rparr>;
                       src = \<lparr>pts_oauthCfg = oauthCfg, pts_transport = transport,
                              pts_username = BasicAuth_Username basic, pts_password = password\<rparr>
                   in State_Monad.return
                        (Inr \<lparr>Client_Transport = OAuth2Transport (ReuseTokenSource None src) transport\<rparr>))
            }
          | None \<Rightarrow>
              (case InstanceSpec_TokenAuth spec of
                 Some tokenAuth \<Rightarrow> do {
                   t \<leftarrow> readSecretKey E ns (TokenAuth_TokenRef tokenAuth);
                   case t of
                     Inl err \<Rightarrow> State_Monad.return (Inl (Wrapf ''read token auth'' err))
                   | Inr token \<Rightarrow>
                       State_Monad.return (Inr \<lparr>Client_Transport =
                         OAuth2Transport (StaticTokenSource \<lparr>Token_AccessToken = token,
                           Token_TokenType = ''bearer''\<rparr>) transport\<rparr>)
                 }
               | None \<Rightarrow> State_Monad.return (Inr \<lparr>Client_Transport = PlainTransport transport\<rparr>)))
   }"

definition NewConcourseClient :: "'cl env \<Rightarrow> string \<Rightarrow> http_Client \<Rightarrow> 'cl" where
  "NewConcourseClient E url httpClient = NewClient (lib E) url httpClient False"

subsection \<open>Effects\<close>

text \<open>Building a client only reads Secrets of the instance's namespace.\<close>

fun secret_read :: "string \<Rightarrow> 'cl call \<Rightarrow> bool" where
  "secret_read ns (KGet KSecret key) = (key_Namespace key = ns)"
| "secret_read ns _ = False"

lemma emits_readSecretKey: "state_io_rel (emits (secret_read ns)) (readSecretKey E ns ref)"
  unfolding readSecretKey_def
  by (intro em.effect_rules emits_ask) simp_all

lemma emits_buildTLSConfig: "state_io_rel (emits (secret_read ns)) (buildTLSConfig E ns cfg)"
  unfolding buildTLSConfig_def
  by (intro em.effect_rules emits_readSecretKey)

lemma emits_BuildHTTPClient: "state_io_rel (emits (secret_read ns)) (BuildHTTPClient E ns spec)"
  unfolding BuildHTTPClient_def
  by (intro em.effect_rules emits_readSecretKey emits_buildTLSConfig)

text \<open>It touches nothing of the operator's own state but the trace.\<close>

lemma keeps_readSecretKey:
  "(\<And>s tr. f (s\<lparr>trace := tr\<rparr>) = f s) \<Longrightarrow> state_io_rel (keeps f) (readSecretKey E ns ref)"
  unfolding readSecretKey_def by (intro kp.effect_rules keeps_ask)

lemma keeps_BuildHTTPClient:
  "(\<And>s tr. f (s\<lparr>trace := tr\<rparr>) = f s) \<Longrightarrow> state_io_rel (keeps f) (BuildHTTPClient E ns spec)"
  unfolding BuildHTTPClient_def buildTLSConfig_def
  by (intro kp.effect_rules keeps_readSecretKey)

end
