(* ===== verification/Client_Cache.thy ===== *)
theory Client_Cache
  imports Auth
begin

section \<open>The client cache (client_cache.go)\<close>

text \<open>
  \<open>internal/concourse/client_cache.go\<close>: a map from \<open>namespace/name@resourceVersion\<close> to clients
  behind a mutex. \<open>Cache_Get\<close>, \<open>Cache_Set\<close> and \<open>Cache_Evict\<close> are the bodies of the three
  critical sections as functions on the map, in which the loop over the keys that deletes those with
  the instance's prefix is a restriction of the map. \<open>Set_loop\<close> and \<open>Evict_loop\<close> are the same two
  bodies with the loop as written, over the keys in the order Go happens to visit them;
  \<open>delete_prefixed_restricts\<close> shows that the order does not matter.
  \<open>GetOrBuild\<close> is the operation the controllers call, and runs on the operator's state.

  The interface the clients of the cache rely on is the locale \<open>client_cache\<close>, interpreted below
  on these functions. Kubernetes names contain neither \<open>/\<close> nor \<open>@\<close> (\<open>valid_instance\<close>), which is
  what makes keys of different instances differ.
\<close>

subsection \<open>Operations\<close>

type_synonym 'cl cache_store = "string \<rightharpoonup> 'cl"

definition NewCache :: "'cl cache_store" where
  "NewCache = Map.empty"

definition cacheKey :: "Instance \<Rightarrow> string" where
  "cacheKey instance =
     Namespace (Instance_ObjectMeta instance) @ ''/'' @ Name (Instance_ObjectMeta instance) @ ''@'' @
     ResourceVersion (Instance_ObjectMeta instance)"

definition cache_prefix :: "Instance \<Rightarrow> string" where
  "cache_prefix instance =
     Namespace (Instance_ObjectMeta instance) @ ''/'' @ Name (Instance_ObjectMeta instance) @ ''@''"

definition has_prefix :: "string \<Rightarrow> string \<Rightarrow> bool" where
  "has_prefix p k \<longleftrightarrow> length k \<ge> length p \<and> take (length p) k = p"

definition Cache_Get :: "'cl cache_store \<Rightarrow> Instance \<Rightarrow> 'cl option" where
  "Cache_Get st instance = st (cacheKey instance)"

definition Cache_Evict :: "'cl cache_store \<Rightarrow> Instance \<Rightarrow> 'cl cache_store" where
  "Cache_Evict st instance =
     (\<lambda>k. if has_prefix (cache_prefix instance) k then None else st k)"

definition Cache_Set :: "'cl cache_store \<Rightarrow> Instance \<Rightarrow> 'cl \<Rightarrow> 'cl cache_store" where
  "Cache_Set st instance cl =
     (\<lambda>k. if has_prefix (cache_prefix instance) k then None else st k)(cacheKey instance \<mapsto> cl)"

text \<open>
  The loop \<open>for k := range c.store\<close>: every key is visited once, in an order Go leaves open, and
  deleting the key being visited is allowed.
\<close>

primrec delete_prefixed :: "string \<Rightarrow> string list \<Rightarrow> 'cl cache_store \<Rightarrow> 'cl cache_store" where
  "delete_prefixed p [] st = st"
| "delete_prefixed p (k # ks) st =
     delete_prefixed p ks (if has_prefix p k then st(k := None) else st)"

definition Set_loop :: "string list \<Rightarrow> 'cl cache_store \<Rightarrow> Instance \<Rightarrow> 'cl \<Rightarrow> 'cl cache_store" where
  "Set_loop ks st instance cl =
     (delete_prefixed (cache_prefix instance) ks st)(cacheKey instance \<mapsto> cl)"

definition Evict_loop :: "string list \<Rightarrow> 'cl cache_store \<Rightarrow> Instance \<Rightarrow> 'cl cache_store" where
  "Evict_loop ks st instance = delete_prefixed (cache_prefix instance) ks st"

definition GetOrBuild :: "'cl env \<Rightarrow> Instance \<Rightarrow> ('cl, 'cl go_result) op" where
  "GetOrBuild E instance = do {
     s \<leftarrow> State_Monad.get;
     case Cache_Get (store s) instance of
       Some cl \<Rightarrow> State_Monad.return (Inr cl)
     | None \<Rightarrow> do {
         r \<leftarrow> BuildHTTPClient E (Namespace (Instance_ObjectMeta instance)) (Instance_Spec instance);
         case r of
           Inl err \<Rightarrow> State_Monad.return (Inl err)
         | Inr httpClient \<Rightarrow>
             (let cl = NewConcourseClient E (InstanceSpec_URL (Instance_Spec instance)) httpClient in do {
                _ \<leftarrow> modify (\<lambda>s. s\<lparr>store := Cache_Set (store s) instance cl\<rparr>);
                State_Monad.return (Inr cl)
              })
       }
   }"

definition Evict :: "Instance \<Rightarrow> ('cl, unit) op" where
  "Evict instance = modify (\<lambda>s. s\<lparr>store := Cache_Evict (store s) instance\<rparr>)"

subsection \<open>Keys\<close>

definition valid_meta :: "ObjectMeta \<Rightarrow> bool" where
  "valid_meta m \<longleftrightarrow>
     CHR ''/'' \<notin> set (Namespace m) \<and> CHR ''@'' \<notin> set (Namespace m) \<and>
     CHR ''/'' \<notin> set (Name m) \<and> CHR ''@'' \<notin> set (Name m)"

abbreviation valid_instance :: "Instance \<Rightarrow> bool" where
  "valid_instance i \<equiv> valid_meta (Instance_ObjectMeta i)"

definition same_instance :: "Instance \<Rightarrow> Instance \<Rightarrow> bool" where
  "same_instance i j \<longleftrightarrow>
     Namespace (Instance_ObjectMeta i) = Namespace (Instance_ObjectMeta j) \<and>
     Name (Instance_ObjectMeta i) = Name (Instance_ObjectMeta j)"

definition same_version :: "Instance \<Rightarrow> Instance \<Rightarrow> bool" where
  "same_version i j \<longleftrightarrow> same_instance i j \<and>
     ResourceVersion (Instance_ObjectMeta i) = ResourceVersion (Instance_ObjectMeta j)"

lemma split_at_sep:
  "x \<notin> set a \<Longrightarrow> x \<notin> set c \<Longrightarrow> a @ x # b = c @ x # d \<longleftrightarrow> a = c \<and> b = d"
proof (induction a arbitrary: c)
  case Nil
  then show ?case by (cases c) auto
next
  case (Cons y a)
  then show ?case by (cases c) auto
qed

lemma has_prefix_iff: "has_prefix p k \<longleftrightarrow> (\<exists>r. k = p @ r)"
  unfolding has_prefix_def by (metis append_eq_conv_conj append_take_drop_id length_append le_add1)

lemma cacheKey_prefix: "cacheKey i = cache_prefix i @ ResourceVersion (Instance_ObjectMeta i)"
  by (simp add: cacheKey_def cache_prefix_def)

lemma prefix_split:
  assumes "valid_instance i" and "valid_instance j"
  shows "cache_prefix i @ r = cache_prefix j @ r' \<longleftrightarrow> same_instance i j \<and> r = r'"
  using assms
  by (auto simp: cache_prefix_def valid_meta_def same_instance_def split_at_sep)

lemma cacheKey_eq_iff:
  "valid_instance i \<Longrightarrow> valid_instance j \<Longrightarrow> cacheKey i = cacheKey j \<longleftrightarrow> same_version i j"
  by (simp add: cacheKey_prefix prefix_split same_version_def)

lemma has_prefix_cacheKey:
  "valid_instance i \<Longrightarrow> valid_instance j \<Longrightarrow>
   has_prefix (cache_prefix i) (cacheKey j) \<longleftrightarrow> same_instance i j"
  by (auto simp: has_prefix_iff cacheKey_prefix prefix_split [of j i] same_instance_def)

lemma has_prefix_own [simp]: "has_prefix (cache_prefix i) (cacheKey i)"
  by (auto simp: has_prefix_iff cacheKey_prefix)

lemma takeWhile_cacheKey:
  assumes "valid_instance i"
  shows "takeWhile (\<lambda>c. c \<noteq> CHR ''@'') (cacheKey i) =
    Namespace (Instance_ObjectMeta i) @ CHR ''/'' # Name (Instance_ObjectMeta i)"
proof -
  let ?p = "Namespace (Instance_ObjectMeta i) @ CHR ''/'' # Name (Instance_ObjectMeta i)"
  have "\<forall>c \<in> set ?p. c \<noteq> CHR ''@''" using assms by (auto simp: valid_meta_def)
  then have "takeWhile (\<lambda>c. c \<noteq> CHR ''@'') (?p @ CHR ''@'' # r) = ?p" for r
    by (subst takeWhile_append2) auto
  then show ?thesis by (simp add: cacheKey_def)
qed

subsection \<open>The loop over the keys\<close>

lemma delete_prefixed_apply:
  "delete_prefixed p ks st k = (if k \<in> set ks \<and> has_prefix p k then None else st k)"
  by (induction ks arbitrary: st) auto

lemma delete_prefixed_restricts:
  assumes "set ks = dom st"
  shows "delete_prefixed p ks st = (\<lambda>k. if has_prefix p k then None else st k)"
  using assms by (auto simp: delete_prefixed_apply fun_eq_iff)

subsection \<open>The interface\<close>

text \<open>
  What a user of the cache may rely on: a stored client is found again under the same version, a
  store drops every other version of the same instance, an eviction drops them all, and neither
  touches other instances.
\<close>

datatype ('i, 'c) cache_op = OpSet 'i 'c | OpEvict 'i

fun op_target :: "('i, 'c) cache_op \<Rightarrow> 'i" where
  "op_target (OpSet i c) = i"
| "op_target (OpEvict i) = i"

fun run_ops :: "('m \<Rightarrow> 'i \<Rightarrow> 'c \<Rightarrow> 'm) \<Rightarrow> ('m \<Rightarrow> 'i \<Rightarrow> 'm) \<Rightarrow> ('i, 'c) cache_op list \<Rightarrow> 'm \<Rightarrow> 'm" where
  "run_ops st ev [] m = m"
| "run_ops st ev (OpSet i c # xs) m = run_ops st ev xs (st m i c)"
| "run_ops st ev (OpEvict i # xs) m = run_ops st ev xs (ev m i)"

locale client_cache =
  fixes look :: "'m \<Rightarrow> 'i \<Rightarrow> 'c option"
    and put :: "'m \<Rightarrow> 'i \<Rightarrow> 'c \<Rightarrow> 'm"
    and drop_all :: "'m \<Rightarrow> 'i \<Rightarrow> 'm"
    and empty :: 'm
    and valid :: "'i \<Rightarrow> bool"
    and same :: "'i \<Rightarrow> 'i \<Rightarrow> bool"
    and version :: "'i \<Rightarrow> 'i \<Rightarrow> bool"
  assumes look_empty: "look empty i = None"
    and look_put: "valid i \<Longrightarrow> valid j \<Longrightarrow>
      look (put m i c) j = (if version i j then Some c else if same i j then None else look m j)"
    and look_drop: "valid i \<Longrightarrow> valid j \<Longrightarrow>
      look (drop_all m i) j = (if same i j then None else look m j)"
    and version_same: "version i j \<Longrightarrow> same i j"
    and version_unique: "version i j \<Longrightarrow> version i k \<Longrightarrow> version j k"
    and same_trans: "same i j \<Longrightarrow> same i k \<Longrightarrow> same j k"
    and same_sym: "same i j \<Longrightarrow> same j i"
begin

text \<open>However the cache is used, it holds at most one version of an instance.\<close>

definition single_version :: "'m \<Rightarrow> bool" where
  "single_version m \<longleftrightarrow>
     (\<forall>i j. valid i \<longrightarrow> valid j \<longrightarrow> same i j \<longrightarrow> look m i \<noteq> None \<longrightarrow> look m j \<noteq> None \<longrightarrow> version i j)"

lemma single_version_empty: "single_version empty"
  by (simp add: single_version_def look_empty)

lemma single_version_put:
  assumes "single_version m" and "valid k"
  shows "single_version (put m k c)"
  unfolding single_version_def
proof (intro allI impI)
  fix i j
  assume v: "valid i" "valid j" and ij: "same i j"
    and hit: "look (put m k c) i \<noteq> None" "look (put m k c) j \<noteq> None"
  show "version i j"
  proof (cases "same k i")
    case True
    with ij have "same k j" by (meson same_sym same_trans)
    with True hit v assms(2) have "version k i" "version k j"
      by (auto simp: look_put split: if_splits)
    then show ?thesis by (rule version_unique)
  next
    case False
    then have "\<not> same k j" using ij by (meson same_sym same_trans)
    with False hit v assms(2) have "look m i \<noteq> None" "look m j \<noteq> None"
      by (auto simp: look_put split: if_splits dest: version_same)
    with assms(1) v ij show ?thesis by (simp add: single_version_def)
  qed
qed

lemma single_version_drop: "single_version m \<Longrightarrow> valid k \<Longrightarrow> single_version (drop_all m k)"
  by (auto simp: single_version_def look_drop split: if_splits)

lemma single_version_run:
  "single_version m \<Longrightarrow> (\<forall>x \<in> set xs. valid (op_target x)) \<Longrightarrow>
   single_version (run_ops put drop_all xs m)"
proof (induction xs arbitrary: m)
  case Nil
  then show ?case by simp
next
  case (Cons x xs)
  then show ?case
    by (cases x) (auto intro: single_version_put single_version_drop)
qed

text \<open>Operations on other instances do not change what is found.\<close>

lemma look_run_other:
  "valid j \<Longrightarrow> (\<forall>x \<in> set xs. valid (op_target x) \<and> \<not> same (op_target x) j) \<Longrightarrow>
   look (run_ops put drop_all xs m) j = look m j"
proof (induction xs arbitrary: m)
  case Nil
  then show ?case by simp
next
  case (Cons x xs)
  then show ?case
    by (cases x) (auto simp: look_put look_drop dest: version_same)
qed

end

interpretation cc: client_cache
  "Cache_Get :: 'cl cache_store \<Rightarrow> _" Cache_Set Cache_Evict NewCache valid_instance same_instance same_version
proof
  fix i j k :: Instance and m :: "'cl cache_store" and c :: 'cl
  show "Cache_Get NewCache i = None"
    by (simp add: Cache_Get_def NewCache_def)
  show "valid_instance i \<Longrightarrow> valid_instance j \<Longrightarrow>
     Cache_Get (Cache_Set m i c) j =
       (if same_version i j then Some c else if same_instance i j then None else Cache_Get m j)"
    by (auto simp: Cache_Get_def Cache_Set_def has_prefix_cacheKey cacheKey_eq_iff [of j i]
        same_version_def same_instance_def)
  show "valid_instance i \<Longrightarrow> valid_instance j \<Longrightarrow>
     Cache_Get (Cache_Evict m i) j = (if same_instance i j then None else Cache_Get m j)"
    by (simp add: Cache_Get_def Cache_Evict_def has_prefix_cacheKey)
qed (auto simp: same_version_def same_instance_def)

lemmas cache_simps = cc.look_empty cc.look_put cc.look_drop

subsection \<open>Specification: one versioned client per instance\<close>

text \<open>
  Abstractly the cache is a map from an instance's namespace and name to the resource version its
  client was stored for and that client. \<open>represents\<close> relates the keyed store to it.
\<close>

type_synonym 'cl abs_cache = "string \<times> string \<rightharpoonup> string \<times> 'cl"

definition instance_id :: "Instance \<Rightarrow> string \<times> string" where
  "instance_id i = (Namespace (Instance_ObjectMeta i), Name (Instance_ObjectMeta i))"

definition abs_get :: "'cl abs_cache \<Rightarrow> Instance \<Rightarrow> 'cl option" where
  "abs_get a i =
     (case a (instance_id i) of
        None \<Rightarrow> None
      | Some (rv, cl) \<Rightarrow> if rv = ResourceVersion (Instance_ObjectMeta i) then Some cl else None)"

definition abs_set :: "'cl abs_cache \<Rightarrow> Instance \<Rightarrow> 'cl \<Rightarrow> 'cl abs_cache" where
  "abs_set a i cl = a(instance_id i \<mapsto> (ResourceVersion (Instance_ObjectMeta i), cl))"

definition abs_evict :: "'cl abs_cache \<Rightarrow> Instance \<Rightarrow> 'cl abs_cache" where
  "abs_evict a i = a(instance_id i := None)"

definition represents :: "'cl cache_store \<Rightarrow> 'cl abs_cache \<Rightarrow> bool" where
  "represents st a \<longleftrightarrow> (\<forall>i. valid_instance i \<longrightarrow> Cache_Get st i = abs_get a i)"

lemma instance_id_eq_iff: "instance_id i = instance_id j \<longleftrightarrow> same_instance i j"
  by (simp add: instance_id_def same_instance_def)

lemma represents_NewCache: "represents NewCache Map.empty"
  by (simp add: represents_def cache_simps abs_get_def)

lemma represents_Cache_Set:
  "represents st a \<Longrightarrow> valid_instance i \<Longrightarrow> represents (Cache_Set st i cl) (abs_set a i cl)"
  by (auto simp: represents_def cache_simps abs_get_def abs_set_def instance_id_eq_iff
      same_version_def same_instance_def)

lemma represents_Cache_Evict:
  "represents st a \<Longrightarrow> valid_instance i \<Longrightarrow> represents (Cache_Evict st i) (abs_evict a i)"
  by (auto simp: represents_def cache_simps abs_get_def abs_evict_def instance_id_eq_iff
      same_instance_def)

lemma represents_run_ops:
  "represents st a \<Longrightarrow> (\<forall>x \<in> set xs. valid_instance (op_target x)) \<Longrightarrow>
   represents (run_ops Cache_Set Cache_Evict xs st) (run_ops abs_set abs_evict xs a)"
proof (induction xs arbitrary: st a)
  case Nil
  then show ?case by simp
next
  case (Cons x xs)
  then show ?case
    by (cases x) (auto intro: represents_Cache_Set represents_Cache_Evict)
qed

subsection \<open>The invariant of the running operator\<close>

text \<open>
  \<open>seen E i\<close>: the API server answered with the object \<open>i\<close> at some point. Every client in the store
  was built, by \<open>BuildHTTPClient\<close> and \<open>NewConcourseClient\<close>, from the spec of an instance that was
  seen and whose key it is stored under; and no instance has clients for two versions.
\<close>

definition seen :: "'cl env \<Rightarrow> Instance \<Rightarrow> bool" where
  "seen E i \<longleftrightarrow> (\<exists>n k. Get_Instance (k8s E) n k = Inr i) \<or> (\<exists>n i0. Update_Instance (k8s E) n i0 = Inr i)"

definition valid_names :: "'cl env \<Rightarrow> bool" where
  "valid_names E \<longleftrightarrow> (\<forall>i. seen E i \<longrightarrow> valid_instance i)"

definition built_for :: "'cl env \<Rightarrow> Instance \<Rightarrow> 'cl \<Rightarrow> bool" where
  "built_for E i cl \<longleftrightarrow>
     (\<exists>s h t. run_state (BuildHTTPClient E (Namespace (Instance_ObjectMeta i)) (Instance_Spec i)) s = (Inr h, t) \<and>
              cl = NewConcourseClient E (InstanceSpec_URL (Instance_Spec i)) h)"

definition cache_ok :: "'cl env \<Rightarrow> 'cl op_state \<Rightarrow> bool" where
  "cache_ok E s \<longleftrightarrow>
     (\<forall>k cl. store s k = Some cl \<longrightarrow> (\<exists>i. seen E i \<and> cacheKey i = k \<and> built_for E i cl)) \<and>
     cc.single_version (store s)"

lemma cache_okD: "cache_ok E s \<Longrightarrow> store s k = Some cl \<Longrightarrow> \<exists>i. seen E i \<and> cacheKey i = k \<and> built_for E i cl"
  by (simp add: cache_ok_def)

lemma cache_ok_trace [simp]: "cache_ok E (s\<lparr>trace := tr\<rparr>) = cache_ok E s"
  by (simp add: cache_ok_def)

lemma cache_ok_one_key:
  assumes "cache_ok E s" and "valid_names E"
    and "store s k \<noteq> None" and "store s k' \<noteq> None"
    and "takeWhile (\<lambda>c. c \<noteq> CHR ''@'') k = takeWhile (\<lambda>c. c \<noteq> CHR ''@'') k'"
  shows "k = k'"
proof -
  from assms obtain i j where i: "seen E i" "cacheKey i = k" and j: "seen E j" "cacheKey j = k'"
    by (metis cache_okD option.exhaust)
  with assms(2) have v: "valid_instance i" "valid_instance j" by (auto simp: valid_names_def)
  have "same_instance i j"
    using assms(5) v i j
    by (auto simp: takeWhile_cacheKey valid_meta_def same_instance_def split_at_sep)
  moreover have "Cache_Get (store s) i \<noteq> None" "Cache_Get (store s) j \<noteq> None"
    using assms(3,4) i j by (simp_all add: Cache_Get_def)
  ultimately have "same_version i j"
    using assms(1) v by (auto simp: cache_ok_def cc.single_version_def)
  with v i j show ?thesis by (metis cacheKey_eq_iff)
qed

lemma cache_ok_Cache_Set:
  assumes "cache_ok E s" and "seen E i" and "valid_instance i" and "built_for E i cl"
  shows "cache_ok E (s\<lparr>store := Cache_Set (store s) i cl\<rparr>)"
  using assms cc.single_version_put [of "store s" i cl]
  by (auto simp: cache_ok_def Cache_Set_def split: if_splits)

lemma cache_ok_Cache_Evict:
  assumes "cache_ok E s" and "valid_instance i"
  shows "cache_ok E (s\<lparr>store := Cache_Evict (store s) i\<rparr>)"
  using assms cc.single_version_drop [of "store s" i]
  by (auto simp: cache_ok_def Cache_Evict_def split: if_splits)

subsection \<open>GetOrBuild\<close>

lemma run_Evict [run_simps]:
  "run_state (Evict i) s = ((), s\<lparr>store := Cache_Evict (store s) i\<rparr>)"
  by (simp add: Evict_def run_simps)

lemma GetOrBuild_hit:
  "Cache_Get (store s) i = Some cl \<Longrightarrow> run_state (GetOrBuild E i) s = (Inr cl, s)"
  by (simp add: GetOrBuild_def)

lemma GetOrBuild_failed:
  "Cache_Get (store s) i = None \<Longrightarrow>
   run_state (BuildHTTPClient E (Namespace (Instance_ObjectMeta i)) (Instance_Spec i)) s = (Inl e, t) \<Longrightarrow>
   run_state (GetOrBuild E i) s = (Inl e, t)"
  by (simp add: GetOrBuild_def)

lemma GetOrBuild_built:
  "Cache_Get (store s) i = None \<Longrightarrow>
   run_state (BuildHTTPClient E (Namespace (Instance_ObjectMeta i)) (Instance_Spec i)) s = (Inr h, t) \<Longrightarrow>
   cl = NewConcourseClient E (InstanceSpec_URL (Instance_Spec i)) h \<Longrightarrow>
   run_state (GetOrBuild E i) s = (Inr cl, t\<lparr>store := Cache_Set (store t) i cl\<rparr>)"
  by (simp add: GetOrBuild_def run_simps Let_def)

lemma GetOrBuild_cases:
  obtains (hit) cl where "Cache_Get (store s) i = Some cl" "run_state (GetOrBuild E i) s = (Inr cl, s)"
  | (failed) e t where "Cache_Get (store s) i = None"
      "run_state (BuildHTTPClient E (Namespace (Instance_ObjectMeta i)) (Instance_Spec i)) s = (Inl e, t)"
      "run_state (GetOrBuild E i) s = (Inl e, t)"
  | (built) h t cl where "Cache_Get (store s) i = None"
      "run_state (BuildHTTPClient E (Namespace (Instance_ObjectMeta i)) (Instance_Spec i)) s = (Inr h, t)"
      "cl = NewConcourseClient E (InstanceSpec_URL (Instance_Spec i)) h"
      "run_state (GetOrBuild E i) s = (Inr cl, t\<lparr>store := Cache_Set (store t) i cl\<rparr>)"
proof (cases "Cache_Get (store s) i")
  case (Some cl)
  show ?thesis by (rule hit [OF Some GetOrBuild_hit [OF Some]])
next
  case None
  obtain r t where r: "run_state (BuildHTTPClient E (Namespace (Instance_ObjectMeta i)) (Instance_Spec i)) s = (r, t)"
    by (meson prod.exhaust)
  show ?thesis
  proof (cases r)
    case (Inl e)
    with r have run: "run_state (BuildHTTPClient E (Namespace (Instance_ObjectMeta i)) (Instance_Spec i)) s = (Inl e, t)"
      by simp
    show ?thesis by (rule failed [OF None run GetOrBuild_failed [OF None run]])
  next
    case (Inr h)
    with r have run: "run_state (BuildHTTPClient E (Namespace (Instance_ObjectMeta i)) (Instance_Spec i)) s = (Inr h, t)"
      by simp
    show ?thesis by (rule built [OF None run refl GetOrBuild_built [OF None run refl]])
  qed
qed

lemma store_BuildHTTPClient:
  "run_state (BuildHTTPClient E ns spec) s = (r, t) \<Longrightarrow> store t = store s"
  using kp.effect_run [OF keeps_BuildHTTPClient [where f = store]] by (simp add: keeps_def)

lemma preserves_cache_ok_GetOrBuild:
  assumes "seen E i" and "valid_instance i"
  shows "state_io_rel (preserves (cache_ok E)) (GetOrBuild E i)"
proof
  fix a s t
  assume run: "run_state (GetOrBuild E i) s = (a, t)"
  show "preserves (cache_ok E) s t"
    unfolding preserves_def
  proof
    assume ok: "cache_ok E s"
    show "cache_ok E t"
    proof (cases rule: GetOrBuild_cases [of s i E])
      case (hit cl)
      with run ok show ?thesis by simp
    next
      case (failed e u)
      with run ok store_BuildHTTPClient [OF failed(2)] show ?thesis by (simp add: cache_ok_def)
    next
      case (built h u cl)
      have "cache_ok E u" using ok store_BuildHTTPClient [OF built(2)] by (simp add: cache_ok_def)
      moreover have "built_for E i cl" using built by (auto simp: built_for_def)
      ultimately show ?thesis
        using run built(4) cache_ok_Cache_Set [OF _ assms] by auto
    qed
  qed
qed

lemma GetOrBuild_built_for:
  assumes ok: "cache_ok E s" and run: "run_state (GetOrBuild E i) s = (Inr cl, t)"
  shows "\<exists>j. (j = i \<or> seen E j \<and> cacheKey j = cacheKey i) \<and> built_for E j cl"
proof (cases rule: GetOrBuild_cases [of s i E])
  case (hit cl')
  with run have "store s (cacheKey i) = Some cl" by (simp add: Cache_Get_def)
  with ok show ?thesis by (blast dest: cache_okD)
next
  case (failed e u)
  with run show ?thesis by simp
next
  case (built h u cl')
  with run have "built_for E i cl" by (auto simp: built_for_def)
  then show ?thesis by blast
qed

lemma emits_GetOrBuild:
  "state_io_rel (emits (secret_read (Namespace (Instance_ObjectMeta i)))) (GetOrBuild E i)"
  unfolding GetOrBuild_def
  by (intro em.effect_rules emits_BuildHTTPClient em.effect_modify) (simp add: emits_def)

lemma keeps_GetOrBuild:
  "(\<And>s tr. f (s\<lparr>trace := tr\<rparr>) = f s) \<Longrightarrow> (\<And>s st. f (s\<lparr>store := st\<rparr>) = f s) \<Longrightarrow>
   state_io_rel (keeps f) (GetOrBuild E i)"
  unfolding GetOrBuild_def
  by (intro kp.effect_rules keeps_BuildHTTPClient kp.effect_modify) (simp_all add: keeps_def)

end
