(* ===== verification/Resolver.thy ===== *)
theory Resolver
  imports Conditions Client_Cache
begin

section \<open>The dependency chain (resolver.go)\<close>

text \<open>
  \<open>internal/controller/resolver.go\<close>: from a team, pipeline or job up to the Concourse client of
  the instance it belongs to. Every ancestor has to exist and be Ready; the names in Concourse
  default to the objects' own names.
\<close>

definition default_name :: "string \<Rightarrow> ObjectMeta \<Rightarrow> string" where
  "default_name n m = (if n = '''' then Name m else n)"

definition resolveInstanceForTeam :: "'cl env \<Rightarrow> Team \<Rightarrow> ('cl, 'cl go_result) op" where
  "resolveInstanceForTeam E team = do {
     let ref = LocalObjectReference_Name (TeamSpec_InstanceRef (Team_Spec team));
     let key = \<lparr>key_Namespace = Namespace (Team_ObjectMeta team), key_Name = ref\<rparr>;
     r \<leftarrow> ask (KGet KInstance key) (\<lambda>n. Get_Instance (k8s E) n key);
     case r of
       Inl err \<Rightarrow> State_Monad.return (Inl (Wrapf (''get instance '' @ ref) err))
     | Inr instance \<Rightarrow>
         if \<not> IsStatusConditionTrue (lib E) (InstanceStatus_Conditions (Instance_Status instance)) ConditionReady
         then State_Monad.return (Inl (Errorf (''instance '' @ Name (Instance_ObjectMeta instance) @ '' is not ready'')))
         else do {
           c \<leftarrow> GetOrBuild E instance;
           case c of
             Inl err \<Rightarrow> State_Monad.return
               (Inl (Wrapf (''get client for instance '' @ Name (Instance_ObjectMeta instance)) err))
           | Inr cl \<Rightarrow> State_Monad.return (Inr cl)
         }
   }"

definition resolveClientForPipeline :: "'cl env \<Rightarrow> Pipeline \<Rightarrow> ('cl, ('cl \<times> string) go_result) op" where
  "resolveClientForPipeline E pipeline = do {
     let ref = LocalObjectReference_Name (PipelineSpec_TeamRef (Pipeline_Spec pipeline));
     let key = \<lparr>key_Namespace = Namespace (Pipeline_ObjectMeta pipeline), key_Name = ref\<rparr>;
     r \<leftarrow> ask (KGet KTeam key) (\<lambda>n. Get_Team (k8s E) n key);
     case r of
       Inl err \<Rightarrow> State_Monad.return (Inl (Wrapf (''get team '' @ ref) err))
     | Inr team \<Rightarrow>
         if \<not> IsStatusConditionTrue (lib E) (TeamStatus_Conditions (Team_Status team)) ConditionReady
         then State_Monad.return (Inl (Errorf (''team '' @ Name (Team_ObjectMeta team) @ '' is not ready'')))
         else do {
           c \<leftarrow> resolveInstanceForTeam E team;
           case c of
             Inl err \<Rightarrow> State_Monad.return (Inl err)
           | Inr cl \<Rightarrow>
               (let teamName = TeamSpec_TeamName (Team_Spec team);
                    teamName = (if teamName = '''' then Name (Team_ObjectMeta team) else teamName)
                in State_Monad.return (Inr (cl, teamName)))
         }
   }"

definition resolveClientForJob :: "'cl env \<Rightarrow> Job \<Rightarrow> ('cl, ('cl \<times> string \<times> string) go_result) op" where
  "resolveClientForJob E job = do {
     let ref = LocalObjectReference_Name (JobSpec_PipelineRef (Job_Spec job));
     let key = \<lparr>key_Namespace = Namespace (Job_ObjectMeta job), key_Name = ref\<rparr>;
     r \<leftarrow> ask (KGet KPipeline key) (\<lambda>n. Get_Pipeline (k8s E) n key);
     case r of
       Inl err \<Rightarrow> State_Monad.return (Inl (Wrapf (''get pipeline '' @ ref) err))
     | Inr pipeline \<Rightarrow>
         if \<not> IsStatusConditionTrue (lib E) (PipelineStatus_Conditions (Pipeline_Status pipeline)) ConditionReady
         then State_Monad.return (Inl (Errorf (''pipeline '' @ Name (Pipeline_ObjectMeta pipeline) @ '' is not ready'')))
         else do {
           c \<leftarrow> resolveClientForPipeline E pipeline;
           case c of
             Inl err \<Rightarrow> State_Monad.return (Inl err)
           | Inr (cl, teamName) \<Rightarrow>
               (let pipelineName = PipelineSpec_PipelineName (Pipeline_Spec pipeline);
                    pipelineName = (if pipelineName = '''' then Name (Pipeline_ObjectMeta pipeline) else pipelineName)
                in State_Monad.return (Inr (cl, teamName, pipelineName)))
         }
   }"

subsection \<open>Effects\<close>

fun k8s_read :: "'cl call \<Rightarrow> bool" where
  "k8s_read (KGet k n) = True"
| "k8s_read _ = False"

lemma secret_read_k8s_read: "secret_read ns c \<Longrightarrow> k8s_read c"
  by (cases "(ns, c)" rule: secret_read.cases) auto

lemma k8s_read_not_concourse: "k8s_read c \<Longrightarrow> \<not> concourse_call c"
  by (cases c) auto

lemma emits_k8s_read_GetOrBuild: "state_io_rel (emits k8s_read) (GetOrBuild E i)"
  using emits_GetOrBuild by (rule emits_mono) (rule secret_read_k8s_read)

lemma emits_resolveInstanceForTeam: "state_io_rel (emits k8s_read) (resolveInstanceForTeam E team)"
  unfolding resolveInstanceForTeam_def
  by (intro em.effect_rules emits_ask emits_k8s_read_GetOrBuild) simp

lemma emits_resolveClientForPipeline: "state_io_rel (emits k8s_read) (resolveClientForPipeline E p)"
  unfolding resolveClientForPipeline_def
  by (intro em.effect_rules emits_ask emits_resolveInstanceForTeam) simp

lemma emits_resolveClientForJob: "state_io_rel (emits k8s_read) (resolveClientForJob E j)"
  unfolding resolveClientForJob_def
  by (intro em.effect_rules emits_ask emits_resolveClientForPipeline) simp

lemmas emits_resolvers =
  emits_resolveInstanceForTeam emits_resolveClientForPipeline emits_resolveClientForJob

lemma keeps_resolveInstanceForTeam:
  "(\<And>s tr. f (s\<lparr>trace := tr\<rparr>) = f s) \<Longrightarrow> (\<And>s st. f (s\<lparr>store := st\<rparr>) = f s) \<Longrightarrow>
   state_io_rel (keeps f) (resolveInstanceForTeam E team)"
  unfolding resolveInstanceForTeam_def
  by (intro kp.effect_rules keeps_ask keeps_GetOrBuild)

lemma keeps_resolveClientForPipeline:
  "(\<And>s tr. f (s\<lparr>trace := tr\<rparr>) = f s) \<Longrightarrow> (\<And>s st. f (s\<lparr>store := st\<rparr>) = f s) \<Longrightarrow>
   state_io_rel (keeps f) (resolveClientForPipeline E p)"
  unfolding resolveClientForPipeline_def
  by (intro kp.effect_rules keeps_ask keeps_resolveInstanceForTeam)

lemma keeps_resolveClientForJob:
  "(\<And>s tr. f (s\<lparr>trace := tr\<rparr>) = f s) \<Longrightarrow> (\<And>s st. f (s\<lparr>store := st\<rparr>) = f s) \<Longrightarrow>
   state_io_rel (keeps f) (resolveClientForJob E j)"
  unfolding resolveClientForJob_def
  by (intro kp.effect_rules keeps_ask keeps_resolveClientForPipeline)

lemmas keeps_resolvers =
  keeps_resolveInstanceForTeam keeps_resolveClientForPipeline keeps_resolveClientForJob

lemma seen_Get: "Inr i \<in> set_state (ask c (\<lambda>n. Get_Instance (k8s E) n key)) \<Longrightarrow> seen E i"
  by (drule set_state_ask) (auto simp: seen_def dest: sym)

lemma seen_Update: "Inr i \<in> set_state (ask c (\<lambda>n. Update_Instance (k8s E) n i0)) \<Longrightarrow> seen E i"
  by (drule set_state_ask) (auto simp: seen_def dest: sym)

lemma preserves_cache_ok_resolveInstanceForTeam:
  "valid_names E \<Longrightarrow> state_io_rel (preserves (cache_ok E)) (resolveInstanceForTeam E team)"
  unfolding resolveInstanceForTeam_def
  by (intro pr.effect_rules preserves_ask preserves_cache_ok_GetOrBuild)
     (auto dest: seen_Get simp: valid_names_def)

lemma preserves_cache_ok_resolveClientForPipeline:
  "valid_names E \<Longrightarrow> state_io_rel (preserves (cache_ok E)) (resolveClientForPipeline E p)"
  unfolding resolveClientForPipeline_def
  by (intro pr.effect_rules preserves_ask preserves_cache_ok_resolveInstanceForTeam) simp_all

lemma preserves_cache_ok_resolveClientForJob:
  "valid_names E \<Longrightarrow> state_io_rel (preserves (cache_ok E)) (resolveClientForJob E j)"
  unfolding resolveClientForJob_def
  by (intro pr.effect_rules preserves_ask preserves_cache_ok_resolveClientForPipeline) simp_all

lemmas preserves_cache_ok_resolvers =
  preserves_cache_ok_resolveInstanceForTeam preserves_cache_ok_resolveClientForPipeline
  preserves_cache_ok_resolveClientForJob

subsection \<open>What a successful resolution means\<close>

text \<open>
  \<open>client_of E ns ref cl\<close>: some answer of the API server for the instance \<open>ns/ref\<close> was Ready, and
  \<open>cl\<close> was built from the spec of that instance (or of one the server showed under the same
  namespace, name and resource version).
\<close>

definition client_of :: "'cl env \<Rightarrow> string \<Rightarrow> string \<Rightarrow> 'cl \<Rightarrow> bool" where
  "client_of E ns ref cl \<longleftrightarrow>
     (\<exists>n i j. Get_Instance (k8s E) n \<lparr>key_Namespace = ns, key_Name = ref\<rparr> = Inr i \<and>
        isReady E (InstanceStatus_Conditions (Instance_Status i)) \<and>
        seen E j \<and> cacheKey j = cacheKey i \<and> built_for E j cl)"

definition team_ready :: "'cl env \<Rightarrow> string \<Rightarrow> string \<Rightarrow> Team \<Rightarrow> bool" where
  "team_ready E ns ref t \<longleftrightarrow>
     (\<exists>n. Get_Team (k8s E) n \<lparr>key_Namespace = ns, key_Name = ref\<rparr> = Inr t) \<and>
     isReady E (TeamStatus_Conditions (Team_Status t))"

definition pipeline_ready :: "'cl env \<Rightarrow> string \<Rightarrow> string \<Rightarrow> Pipeline \<Rightarrow> bool" where
  "pipeline_ready E ns ref p \<longleftrightarrow>
     (\<exists>n. Get_Pipeline (k8s E) n \<lparr>key_Namespace = ns, key_Name = ref\<rparr> = Inr p) \<and>
     isReady E (PipelineStatus_Conditions (Pipeline_Status p))"

lemma resolveInstanceForTeam_sound:
  assumes ok: "cache_ok E s" and run: "run_state (resolveInstanceForTeam E team) s = (Inr cl, t)"
  shows "client_of E (Namespace (Team_ObjectMeta team))
    (LocalObjectReference_Name (TeamSpec_InstanceRef (Team_Spec team))) cl"
proof -
  let ?key = "\<lparr>key_Namespace = Namespace (Team_ObjectMeta team),
    key_Name = LocalObjectReference_Name (TeamSpec_InstanceRef (Team_Spec team))\<rparr>"
  let ?s = "s\<lparr>trace := trace s @ [KGet KInstance ?key]\<rparr>"
  from run obtain i where get: "Get_Instance (k8s E) (length (trace s)) ?key = Inr i"
    and ready: "isReady E (InstanceStatus_Conditions (Instance_Status i))"
    and build: "run_state (GetOrBuild E i) ?s = (Inr cl, t)"
    by (auto simp: resolveInstanceForTeam_def run_simps isReady_def Let_def
        split: sum.splits if_splits prod.splits)
  from ok have "cache_ok E ?s" by simp
  from GetOrBuild_built_for [OF this build] obtain j
    where "j = i \<or> seen E j \<and> cacheKey j = cacheKey i" and "built_for E j cl" by blast
  moreover have "seen E i" using get by (auto simp: seen_def)
  ultimately show ?thesis using get ready unfolding client_of_def by metis
qed

lemma resolveClientForPipeline_sound:
  assumes ok: "cache_ok E s" and run: "run_state (resolveClientForPipeline E p) s = (Inr (cl, tn), u)"
  shows "\<exists>t. team_ready E (Namespace (Pipeline_ObjectMeta p))
      (LocalObjectReference_Name (PipelineSpec_TeamRef (Pipeline_Spec p))) t \<and>
    client_of E (Namespace (Team_ObjectMeta t))
      (LocalObjectReference_Name (TeamSpec_InstanceRef (Team_Spec t))) cl \<and>
    tn = default_name (TeamSpec_TeamName (Team_Spec t)) (Team_ObjectMeta t)"
proof -
  let ?key = "\<lparr>key_Namespace = Namespace (Pipeline_ObjectMeta p),
    key_Name = LocalObjectReference_Name (PipelineSpec_TeamRef (Pipeline_Spec p))\<rparr>"
  let ?s = "s\<lparr>trace := trace s @ [KGet KTeam ?key]\<rparr>"
  from run obtain t where get: "Get_Team (k8s E) (length (trace s)) ?key = Inr t"
    and ready: "isReady E (TeamStatus_Conditions (Team_Status t))"
    and up: "run_state (resolveInstanceForTeam E t) ?s = (Inr cl, u)"
    and tn: "tn = default_name (TeamSpec_TeamName (Team_Spec t)) (Team_ObjectMeta t)"
    by (auto simp: resolveClientForPipeline_def run_simps isReady_def Let_def default_name_def
        split: sum.splits if_splits prod.splits)
  from ok have "cache_ok E ?s" by simp
  from resolveInstanceForTeam_sound [OF this up] get ready tn show ?thesis
    unfolding team_ready_def by blast
qed

lemma resolveClientForJob_sound:
  assumes ok: "cache_ok E s" and run: "run_state (resolveClientForJob E j) s = (Inr (cl, tn, pn), u)"
  shows "\<exists>p t. pipeline_ready E (Namespace (Job_ObjectMeta j))
      (LocalObjectReference_Name (JobSpec_PipelineRef (Job_Spec j))) p \<and>
    team_ready E (Namespace (Pipeline_ObjectMeta p))
      (LocalObjectReference_Name (PipelineSpec_TeamRef (Pipeline_Spec p))) t \<and>
    client_of E (Namespace (Team_ObjectMeta t))
      (LocalObjectReference_Name (TeamSpec_InstanceRef (Team_Spec t))) cl \<and>
    tn = default_name (TeamSpec_TeamName (Team_Spec t)) (Team_ObjectMeta t) \<and>
    pn = default_name (PipelineSpec_PipelineName (Pipeline_Spec p)) (Pipeline_ObjectMeta p)"
proof -
  let ?key = "\<lparr>key_Namespace = Namespace (Job_ObjectMeta j),
    key_Name = LocalObjectReference_Name (JobSpec_PipelineRef (Job_Spec j))\<rparr>"
  let ?s = "s\<lparr>trace := trace s @ [KGet KPipeline ?key]\<rparr>"
  from run obtain p where get: "Get_Pipeline (k8s E) (length (trace s)) ?key = Inr p"
    and ready: "isReady E (PipelineStatus_Conditions (Pipeline_Status p))"
    and up: "run_state (resolveClientForPipeline E p) ?s = (Inr (cl, tn), u)"
    and pn: "pn = default_name (PipelineSpec_PipelineName (Pipeline_Spec p)) (Pipeline_ObjectMeta p)"
    by (auto simp: resolveClientForJob_def run_simps isReady_def Let_def default_name_def
        split: sum.splits if_splits prod.splits)
  from ok have "cache_ok E ?s" by simp
  from resolveClientForPipeline_sound [OF this up] get ready pn show ?thesis
    unfolding pipeline_ready_def by blast
qed

end
