(* ===== verification/Reconciler.thy ===== *)
theory Reconciler
  imports Resolver
begin

section \<open>What every controller promises\<close>

text \<open>
  The interface between the controller manager and the seven reconcilers: a reconciler is run on
  one request after the other, in any order, and relies on what the others leave behind in the
  process: the client cache, and the watchers and event channel of the build controller. The locale
  \<open>reconciler\<close> states those laws; every controller's theory interprets it on its \<open>Reconcile\<close>.
  The first part of the theory is the counting calculus \<open>at_most\<close>, which bounds how often a handler
  issues a call.
\<close>

subsection \<open>Counting calls\<close>

definition at_most :: "('cl call \<Rightarrow> bool) \<Rightarrow> nat \<Rightarrow> ('cl, 'a) op \<Rightarrow> bool" where
  "at_most P k m \<longleftrightarrow>
     (\<forall>s. \<exists>cs. trace (snd (run_state m s)) = trace s @ cs \<and> length (filter P cs) \<le> k)"

lemma at_most_calls: "at_most P k m \<Longrightarrow> length (filter P (calls m s)) \<le> k"
  unfolding at_most_def calls_def by (metis append_eq_conv_conj)

lemma at_most_emits: "state_io_rel (emits (\<lambda>c. \<not> P c)) m \<Longrightarrow> at_most P k m"
  unfolding at_most_def
proof
  fix s
  assume "state_io_rel (emits (\<lambda>c. \<not> P c)) m"
  then obtain cs where "trace (snd (run_state m s)) = trace s @ cs" "list_all (\<lambda>c. \<not> P c) cs"
    by (metis emits_def emits_run prod.collapse)
  moreover from this have "filter P cs = []" by (auto simp: filter_empty_conv list_all_iff)
  ultimately show "\<exists>cs. trace (snd (run_state m s)) = trace s @ cs \<and> length (filter P cs) \<le> k" by force
qed

lemma at_most_bind:
  assumes "at_most P k m" and "\<And>a. a \<in> set_state m \<Longrightarrow> at_most P l (f a)"
  shows "at_most P (k + l) (State_Monad.bind m f)"
  unfolding at_most_def
proof
  fix s
  obtain a t where run: "run_state m s = (a, t)" by (meson prod.exhaust)
  then have "a \<in> set_state m" by (auto simp: set_state_iff)
  from assms(1) run obtain cs where m: "trace t = trace s @ cs" "length (filter P cs) \<le> k"
    unfolding at_most_def by (metis snd_conv)
  from assms(2) [OF \<open>a \<in> set_state m\<close>] obtain ds where
    f: "trace (snd (run_state (f a) t)) = trace t @ ds" "length (filter P ds) \<le> l"
    unfolding at_most_def by blast
  from m f run show "\<exists>cs. trace (snd (run_state (State_Monad.bind m f) s)) = trace s @ cs \<and>
      length (filter P cs) \<le> k + l"
    by (intro exI [of _ "cs @ ds"]) auto
qed

lemma at_most_bind_last:
  "state_io_rel (emits (\<lambda>c. \<not> P c)) m \<Longrightarrow> (\<And>a. a \<in> set_state m \<Longrightarrow> at_most P l (f a)) \<Longrightarrow>
   at_most P l (State_Monad.bind m f)"
  using at_most_bind [of P 0 m l f] by (simp add: at_most_emits)

lemma at_most_bind_first:
  "at_most P k m \<Longrightarrow> (\<And>a. a \<in> set_state m \<Longrightarrow> state_io_rel (emits (\<lambda>c. \<not> P c)) (f a)) \<Longrightarrow>
   at_most P k (State_Monad.bind m f)"
  using at_most_bind [of P k m 0 f] by (simp add: at_most_emits)

lemma at_most_ask: "at_most P (Suc 0) (ask c f)"
  by (simp add: at_most_def run_simps)

lemma at_most_if: "(b \<Longrightarrow> at_most P k m) \<Longrightarrow> (\<not> b \<Longrightarrow> at_most P k n) \<Longrightarrow> at_most P k (if b then m else n)"
  by simp

lemma at_most_case_sum:
  "(\<And>e. x = Inl e \<Longrightarrow> at_most P k (f e)) \<Longrightarrow> (\<And>a. x = Inr a \<Longrightarrow> at_most P k (g a)) \<Longrightarrow>
   at_most P k (case x of Inl e \<Rightarrow> f e | Inr a \<Rightarrow> g a)"
  by (cases x) simp_all

lemma at_most_case_option:
  "(x = None \<Longrightarrow> at_most P k m) \<Longrightarrow> (\<And>a. x = Some a \<Longrightarrow> at_most P k (g a)) \<Longrightarrow>
   at_most P k (case x of None \<Rightarrow> m | Some a \<Rightarrow> g a)"
  by (cases x) simp_all

lemma at_most_case_prod:
  "(\<And>a b. x = (a, b) \<Longrightarrow> at_most P k (f a b)) \<Longrightarrow> at_most P k (case x of (a, b) \<Rightarrow> f a b)"
  by (cases x) simp

lemma at_most_return: "at_most P k (State_Monad.return a)"
  by (rule at_most_emits) (rule em.effect_return)

lemmas at_most_branches =
  at_most_if at_most_case_sum at_most_case_option at_most_case_prod at_most_return

subsection \<open>Traces of compound handlers\<close>

lemma run_appends:
  assumes "state_io_rel (emits P) m"
  shows "trace (snd (run_state m s)) = trace s @ calls m s"
proof -
  from assms obtain cs where "trace (snd (run_state m s)) = trace s @ cs"
    by (metis emits_def emits_run prod.collapse)
  then show ?thesis by (simp add: calls_def)
qed

lemma calls_return [simp]: "calls (State_Monad.return a) s = []"
  by (simp add: calls_def)

lemma calls_ask [simp]: "calls (ask c f) s = [c]"
  by (simp add: calls_def run_simps)

lemma calls_bind:
  assumes "state_io_rel (emits (\<lambda>_. True)) m" and "\<And>a. state_io_rel (emits (\<lambda>_. True)) (f a)"
  shows "calls (State_Monad.bind m f) s =
    calls m s @ calls (f (fst (run_state m s))) (snd (run_state m s))"
proof -
  have "trace (snd (run_state (State_Monad.bind m f) s)) =
      trace s @ calls m s @ calls (f (fst (run_state m s))) (snd (run_state m s))"
    using run_appends [OF assms(1), of s] run_appends [OF assms(2), of "fst (run_state m s)" "snd (run_state m s)"]
    by (simp add: case_prod_unfold)
  then show ?thesis by (simp add: calls_def)
qed

lemma filter_calls_none: "state_io_rel (emits (\<lambda>c. \<not> P c)) m \<Longrightarrow> filter P (calls m s) = []"
  using emits_calls [of "\<lambda>c. \<not> P c" m _ s] by (auto simp: filter_empty_conv)

lemma filter_calls_first:
  assumes "state_io_rel (emits Q) m" and "\<And>a. state_io_rel (emits (\<lambda>c. \<not> P c)) (f a)"
  shows "filter P (calls (State_Monad.bind m f) s) = filter P (calls m s)"
proof -
  have "state_io_rel (emits (\<lambda>_. True)) m" by (rule emits_mono [OF assms(1)]) simp
  moreover have "state_io_rel (emits (\<lambda>_. True)) (f a)" for a by (rule emits_mono [OF assms(2)]) simp
  ultimately show ?thesis by (simp add: calls_bind filter_calls_none [OF assms(2)])
qed

lemma filter_calls_bind:
  assumes "state_io_rel (emits (\<lambda>_. True)) m" and "\<And>a. state_io_rel (emits (\<lambda>_. True)) (f a)"
    and "run_state m s = (a, t)"
  shows "filter P (calls (State_Monad.bind m f) s) = filter P (calls m s) @ filter P (calls (f a) t)"
  using calls_bind [OF assms(1,2)] assms(3) by simp

lemma filter_calls_ask_first:
  "(\<And>a. state_io_rel (emits (\<lambda>c. \<not> P c)) (f a)) \<Longrightarrow>
   filter P (calls (State_Monad.bind (ask c g) f) s) = (if P c then [c] else [])"
  by (subst filter_calls_first [where Q = "\<lambda>_. True"]) (simp_all add: emits_ask)

lemma returns_set_state: "returns Q m \<Longrightarrow> a \<in> set_state m \<Longrightarrow> Q a"
  by (auto simp: returns_def set_state_iff) (metis fst_conv)

lemma trace_update_inject [simp]: "s\<lparr>trace := a\<rparr> = s\<lparr>trace := b\<rparr> \<longleftrightarrow> a = b"
  by (metis op_state.select_convs(1) op_state.surjective op_state.update_convs(1))

subsection \<open>What a handler does to the cache\<close>

text \<open>
  \<open>stores_once E m\<close>: a run of \<open>m\<close> leaves the cache as it is, or stores one client, for an instance the
  API server showed and that had none. It holds of a sequence one part of which does not touch the cache.
\<close>

definition stored_once :: "'cl env \<Rightarrow> 'cl op_state \<Rightarrow> 'cl op_state \<Rightarrow> bool" where
  "stored_once E s t \<longleftrightarrow> store t = store s \<or>
     (\<exists>i cl. seen E i \<and> Cache_Get (store s) i = None \<and> store t = Cache_Set (store s) i cl)"

definition stores_once :: "'cl env \<Rightarrow> ('cl, 'a) op \<Rightarrow> bool" where
  "stores_once E m \<longleftrightarrow> (\<forall>s. stored_once E s (snd (run_state m s)))"

abbreviation keeps_store :: "('cl, 'a) op \<Rightarrow> bool" where
  "keeps_store m \<equiv> state_io_rel (keeps store) m"

lemma keeps_store_run: "keeps_store m \<Longrightarrow> store (snd (run_state m s)) = store s"
  using kp.effect_run [of store m s] by (metis keeps_def prod.collapse)

lemma stores_once_keeps: "keeps_store m \<Longrightarrow> stores_once E m"
  by (simp add: stores_once_def stored_once_def keeps_store_run)

lemma stores_once_bind_last:
  assumes "keeps_store m" and "\<And>a. a \<in> set_state m \<Longrightarrow> stores_once E (f a)"
  shows "stores_once E (State_Monad.bind m f)"
  unfolding stores_once_def
proof
  fix s
  obtain a t where run: "run_state m s = (a, t)" by (meson prod.exhaust)
  then have "a \<in> set_state m" by (auto simp: set_state_iff)
  with assms(2) have "stored_once E t (snd (run_state (f a) t))" by (simp add: stores_once_def)
  moreover have "store t = store s" using keeps_store_run [OF assms(1), of s] run by simp
  ultimately show "stored_once E s (snd (run_state (State_Monad.bind m f) s))"
    using run by (simp add: stored_once_def)
qed

lemma stores_once_bind_first:
  assumes "stores_once E m" and "\<And>a. a \<in> set_state m \<Longrightarrow> keeps_store (f a)"
  shows "stores_once E (State_Monad.bind m f)"
  unfolding stores_once_def
proof
  fix s
  obtain a t where run: "run_state m s = (a, t)" by (meson prod.exhaust)
  then have "a \<in> set_state m" by (auto simp: set_state_iff)
  have "stored_once E s t" using assms(1) run by (metis stores_once_def snd_conv)
  with keeps_store_run [OF assms(2) [OF \<open>a \<in> set_state m\<close>], of t] run
  show "stored_once E s (snd (run_state (State_Monad.bind m f) s))"
    by (simp add: stored_once_def)
qed

lemma stores_once_GetOrBuild:
  assumes "seen E i"
  shows "stores_once E (GetOrBuild E i)"
  unfolding stores_once_def
proof
  fix s
  show "stored_once E s (snd (run_state (GetOrBuild E i) s))"
  proof (cases rule: GetOrBuild_cases [of s i E])
    case (hit cl)
    then show ?thesis by (simp add: stored_once_def)
  next
    case (failed e t)
    then show ?thesis using store_BuildHTTPClient [OF failed(2)] by (simp add: stored_once_def)
  next
    case (built h t cl)
    then show ?thesis using assms store_BuildHTTPClient [OF built(2)] by (auto simp: stored_once_def)
  qed
qed

lemma stores_once_branches:
  "(b \<Longrightarrow> stores_once E m) \<Longrightarrow> (\<not> b \<Longrightarrow> stores_once E n) \<Longrightarrow> stores_once E (if b then m else n)"
  "(\<And>e. x = Inl e \<Longrightarrow> stores_once E (f e)) \<Longrightarrow> (\<And>a. x = Inr a \<Longrightarrow> stores_once E (g a)) \<Longrightarrow>
     stores_once E (case x of Inl e \<Rightarrow> f e | Inr a \<Rightarrow> g a)"
  "(y = None \<Longrightarrow> stores_once E k) \<Longrightarrow> (\<And>a. y = Some a \<Longrightarrow> stores_once E (h a)) \<Longrightarrow>
     stores_once E (case y of None \<Rightarrow> k | Some a \<Rightarrow> h a)"
  "(\<And>u v. z = (u, v) \<Longrightarrow> stores_once E (q u v)) \<Longrightarrow> stores_once E (case z of (u, v) \<Rightarrow> q u v)"
  by (cases x; cases y; cases z; simp)+

subsection \<open>Watchers and event channel\<close>

text \<open>
  The part of the process only the build controller and its goroutines use, and its invariant: every
  running watcher goroutine holds the sentinel of its build, no two hold the same one, and no
  sentinel is held by nobody.
\<close>

definition goroutines :: "'cl op_state \<Rightarrow> string set \<times> 'cl watcher list \<times> ObjectKey list option" where
  "goroutines s = (watchers s, spawned s, eventCh s)"

definition watch_name :: "'cl env \<Rightarrow> 'cl watcher \<Rightarrow> string" where
  "watch_name E w = NamespacedName_String (lib E) (watch_key w)"

definition watch_ok :: "'cl env \<Rightarrow> 'cl op_state \<Rightarrow> bool" where
  "watch_ok E s \<longleftrightarrow>
     distinct (map (watch_name E) (spawned s)) \<and> watchers s = set (map (watch_name E) (spawned s))"

lemma goroutines_trace [simp]: "goroutines (s\<lparr>trace := tr\<rparr>) = goroutines s"
  by (simp add: goroutines_def)

lemma goroutines_store [simp]: "goroutines (s\<lparr>store := st\<rparr>) = goroutines s"
  by (simp add: goroutines_def)

lemma watch_ok_goroutines: "goroutines t = goroutines s \<Longrightarrow> watch_ok E t = watch_ok E s"
  by (simp add: watch_ok_def goroutines_def)

text \<open>The process before anything ran: an empty cache, no watcher, and no event channel yet.\<close>

definition op_init :: "'cl op_state" where
  "op_init = \<lparr>trace = [], store = NewCache, watchers = {}, spawned = [], eventCh = None\<rparr>"

lemma op_init_sel [simp]:
  "trace op_init = []" "store op_init = NewCache" "watchers op_init = {}" "spawned op_init = []"
  "eventCh op_init = None"
  by (simp_all add: op_init_def)

lemma cache_ok_op_init [simp]: "cache_ok E op_init"
  using cc.single_version_empty by (simp add: cache_ok_def) (simp add: NewCache_def)

lemma watch_ok_op_init [simp]: "watch_ok E op_init"
  by (simp add: watch_ok_def)

subsection \<open>The interface\<close>

abbreviation appends :: "('cl, 'a) op \<Rightarrow> bool" where
  "appends m \<equiv> state_io_rel (emits (\<lambda>_. True)) m"

text \<open>A handler that starts by reading the object its request names.\<close>

definition reads_first :: "object_kind \<Rightarrow> ObjectKey \<Rightarrow> ('cl, 'a) op \<Rightarrow> bool" where
  "reads_first k req m \<longleftrightarrow> (\<forall>s. \<exists>cs. trace (snd (run_state m s)) = trace s @ KGet k req # cs)"

lemma reads_firstI:
  fixes g :: "'b \<Rightarrow> ('cl, 'a) op"
  assumes "\<And>a. a \<in> set_state (ask (KGet k req) f :: ('cl, 'b) op) \<Longrightarrow> appends (g a)"
  shows "reads_first k req (State_Monad.bind (ask (KGet k req) f) g)"
  unfolding reads_first_def
proof
  fix s :: "'cl op_state"
  let ?a = "f (length (trace s))"
  have "?a \<in> set_state (ask (KGet k req) f :: ('cl, 'b) op)" by (simp add: set_state_iff run_simps) blast
  from run_appends [OF assms [OF this], of "s\<lparr>trace := trace s @ [KGet k req]\<rparr>"]
  show "\<exists>cs. trace (snd (run_state (State_Monad.bind (ask (KGet k req) f) g) s)) = trace s @ KGet k req # cs"
    by (simp add: run_simps)
qed

fun run_requests :: "(ObjectKey \<Rightarrow> ('cl, reconcile_result) op) \<Rightarrow> ObjectKey list \<Rightarrow> 'cl op_state \<Rightarrow> 'cl op_state" where
  "run_requests rec [] s = s"
| "run_requests rec (req # reqs) s = run_requests rec reqs (snd (run_state (rec req) s))"

locale reconciler =
  fixes E :: "'cl env"
    and kind :: object_kind
    and rec :: "ObjectKey \<Rightarrow> ('cl, reconcile_result) op"
  assumes rec_reads: "reads_first kind req (rec req)"
    and rec_cache: "valid_names E \<Longrightarrow> state_io_rel (preserves (cache_ok E)) (rec req)"
    and rec_watch: "state_io_rel (preserves (watch_ok E)) (rec req)"
    and rec_channel: "state_io_rel (keeps eventCh) (rec req)"
begin

text \<open>A whole history of requests keeps the invariants and the trace that was there.\<close>

lemma run_trace: "\<exists>cs. trace (run_requests rec reqs s) = trace s @ cs"
proof (induction reqs arbitrary: s)
  case Nil
  then show ?case by simp
next
  case (Cons req reqs)
  from rec_reads obtain cs where "trace (snd (run_state (rec req) s)) = trace s @ cs"
    unfolding reads_first_def by metis
  with Cons.IH [of "snd (run_state (rec req) s)"] show ?case by auto
qed

lemma first_call: "\<exists>cs. calls (rec req) s = KGet kind req # cs"
proof -
  from rec_reads obtain cs where "trace (snd (run_state (rec req) s)) = trace s @ KGet kind req # cs"
    unfolding reads_first_def by blast
  then show ?thesis by (simp add: calls_def)
qed

lemma step_cache: "valid_names E \<Longrightarrow> cache_ok E s \<Longrightarrow> cache_ok E (snd (run_state (rec req) s))"
  using pr.effect_run [OF rec_cache] by (metis preserves_def prod.collapse)

lemma step_watch: "watch_ok E s \<Longrightarrow> watch_ok E (snd (run_state (rec req) s))"
  using pr.effect_run [OF rec_watch] by (metis preserves_def prod.collapse)

lemma step_channel: "eventCh (snd (run_state (rec req) s)) = eventCh s"
  using kp.effect_run [OF rec_channel] by (metis keeps_def prod.collapse)

lemma run_cache: "valid_names E \<Longrightarrow> cache_ok E s \<Longrightarrow> cache_ok E (run_requests rec reqs s)"
  by (induction reqs arbitrary: s) (simp_all add: step_cache)

lemma run_watch: "watch_ok E s \<Longrightarrow> watch_ok E (run_requests rec reqs s)"
  by (induction reqs arbitrary: s) (simp_all add: step_watch)

lemma run_channel: "eventCh (run_requests rec reqs s) = eventCh s"
  by (induction reqs arbitrary: s) (simp_all add: step_channel)

end

text \<open>A reconciler that leaves watchers and channel alone.\<close>

locale passive_reconciler =
  fixes E :: "'cl env"
    and kind :: object_kind
    and rec :: "ObjectKey \<Rightarrow> ('cl, reconcile_result) op"
  assumes passive_reads: "reads_first kind req (rec req)"
    and passive_cache: "valid_names E \<Longrightarrow> state_io_rel (preserves (cache_ok E)) (rec req)"
    and passive_goroutines: "state_io_rel (keeps goroutines) (rec req)"
begin

lemma passive_watch: "state_io_rel (preserves (watch_ok E)) (rec req)"
  using passive_goroutines watch_ok_goroutines
  unfolding state_io_rel_def keeps_def preserves_def by blast

lemma passive_channel: "state_io_rel (keeps eventCh) (rec req)"
  using passive_goroutines unfolding state_io_rel_def keeps_def goroutines_def by blast

end

sublocale passive_reconciler \<subseteq> reconciler
  by unfold_locales (simp_all add: passive_reads passive_cache passive_watch passive_channel)

subsection \<open>Effects of what the controllers share\<close>

lemma appends_emits: "state_io_rel (emits P) m \<Longrightarrow> appends m"
  by (erule emits_mono) simp

lemmas appends_shared =
  emits_ask emits_Now emits_setCondition
  emits_resolvers [THEN appends_emits] emits_k8s_read_GetOrBuild [THEN appends_emits]

lemmas appends_rules = em.effect_rules appends_shared

lemmas cache_shared =
  preserves_ask preserves_Now preserves_setCondition preserves_cache_ok_resolvers

lemmas cache_rules = pr.effect_rules cache_shared

lemmas goroutine_shared =
  keeps_ask keeps_Now keeps_setCondition keeps_resolvers keeps_GetOrBuild

lemmas goroutine_rules = kp.effect_rules goroutine_shared

text \<open>A resolver only reads from the cluster, so it satisfies every predicate that such reads do.\<close>

lemma emits_resolvers_if:
  assumes "\<And>k n. P (KGet k n)"
  shows "state_io_rel (emits P) (resolveInstanceForTeam E team)"
    and "state_io_rel (emits P) (resolveClientForPipeline E p)"
    and "state_io_rel (emits P) (resolveClientForJob E j)"
    and "state_io_rel (emits P) (GetOrBuild E i)"
proof -
  have P: "P c" if "k8s_read c" for c using that assms by (cases c) auto
  show "state_io_rel (emits P) (resolveInstanceForTeam E team)"
    by (rule emits_mono [OF emits_resolveInstanceForTeam P])
  show "state_io_rel (emits P) (resolveClientForPipeline E p)"
    by (rule emits_mono [OF emits_resolveClientForPipeline P])
  show "state_io_rel (emits P) (resolveClientForJob E j)"
    by (rule emits_mono [OF emits_resolveClientForJob P])
  show "state_io_rel (emits P) (GetOrBuild E i)"
    by (rule emits_mono [OF emits_k8s_read_GetOrBuild P])
qed

lemma condition_types_differ [simp]:
  "ConditionReady \<noteq> ConditionAuthenticated" "ConditionAuthenticated \<noteq> ConditionReady"
  "ConditionReady \<noteq> ConditionWorkersHealthy" "ConditionWorkersHealthy \<noteq> ConditionReady"
  "ConditionReady \<noteq> ConditionConfigWarning" "ConditionConfigWarning \<noteq> ConditionReady"
  "ConditionReady \<noteq> ConditionConfigSynced" "ConditionConfigSynced \<noteq> ConditionReady"
  "ConditionReady \<noteq> ConditionLastBuildSucceeded" "ConditionLastBuildSucceeded \<noteq> ConditionReady"
  "ConditionReady \<noteq> ConditionCheckHealthy" "ConditionCheckHealthy \<noteq> ConditionReady"
  "ConditionReady \<noteq> ConditionComplete" "ConditionComplete \<noteq> ConditionReady"
  "ConditionReady \<noteq> ConditionStalled" "ConditionStalled \<noteq> ConditionReady"
  "ConditionReady \<noteq> ConditionStateTransitioning" "ConditionStateTransitioning \<noteq> ConditionReady"
  "ConditionAuthenticated \<noteq> ConditionWorkersHealthy" "ConditionWorkersHealthy \<noteq> ConditionAuthenticated"
  "ConditionConfigWarning \<noteq> ConditionConfigSynced" "ConditionConfigSynced \<noteq> ConditionConfigWarning"
  "ConditionStalled \<noteq> ConditionStateTransitioning" "ConditionStateTransitioning \<noteq> ConditionStalled"
  by (simp_all add: condition_types)

lemma set_state_setCondition:
  "cs' \<in> set_state (setCondition E cs t st r m) \<Longrightarrow> \<exists>now. cs' = set_cond (lib E) now cs t st r m"
  by (auto simp: set_state_iff run_simps)

lemma not_ready_setCondition:
  assumes "condition_laws (lib E)" and "cs' \<in> set_state (setCondition E cs ConditionReady ConditionFalse r m)"
  shows "\<not> isReady E cs'"
  using assms(1) set_state_setCondition [OF assms(2)] by (auto simp: laws)

lemma set_state_ask_case:
  "a \<in> set_state (ask c f) \<Longrightarrow> (\<And>n. P (f n)) \<Longrightarrow> P a"
  using set_state_ask by metis

end
