(* ===== verification/Example_Env.thy ===== *)
theory Example_Env
  imports Reconciler
begin

section \<open>A concrete environment\<close>

text \<open>
  An environment on which the handlers can be run: the library functions as their documentation
  describes them, a small cluster with one Ready object of each kind, and a Concourse server that
  accepts everything. Statements that assume something of the environment are instantiated here, so
  that the assumptions are seen to be satisfiable together. Nothing else depends on it.
\<close>

subsection \<open>Library functions\<close>

type_synonym ex_client = "string \<times> http_Client \<times> bool"

text \<open>\<open>meta.SetStatusCondition\<close>: the transition time moves only when the status does.\<close>

fun ex_SetStatusCondition :: "go_time \<Rightarrow> conditions \<Rightarrow> Condition \<Rightarrow> conditions" where
  "ex_SetStatusCondition now [] c =
     [c\<lparr>Condition_LastTransitionTime :=
          (if Condition_LastTransitionTime c = None then Some now else Condition_LastTransitionTime c)\<rparr>]"
| "ex_SetStatusCondition now (d # ds) c =
     (if Condition_Type d = Condition_Type c then
        c\<lparr>Condition_LastTransitionTime :=
            (if Condition_Status d \<noteq> Condition_Status c
             then (if Condition_LastTransitionTime c = None then Some now else Condition_LastTransitionTime c)
             else Condition_LastTransitionTime d)\<rparr> # ds
      else d # ex_SetStatusCondition now ds c)"

fun ex_IgnoreNotFound :: "go_error \<Rightarrow> go_error option" where
  "ex_IgnoreNotFound (ApiError nf txt) = (if nf then None else Some (ApiError nf txt))"
| "ex_IgnoreNotFound (Errorf txt) = Some (Errorf txt)"
| "ex_IgnoreNotFound (Wrapf txt e) =
     (case ex_IgnoreNotFound e of None \<Rightarrow> None | Some _ \<Rightarrow> Some (Wrapf txt e))"

definition ex_lib :: "ex_client lib" where
  "ex_lib =
     \<lparr>SetStatusCondition = ex_SetStatusCondition,
      IsStatusConditionTrue = (\<lambda>cs t. case find_condition cs t of
        None \<Rightarrow> False | Some c \<Rightarrow> Condition_Status c = ConditionTrue),
      ContainsFinalizer = (\<lambda>m f. f \<in> set (Finalizers m)),
      AddFinalizer = (\<lambda>m f. if f \<in> set (Finalizers m) then m else m\<lparr>Finalizers := Finalizers m @ [f]\<rparr>),
      RemoveFinalizer = (\<lambda>m f. m\<lparr>Finalizers := filter (\<lambda>g. g \<noteq> f) (Finalizers m)\<rparr>),
      IgnoreNotFound = ex_IgnoreNotFound,
      IsZero = (\<lambda>t. t = None),
      SetControllerReference = (\<lambda>job b. Inr (b\<lparr>Build_ObjectMeta :=
        (Build_ObjectMeta b)\<lparr>OwnerReferences := [Name (Job_ObjectMeta job)]\<rparr>\<rparr>)),
      AppendCertsFromPEM = (\<lambda>pem. (pem \<noteq> '''', [pem])),
      Quote = (\<lambda>x. [CHR 0x22] @ x @ [CHR 0x22]),
      NamespacedName_String = (\<lambda>k. key_Namespace k @ ''/'' @ key_Name k),
      NewClient = (\<lambda>url http tracing. (url, http, tracing))\<rparr>"

subsection \<open>The cluster\<close>

definition ex_finalizers :: "string list" where
  "ex_finalizers = [''concourse-ci.org/instance-finalizer'', ''concourse-ci.org/team-finalizer'',
     ''concourse-ci.org/pipeline-finalizer'']"

definition ex_meta :: "string \<Rightarrow> ObjectMeta" where
  "ex_meta n = \<lparr>Name = n, GenerateName = '''', Namespace = ''ns'', ResourceVersion = ''1'', Generation = 2,
                DeletionTimestamp = None, Finalizers = ex_finalizers, OwnerReferences = []\<rparr>"

definition ex_ready :: conditions where
  "ex_ready = [\<lparr>Condition_Type = ConditionReady, Condition_Status = ConditionTrue, Condition_Reason = ''Ready'',
                Condition_Message = '''', Condition_LastTransitionTime = Some 0\<rparr>]"

definition ex_ref :: "string \<Rightarrow> LocalObjectReference" where
  "ex_ref n = \<lparr>LocalObjectReference_Name = n\<rparr>"

definition ex_instance :: Instance where
  "ex_instance =
     \<lparr>Instance_ObjectMeta = ex_meta ''ci'',
      Instance_Spec = \<lparr>InstanceSpec_URL = ''https://ci'',
        InstanceSpec_BasicAuth = None,
        InstanceSpec_TokenAuth = Some \<lparr>TokenAuth_TokenRef =
          \<lparr>SecretKeySelector_Name = ''cred'', SecretKeySelector_Key = ''token''\<rparr>\<rparr>,
        InstanceSpec_TLS = None, InstanceSpec_Interval = 0\<rparr>,
      Instance_Status = \<lparr>InstanceStatus_Conditions = ex_ready, InstanceStatus_Version = '''',
        InstanceStatus_WorkerVersion = '''', InstanceStatus_ClusterName = '''',
        InstanceStatus_ExternalURL = '''', InstanceStatus_WorkerCount = 0,
        InstanceStatus_StalledWorkers = 0, InstanceStatus_RunningWorkers = 0,
        InstanceStatus_ObservedGeneration = 0\<rparr>\<rparr>"

definition ex_team :: Team where
  "ex_team =
     \<lparr>Team_ObjectMeta = ex_meta ''dev'',
      Team_Spec = \<lparr>TeamSpec_InstanceRef = ex_ref ''ci'', TeamSpec_TeamName = ''developers'',
        TeamSpec_Roles = [\<lparr>TeamRole_Role = ''owner'', TeamRole_Users = [''local:alice''], TeamRole_Groups = []\<rparr>]\<rparr>,
      Team_Status = \<lparr>TeamStatus_Conditions = ex_ready, TeamStatus_TeamID = 0, TeamStatus_LastApplied = None,
        TeamStatus_ObservedGeneration = 0\<rparr>\<rparr>"

definition ex_pipeline :: Pipeline where
  "ex_pipeline =
     \<lparr>Pipeline_ObjectMeta = ex_meta ''hello'',
      Pipeline_Spec = \<lparr>PipelineSpec_TeamRef = ex_ref ''dev'', PipelineSpec_PipelineName = '''',
        PipelineSpec_Config = \<lparr>PipelineConfig_Inline = ''abc'', PipelineConfig_ConfigMapRef = None\<rparr>,
        PipelineSpec_Vars = [], PipelineSpec_Paused = False, PipelineSpec_Exposed = True\<rparr>,
      Pipeline_Status = \<lparr>PipelineStatus_Conditions = ex_ready, PipelineStatus_PipelineID = 0,
        PipelineStatus_ConfigHash = '''', PipelineStatus_Paused = False, PipelineStatus_Exposed = False,
        PipelineStatus_LastUpdated = None, PipelineStatus_GroupCount = 0,
        PipelineStatus_ObservedGeneration = 0\<rparr>\<rparr>"

definition ex_job :: Job where
  "ex_job =
     \<lparr>Job_ObjectMeta = ex_meta ''unit'',
      Job_Spec = \<lparr>JobSpec_PipelineRef = ex_ref ''hello'', JobSpec_JobName = '''', JobSpec_Paused = False,
        JobSpec_TriggerBuild = True\<rparr>,
      Job_Status = \<lparr>JobStatus_Conditions = [], JobStatus_Paused = False, JobStatus_NextBuildName = '''',
        JobStatus_LastBuildID = 0, JobStatus_LastBuildStatus = '''', JobStatus_LastBuildTime = None,
        JobStatus_ObservedGeneration = 1\<rparr>\<rparr>"

definition ex_build :: Build where
  "ex_build =
     \<lparr>Build_ObjectMeta = ex_meta ''unit-build-1'',
      Build_Spec = \<lparr>BuildSpec_JobRef = Some (ex_ref ''unit''), BuildSpec_OneOff = False, BuildSpec_Abort = False\<rparr>,
      Build_Status = \<lparr>BuildStatus_Conditions = [], BuildStatus_BuildID = 0, BuildStatus_BuildName = '''',
         BuildStatus_ConcourseStatus = '''', BuildStatus_StartTime = None, BuildStatus_EndTime = None,
         BuildStatus_Duration = None, BuildStatus_APIURL = '''', BuildStatus_CreatedBy = '''',
         BuildStatus_ObservedGeneration = 0\<rparr>\<rparr>"

definition ex_resource :: Resource where
  "ex_resource =
     \<lparr>Resource_ObjectMeta = ex_meta ''repo'',
      Resource_Spec = \<lparr>ResourceSpec_PipelineRef = ex_ref ''hello'', ResourceSpec_ResourceName = '''',
        ResourceSpec_PinnedVersion = [(''ref'', ''c0ffee'')], ResourceSpec_CheckInterval = Some (2 * Minute)\<rparr>,
      Resource_Status = \<lparr>ResourceStatus_Conditions = [], ResourceStatus_LastChecked = Some 0,
        ResourceStatus_LatestVersion = [], ResourceStatus_PinnedVersionID = 0, ResourceStatus_Pinned = False,
        ResourceStatus_ObservedGeneration = 0\<rparr>\<rparr>"

definition ex_worker :: Worker where
  "ex_worker =
     \<lparr>Worker_ObjectMeta = ex_meta ''w-1'',
      Worker_Spec = \<lparr>WorkerSpec_InstanceRef = ex_ref ''ci'', WorkerSpec_WorkerName = ''worker-1'',
        WorkerSpec_DesiredState = WorkerDesiredStateRetire\<rparr>,
      Worker_Status = \<lparr>WorkerStatus_Conditions = [], WorkerStatus_ActualState = '''', WorkerStatus_Platform = '''',
        WorkerStatus_Tags = [], WorkerStatus_ActiveContainers = 0, WorkerStatus_ActiveVolumes = 0,
        WorkerStatus_Version = '''', WorkerStatus_StartTime = None, WorkerStatus_Ephemeral = False,
        WorkerStatus_Team = '''', WorkerStatus_ObservedGeneration = 0\<rparr>\<rparr>"

text \<open>Reads answer with these objects; writes answer with the object written, provided its name is valid.\<close>

definition ex_k8s :: k8s_api where
  "ex_k8s =
     \<lparr>Get_Instance = (\<lambda>_ _. Inr ex_instance), Get_Team = (\<lambda>_ _. Inr ex_team),
      Get_Pipeline = (\<lambda>_ _. Inr ex_pipeline), Get_Job = (\<lambda>_ _. Inr ex_job),
      Get_Build = (\<lambda>_ _. Inr ex_build), Get_Resource = (\<lambda>_ _. Inr ex_resource),
      Get_Worker = (\<lambda>_ _. Inr ex_worker),
      Get_Secret = (\<lambda>_ _. Inr [''token'' \<mapsto> ''t0ken'', ''password'' \<mapsto> ''pw'', ''ca.crt'' \<mapsto> ''pem'']),
      Get_ConfigMap = (\<lambda>_ _. Inr [''pipeline.yml'' \<mapsto> ''abc'']),
      Update_Instance = (\<lambda>_ i. if valid_instance i then Inr i else Inl (ApiError False ''invalid name'')),
      Update_Team = (\<lambda>_ x. Inr x), Update_Pipeline = (\<lambda>_ x. Inr x),
      Status_Instance = (\<lambda>_ x. Inr x), Status_Team = (\<lambda>_ x. Inr x), Status_Pipeline = (\<lambda>_ x. Inr x),
      Status_Job = (\<lambda>_ x. Inr x), Status_Build = (\<lambda>_ x. Inr x), Status_Resource = (\<lambda>_ x. Inr x),
      Status_Worker = (\<lambda>_ x. Inr x),
      Create_Build = (\<lambda>_ b. Inr (b\<lparr>Build_ObjectMeta :=
        (Build_ObjectMeta b)\<lparr>Name := GenerateName (Build_ObjectMeta b) @ ''x7k2p''\<rparr>\<rparr>))\<rparr>"

definition ex_atc_worker :: "string \<Rightarrow> string \<Rightarrow> atc_Worker" where
  "ex_atc_worker n st =
     \<lparr>atcWorker_Name = n, atcWorker_State = st, atcWorker_Platform = ''linux'', atcWorker_Tags = [],
      atcWorker_ActiveContainers = 3, atcWorker_ActiveVolumes = 4, atcWorker_Version = ''2.5'',
      atcWorker_Ephemeral = False, atcWorker_Team = '''', atcWorker_StartTime = 100\<rparr>"

definition ex_atc_build :: "string \<Rightarrow> atc_Build" where
  "ex_atc_build st =
     \<lparr>atcBuild_ID = 42, atcBuild_Name = ''7'', atcBuild_Status = st, atcBuild_APIURL = ''/api/v1/builds/42'',
      atcBuild_StartTime = 100, atcBuild_EndTime = 160, atcBuild_CreatedBy = Some ''alice''\<rparr>"

definition ex_atc :: "ex_client concourse_api" where
  "ex_atc =
     \<lparr>Client_GetInfo = (\<lambda>_ _. Inr \<lparr>Info_Version = ''7.11'', Info_WorkerVersion = ''2.5'',
        Info_ClusterName = ''main'', Info_ExternalURL = ''https://ci''\<rparr>),
      Client_ListWorkers = (\<lambda>_ _. ([ex_atc_worker ''worker-1'' ''running'', ex_atc_worker ''worker-2'' ''stalled''], None)),
      Client_LandWorker = (\<lambda>_ _ _. None), Client_PruneWorker = (\<lambda>_ _ _. None),
      Client_Build = (\<lambda>_ _ _. Inr (ex_atc_build ''started'', True)),
      Client_AbortBuild = (\<lambda>_ _ _. None),
      Client_BuildEvents = (\<lambda>_ _ _. Inr (Some 9)),
      Events_NextEvent = (\<lambda>n _. if n < 3 then Inr (OtherEvent ''log'') else Inr (StatusEvent ''failed'')),
      Team_CreateOrUpdate = (\<lambda>_ _ _ t. Inr (t\<lparr>atcTeam_ID := 5\<rparr>, [])),
      Team_DestroyTeam = (\<lambda>_ _ _ _. None),
      Team_CreateOrUpdatePipelineConfig = (\<lambda>_ _ _ _ _ _ _. Inr []),
      Team_PausePipeline = (\<lambda>_ _ _ _. None), Team_UnpausePipeline = (\<lambda>_ _ _ _. None),
      Team_ExposePipeline = (\<lambda>_ _ _ _. None), Team_HidePipeline = (\<lambda>_ _ _ _. None),
      Team_Pipeline = (\<lambda>_ _ _ _. Inr (\<lparr>atcPipeline_ID = 11, atcPipeline_Groups = [''all''],
        atcPipeline_LastUpdated = 100\<rparr>, True)),
      Team_DeletePipeline = (\<lambda>_ _ _ _. None),
      Team_PauseJob = (\<lambda>_ _ _ _ _. None), Team_UnpauseJob = (\<lambda>_ _ _ _ _. None),
      Team_Job = (\<lambda>_ _ _ _ _. Inr (\<lparr>atcJob_FinishedBuild = Some (ex_atc_build ''failed'')\<rparr>, True)),
      Team_CreateJobBuild = (\<lambda>_ _ _ _ _. Inr (ex_atc_build ''pending'')),
      Team_CheckResource = (\<lambda>_ _ _ _ _ _ _. None),
      Team_ResourceVersions = (\<lambda>_ _ _ _ _ _. Inr ([[(''ref'', ''beef'')]], True)),
      OAuth_PasswordCredentialsToken = (\<lambda>_ _ _ _ _. Inr \<lparr>Token_AccessToken = ''t'', Token_TokenType = ''bearer''\<rparr>)\<rparr>"

definition ex_env :: "ex_client env" where
  "ex_env = \<lparr>lib = ex_lib, k8s = ex_k8s, atc = ex_atc, clock = (\<lambda>n. 1000 * Minute + int n)\<rparr>"

definition ex_req :: ObjectKey where
  "ex_req = \<lparr>key_Namespace = ''ns'', key_Name = ''x''\<rparr>"

lemmas ex_objects =
  ex_instance_def ex_team_def ex_pipeline_def ex_job_def ex_build_def ex_resource_def ex_worker_def
  ex_meta_def ex_ready_def ex_ref_def ex_req_def

lemmas ex_simps = ex_env_def ex_lib_def ex_k8s_def ex_atc_def ex_objects

subsection \<open>Reading its components\<close>

lemma ex_env_sel [simp]:
  "lib ex_env = ex_lib" "k8s ex_env = ex_k8s" "atc ex_env = ex_atc" "clock ex_env n = 1000 * Minute + int n"
  by (simp_all add: ex_env_def)

lemma ex_lib_sel [simp]:
  "SetStatusCondition ex_lib = ex_SetStatusCondition"
  "IsStatusConditionTrue ex_lib cs t =
     (case find_condition cs t of None \<Rightarrow> False | Some c \<Rightarrow> Condition_Status c = ConditionTrue)"
  "ContainsFinalizer ex_lib m f \<longleftrightarrow> f \<in> set (Finalizers m)"
  "AddFinalizer ex_lib m f = (if f \<in> set (Finalizers m) then m else m\<lparr>Finalizers := Finalizers m @ [f]\<rparr>)"
  "RemoveFinalizer ex_lib m f = m\<lparr>Finalizers := filter (\<lambda>g. g \<noteq> f) (Finalizers m)\<rparr>"
  "IgnoreNotFound ex_lib = ex_IgnoreNotFound"
  "IsZero ex_lib time \<longleftrightarrow> time = None"
  "SetControllerReference ex_lib job b = Inr (b\<lparr>Build_ObjectMeta :=
     (Build_ObjectMeta b)\<lparr>OwnerReferences := [Name (Job_ObjectMeta job)]\<rparr>\<rparr>)"
  "AppendCertsFromPEM ex_lib pem = (pem \<noteq> '''', [pem])"
  "Quote ex_lib x = [CHR 0x22] @ x @ [CHR 0x22]"
  "NamespacedName_String ex_lib k = key_Namespace k @ ''/'' @ key_Name k"
  "NewClient ex_lib url http tracing = (url, http, tracing)"
  by (simp_all add: ex_lib_def)

lemma ex_k8s_sel [simp]:
  "Get_Instance ex_k8s n k = Inr ex_instance" "Get_Team ex_k8s n k = Inr ex_team"
  "Get_Pipeline ex_k8s n k = Inr ex_pipeline" "Get_Job ex_k8s n k = Inr ex_job"
  "Get_Build ex_k8s n k = Inr ex_build" "Get_Resource ex_k8s n k = Inr ex_resource"
  "Get_Worker ex_k8s n k = Inr ex_worker"
  "Get_Secret ex_k8s n k = Inr [''token'' \<mapsto> ''t0ken'', ''password'' \<mapsto> ''pw'', ''ca.crt'' \<mapsto> ''pem'']"
  "Get_ConfigMap ex_k8s n k = Inr [''pipeline.yml'' \<mapsto> ''abc'']"
  "Update_Instance ex_k8s n i = (if valid_instance i then Inr i else Inl (ApiError False ''invalid name''))"
  "Update_Team ex_k8s n team = Inr team" "Update_Pipeline ex_k8s n p = Inr p"
  "Status_Instance ex_k8s n i = Inr i" "Status_Team ex_k8s n team = Inr team"
  "Status_Pipeline ex_k8s n p = Inr p" "Status_Job ex_k8s n j = Inr j" "Status_Build ex_k8s n b = Inr b"
  "Status_Resource ex_k8s n r = Inr r" "Status_Worker ex_k8s n w = Inr w"
  "Create_Build ex_k8s n b = Inr (b\<lparr>Build_ObjectMeta :=
     (Build_ObjectMeta b)\<lparr>Name := GenerateName (Build_ObjectMeta b) @ ''x7k2p''\<rparr>\<rparr>)"
  by (simp_all add: ex_k8s_def)

lemma ex_meta_sel [simp]:
  "Name (ex_meta n) = n" "Namespace (ex_meta n) = ''ns''" "ResourceVersion (ex_meta n) = ''1''"
  "Generation (ex_meta n) = 2" "DeletionTimestamp (ex_meta n) = None" "Finalizers (ex_meta n) = ex_finalizers"
  by (simp_all add: ex_meta_def)

lemma ex_object_sel [simp]:
  "Instance_ObjectMeta ex_instance = ex_meta ''ci''" "Team_ObjectMeta ex_team = ex_meta ''dev''"
  "Pipeline_ObjectMeta ex_pipeline = ex_meta ''hello''" "Job_ObjectMeta ex_job = ex_meta ''unit''"
  "Build_ObjectMeta ex_build = ex_meta ''unit-build-1''" "Resource_ObjectMeta ex_resource = ex_meta ''repo''"
  "Worker_ObjectMeta ex_worker = ex_meta ''w-1''"
  "InstanceStatus_Conditions (Instance_Status ex_instance) = ex_ready"
  "TeamStatus_Conditions (Team_Status ex_team) = ex_ready"
  "PipelineStatus_Conditions (Pipeline_Status ex_pipeline) = ex_ready"
  "TeamSpec_InstanceRef (Team_Spec ex_team) = ex_ref ''ci''"
  "TeamSpec_TeamName (Team_Spec ex_team) = ''developers''"
  "PipelineSpec_TeamRef (Pipeline_Spec ex_pipeline) = ex_ref ''dev''"
  "PipelineSpec_PipelineName (Pipeline_Spec ex_pipeline) = ''''"
  "JobSpec_PipelineRef (Job_Spec ex_job) = ex_ref ''hello''"
  "JobSpec_JobName (Job_Spec ex_job) = ''''"
  "LocalObjectReference_Name (ex_ref n) = n"
  "InstanceSpec_URL (Instance_Spec ex_instance) = ''https://ci''"
  "InstanceSpec_BasicAuth (Instance_Spec ex_instance) = None"
  "InstanceSpec_TokenAuth (Instance_Spec ex_instance) = Some \<lparr>TokenAuth_TokenRef =
     \<lparr>SecretKeySelector_Name = ''cred'', SecretKeySelector_Key = ''token''\<rparr>\<rparr>"
  "InstanceSpec_TLS (Instance_Spec ex_instance) = None"
  by (simp_all add: ex_objects)

lemma ex_ready_true [simp]:
  "find_condition ex_ready ConditionReady = Some \<lparr>Condition_Type = ConditionReady,
     Condition_Status = ConditionTrue, Condition_Reason = ''Ready'', Condition_Message = '''',
     Condition_LastTransitionTime = Some 0\<rparr>"
  by (simp add: ex_ready_def find_condition_def)

subsection \<open>It satisfies what is assumed of environments\<close>

lemma keep_transition_time [simp]: "\<exists>ltt. c = c\<lparr>Condition_LastTransitionTime := ltt\<rparr>" for c :: Condition
  by (rule exI [of _ "Condition_LastTransitionTime c"]) simp

lemma ex_find_same:
  "\<exists>ltt. find_condition (ex_SetStatusCondition now cs c) (Condition_Type c) =
     Some (c\<lparr>Condition_LastTransitionTime := ltt\<rparr>)"
  by (induction cs) (auto simp: find_condition_def)

lemma ex_find_other:
  "t \<noteq> Condition_Type c \<Longrightarrow>
   find_condition (ex_SetStatusCondition now cs c) t = find_condition cs t"
  by (induction cs) (auto simp: find_condition_def)

lemma ex_condition_laws [simp]: "condition_laws ex_lib"
  by (auto simp: condition_laws_def ex_lib_def ex_find_same ex_find_other split: option.splits)

lemma ex_isReady_set_cond [simp]:
  "lib E = ex_lib \<Longrightarrow> isReady E (set_cond ex_lib now cs t st r m) \<longleftrightarrow>
     (if t = ConditionReady then st = ConditionTrue else isReady E cs)"
  using isReady_set_cond [of E now cs t st r m] by simp

lemma ex_valid_names [simp]: "k8s E = ex_k8s \<Longrightarrow> valid_names E"
  by (auto simp: valid_names_def seen_def valid_meta_def split: if_splits)

subsection \<open>Resolving in it\<close>

definition ex_cl :: ex_client where
  "ex_cl = (''https://ci'', \<lparr>Client_Transport = OAuth2Transport
     (StaticTokenSource \<lparr>Token_AccessToken = ''t0ken'', Token_TokenType = ''bearer''\<rparr>)
     \<lparr>Transport_TLSClientConfig = \<lparr>tls_InsecureSkipVerify = False, tls_RootCAs = None\<rparr>\<rparr>\<rparr>, False)"


text \<open>The traces of the three resolvers from any state whose cache does not hold the instance yet.\<close>

definition ex_cached :: "ex_client op_state \<Rightarrow> ex_client call list \<Rightarrow> ex_client op_state" where
  "ex_cached s cs = s\<lparr>trace := trace s @ cs, store := Cache_Set (store s) ex_instance ex_cl\<rparr>"

definition ex_get :: "object_kind \<Rightarrow> string \<Rightarrow> ex_client call" where
  "ex_get k n = KGet k \<lparr>key_Namespace = ''ns'', key_Name = n\<rparr>"

lemma ex_GetOrBuild [simp]:
  "Cache_Get (store s) ex_instance = None \<Longrightarrow> lib E = ex_lib \<Longrightarrow> (\<And>n k. Get_Secret (k8s E) n k = Get_Secret ex_k8s n k) \<Longrightarrow>
   run_state (GetOrBuild E ex_instance) s = (Inr ex_cl, ex_cached s [ex_get KSecret ''cred''])"
  by (simp add: GetOrBuild_def BuildHTTPClient_def buildTLSConfig_def readSecretKey_def run_simps Let_def
      NewConcourseClient_def ex_cl_def ex_cached_def ex_get_def)

lemma ex_resolveInstanceForTeam [simp]:
  "Cache_Get (store s) ex_instance = None \<Longrightarrow> lib E = ex_lib \<Longrightarrow> (\<And>n k. Get_Secret (k8s E) n k = Get_Secret ex_k8s n k) \<Longrightarrow>
   (\<And>n k. Get_Instance (k8s E) n k = Inr ex_instance) \<Longrightarrow>
   Namespace (Team_ObjectMeta team) = ''ns'' \<Longrightarrow> TeamSpec_InstanceRef (Team_Spec team) = ex_ref ''ci'' \<Longrightarrow>
   run_state (resolveInstanceForTeam E team) s =
     (Inr ex_cl, ex_cached s [ex_get KInstance ''ci'', ex_get KSecret ''cred''])"
  by (simp add: resolveInstanceForTeam_def run_simps ex_cached_def ex_get_def Let_def)

lemma ex_resolveClientForPipeline [simp]:
  "Cache_Get (store s) ex_instance = None \<Longrightarrow> lib E = ex_lib \<Longrightarrow> (\<And>n k. Get_Secret (k8s E) n k = Get_Secret ex_k8s n k) \<Longrightarrow>
   (\<And>n k. Get_Instance (k8s E) n k = Inr ex_instance) \<Longrightarrow>
   (\<And>n k. Get_Team (k8s E) n k = Inr ex_team) \<Longrightarrow>
   Namespace (Pipeline_ObjectMeta p) = ''ns'' \<Longrightarrow> PipelineSpec_TeamRef (Pipeline_Spec p) = ex_ref ''dev'' \<Longrightarrow>
   run_state (resolveClientForPipeline E p) s =
     (Inr (ex_cl, ''developers''),
      ex_cached s [ex_get KTeam ''dev'', ex_get KInstance ''ci'', ex_get KSecret ''cred''])"
  by (simp add: resolveClientForPipeline_def run_simps ex_cached_def ex_get_def Let_def)

lemma ex_resolveClientForJob [simp]:
  "Cache_Get (store s) ex_instance = None \<Longrightarrow> lib E = ex_lib \<Longrightarrow> (\<And>n k. Get_Secret (k8s E) n k = Get_Secret ex_k8s n k) \<Longrightarrow>
   (\<And>n k. Get_Instance (k8s E) n k = Inr ex_instance) \<Longrightarrow>
   (\<And>n k. Get_Team (k8s E) n k = Inr ex_team) \<Longrightarrow>
   (\<And>n k. Get_Pipeline (k8s E) n k = Inr ex_pipeline) \<Longrightarrow>
   Namespace (Job_ObjectMeta j) = ''ns'' \<Longrightarrow> JobSpec_PipelineRef (Job_Spec j) = ex_ref ''hello'' \<Longrightarrow>
   run_state (resolveClientForJob E j) s =
     (Inr (ex_cl, ''developers'', ''hello''),
      ex_cached s [ex_get KPipeline ''hello'', ex_get KTeam ''dev'', ex_get KInstance ''ci'', ex_get KSecret ''cred''])"
  by (simp add: resolveClientForJob_def run_simps ex_cached_def ex_get_def Let_def)

lemma ex_resolveClientForJob_hit:
  "Cache_Get (store s) ex_instance = Some cl \<Longrightarrow> lib E = ex_lib \<Longrightarrow>
   (\<And>n k. Get_Instance (k8s E) n k = Inr ex_instance) \<Longrightarrow> (\<And>n k. Get_Team (k8s E) n k = Inr ex_team) \<Longrightarrow>
   (\<And>n k. Get_Pipeline (k8s E) n k = Inr ex_pipeline) \<Longrightarrow>
   Namespace (Job_ObjectMeta j) = ''ns'' \<Longrightarrow> JobSpec_PipelineRef (Job_Spec j) = ex_ref ''hello'' \<Longrightarrow>
   run_state (resolveClientForJob E j) s =
     (Inr (cl, ''developers'', ''hello''),
      s\<lparr>trace := trace s @ [ex_get KPipeline ''hello'', ex_get KTeam ''dev'', ex_get KInstance ''ci'']\<rparr>)"
  by (simp add: resolveClientForJob_def resolveClientForPipeline_def resolveInstanceForTeam_def GetOrBuild_hit
      run_simps ex_get_def Let_def)

lemma Cache_Get_ex_cached [simp]: "Cache_Get (store (ex_cached s cs)) ex_instance = Some ex_cl"
  by (simp add: ex_cached_def Cache_Get_def Cache_Set_def)

lemma ex_cached_sel [simp]:
  "trace (ex_cached s cs) = trace s @ cs" "watchers (ex_cached s cs) = watchers s"
  "spawned (ex_cached s cs) = spawned s" "eventCh (ex_cached s cs) = eventCh s"
  by (simp_all add: ex_cached_def)

lemma Cache_Get_NewCache [simp]: "Cache_Get NewCache i = None"
  by (rule cc.look_empty)

end
