(* ===== verification/Client_Layer.thy ===== *)
theory Client_Layer
  imports Example_Env
begin

section \<open>Correctness of the client layer\<close>

text \<open>
  The properties of conditions, credentials, client cache and resolver, which the controllers build
  on: \<open>internal/controller/conditions.go\<close>, \<open>internal/concourse/auth.go\<close>,
  \<open>internal/concourse/client_cache.go\<close> and \<open>internal/controller/resolver.go\<close>.
\<close>

subsection \<open>Credentials\<close>

text \<open>The API server answered with the value \<open>v\<close> for the key of a Secret a selector names.\<close>

definition secret_answer :: "'cl env \<Rightarrow> string \<Rightarrow> SecretKeySelector \<Rightarrow> string \<Rightarrow> bool" where
  "secret_answer E ns ref v \<longleftrightarrow>
     (\<exists>n d. Get_Secret (k8s E) n \<lparr>key_Namespace = ns, key_Name = SecretKeySelector_Name ref\<rparr> = Inr d \<and>
            d (SecretKeySelector_Key ref) = Some v)"

text \<open>How a client may authenticate, and the round tripper that does so.\<close>

datatype credential = Password string string | Bearer string | Anonymous

fun round_tripper :: "string \<Rightarrow> http_Transport \<Rightarrow> credential \<Rightarrow> RoundTripper" where
  "round_tripper url tr (Password user pw) =
     OAuth2Transport (ReuseTokenSource None
       \<lparr>pts_oauthCfg = \<lparr>oauth2_ClientID = ''fly'', oauth2_ClientSecret = ''Zmx5'',
          oauth2_TokenURL = url @ ''/sky/issuer/token'',
          oauth2_Scopes = [''openid'', ''profile'', ''email'', ''federated:id'', ''groups'']\<rparr>,
        pts_transport = tr, pts_username = user, pts_password = pw\<rparr>) tr"
| "round_tripper url tr (Bearer tok) =
     OAuth2Transport (StaticTokenSource \<lparr>Token_AccessToken = tok, Token_TokenType = ''bearer''\<rparr>) tr"
| "round_tripper url tr Anonymous = PlainTransport tr"

text \<open>What the spec of an instance asks for: basic authentication first, then a token, else nothing.\<close>

definition spec_credential :: "'cl env \<Rightarrow> string \<Rightarrow> InstanceSpec \<Rightarrow> credential \<Rightarrow> bool" where
  "spec_credential E ns spec c \<longleftrightarrow>
     (case InstanceSpec_BasicAuth spec of
        Some b \<Rightarrow> (\<exists>pw. secret_answer E ns (BasicAuth_PasswordRef b) pw \<and> c = Password (BasicAuth_Username b) pw)
      | None \<Rightarrow> (case InstanceSpec_TokenAuth spec of
          Some t \<Rightarrow> (\<exists>tok. secret_answer E ns (TokenAuth_TokenRef t) tok \<and> c = Bearer tok)
        | None \<Rightarrow> c = Anonymous))"

definition spec_tls :: "'cl env \<Rightarrow> string \<Rightarrow> InstanceSpec \<Rightarrow> tls_Config \<Rightarrow> bool" where
  "spec_tls E ns spec tls \<longleftrightarrow>
     (case InstanceSpec_TLS spec of
        None \<Rightarrow> tls = \<lparr>tls_InsecureSkipVerify = False, tls_RootCAs = None\<rparr>
      | Some c \<Rightarrow> tls_InsecureSkipVerify tls = TLSConfig_InsecureSkipVerify c \<and>
          (case TLSConfig_CARef c of
             None \<Rightarrow> tls_RootCAs tls = None
           | Some ref \<Rightarrow> (\<exists>pem pool. secret_answer E ns ref pem \<and>
               AppendCertsFromPEM (lib E) pem = (True, pool) \<and> tls_RootCAs tls = Some pool)))"

lemma readSecretKey_answer:
  "run_state (readSecretKey E ns ref) s = (Inr v, t) \<Longrightarrow> secret_answer E ns ref v"
  by (auto simp: readSecretKey_def secret_answer_def run_simps Let_def split: sum.splits option.splits)

lemma buildTLSConfig_answer:
  "run_state (buildTLSConfig E ns (InstanceSpec_TLS spec)) s = (Inr tls, t) \<Longrightarrow> spec_tls E ns spec tls"
  by (auto simp: buildTLSConfig_def spec_tls_def Let_def
      split: sum.splits option.splits prod.splits if_splits dest!: readSecretKey_answer)

lemma BuildHTTPClient_answer:
  assumes "run_state (BuildHTTPClient E ns spec) s = (Inr h, t)"
  obtains tls c where "spec_tls E ns spec tls" and "spec_credential E ns spec c"
    and "h = \<lparr>Client_Transport = round_tripper (InstanceSpec_URL spec) \<lparr>Transport_TLSClientConfig = tls\<rparr> c\<rparr>"
proof -
  from assms obtain tls s' where tls: "run_state (buildTLSConfig E ns (InstanceSpec_TLS spec)) s = (Inr tls, s')"
    by (auto simp: BuildHTTPClient_def split: prod.splits sum.splits)
  have cred: "\<exists>c. spec_credential E ns spec c \<and>
      h = \<lparr>Client_Transport = round_tripper (InstanceSpec_URL spec) \<lparr>Transport_TLSClientConfig = tls\<rparr> c\<rparr>"
  proof (cases "InstanceSpec_BasicAuth spec")
    case (Some b)
    with assms tls obtain pw where "secret_answer E ns (BasicAuth_PasswordRef b) pw"
      and "h = \<lparr>Client_Transport = round_tripper (InstanceSpec_URL spec) \<lparr>Transport_TLSClientConfig = tls\<rparr>
                 (Password (BasicAuth_Username b) pw)\<rparr>"
      by (auto simp: BuildHTTPClient_def Let_def flyOAuthClientID_def flyOAuthClientSecret_def oauth_scopes_def
          split: sum.splits prod.splits dest!: readSecretKey_answer)
    then show ?thesis using Some by (auto simp: spec_credential_def)
  next
    case None
    with assms tls show ?thesis
      by (auto simp: BuildHTTPClient_def Let_def spec_credential_def
          split: sum.splits prod.splits option.splits dest!: readSecretKey_answer)
  qed
  from cred buildTLSConfig_answer [OF tls] that show ?thesis by blast
qed

text \<open>A spec with both ways to authenticate is treated as if it gave basic authentication only.\<close>

lemma token_ignored_with_basic:
  assumes "InstanceSpec_BasicAuth spec = Some b"
  shows "BuildHTTPClient E ns spec = BuildHTTPClient E ns (spec\<lparr>InstanceSpec_TokenAuth := None\<rparr>)"
  using assms unfolding BuildHTTPClient_def by (simp add: Let_def)

text \<open>
  C11: whenever \<open>BuildHTTPClient\<close> succeeds, the client it returns authenticates as the spec asks, with
  a value the API server returned for the Secret named there, against the spec's URL: with basic
  authentication if the spec gives it, with a token if it gives only that, plainly if it gives neither. A spec
  that gives both, which the types' comments and the documentation call invalid, is not refused: the token is
  ignored. Certificate verification is skipped only if the spec says so, and the CA certificates trusted are
  those of the Secret the spec names.
\<close>

theorem BuildHTTPClient_faithful:
  assumes "run_state (BuildHTTPClient E ns spec) s = (Inr h, t)"
  shows "\<exists>tls c. spec_tls E ns spec tls \<and> spec_credential E ns spec c \<and>
    h = \<lparr>Client_Transport = round_tripper (InstanceSpec_URL spec) \<lparr>Transport_TLSClientConfig = tls\<rparr> c\<rparr>"
  using BuildHTTPClient_answer [OF assms] by metis

definition ex_basic_spec :: InstanceSpec where
  "ex_basic_spec = (Instance_Spec ex_instance)
     \<lparr>InstanceSpec_BasicAuth := Some \<lparr>BasicAuth_Username = ''admin'',
        BasicAuth_PasswordRef = \<lparr>SecretKeySelector_Name = ''cred'', SecretKeySelector_Key = ''password''\<rparr>\<rparr>,
      InstanceSpec_TLS := Some \<lparr>TLSConfig_CARef = Some \<lparr>SecretKeySelector_Name = ''cred'',
        SecretKeySelector_Key = ''ca.crt''\<rparr>, TLSConfig_InsecureSkipVerify = False\<rparr>\<rparr>"

lemma ex_basic_build:
  "run_state (BuildHTTPClient ex_env ''ns'' ex_basic_spec) op_init =
     (Inr \<lparr>Client_Transport = round_tripper ''https://ci''
        \<lparr>Transport_TLSClientConfig = \<lparr>tls_InsecureSkipVerify = False, tls_RootCAs = Some [''pem'']\<rparr>\<rparr>
        (Password ''admin'' ''pw'')\<rparr>,
      op_init\<lparr>trace := [ex_get KSecret ''cred'', ex_get KSecret ''cred'']\<rparr>)"
  by (simp add: ex_basic_spec_def BuildHTTPClient_def buildTLSConfig_def readSecretKey_def run_simps Let_def
      flyOAuthClientID_def flyOAuthClientSecret_def oauth_scopes_def ex_get_def)

theorem BuildHTTPClient_faithful_witness:
  "\<exists>tls c. spec_tls ex_env ''ns'' ex_basic_spec tls \<and> spec_credential ex_env ''ns'' ex_basic_spec c \<and>
     \<lparr>Client_Transport = round_tripper ''https://ci''
        \<lparr>Transport_TLSClientConfig = \<lparr>tls_InsecureSkipVerify = False, tls_RootCAs = Some [''pem'']\<rparr>\<rparr>
        (Password ''admin'' ''pw'')\<rparr> =
     \<lparr>Client_Transport = round_tripper (InstanceSpec_URL ex_basic_spec) \<lparr>Transport_TLSClientConfig = tls\<rparr> c\<rparr>"
  by (rule BuildHTTPClient_faithful [OF ex_basic_build])

text \<open>
  \<open>BuildHTTPClient\<close> fails, rather than falling back to an unauthenticated client or to the
  token, whenever basic authentication is asked for and the API server never answers with a value
  for the password's key; and it reads nothing but Secrets of the instance's own namespace.
\<close>

lemma BuildHTTPClient_no_fallback:
  assumes "InstanceSpec_BasicAuth spec = Some b"
    and "\<And>v. \<not> secret_answer E ns (BasicAuth_PasswordRef b) v"
  shows "(\<exists>e. fst (run_state (BuildHTTPClient E ns spec) s) = Inl e) \<and>
    (\<forall>c \<in> set (calls (BuildHTTPClient E ns spec) s). secret_read ns c)"
proof
  obtain r t where run: "run_state (BuildHTTPClient E ns spec) s = (r, t)" by (meson prod.exhaust)
  show "\<exists>e. fst (run_state (BuildHTTPClient E ns spec) s) = Inl e"
  proof (cases r)
    case (Inr h)
    with run obtain c where "spec_credential E ns spec c"
      by (metis BuildHTTPClient_answer)
    with assms show ?thesis by (auto simp: spec_credential_def)
  qed (use run in simp)
qed (blast intro: emits_calls [OF emits_BuildHTTPClient])

subsection \<open>The client cache\<close>

text \<open>
  C3: the cache is a refinement of a map from an instance's namespace and name to one versioned
  client: after any sequence of \<open>set\<close> and \<open>Evict\<close> calls on instances with valid names, \<open>get\<close> answers
  what that map holds for the instance's current resource version.
\<close>

theorem cache_refines_versioned_map:
  assumes "\<forall>x \<in> set xs. valid_instance (op_target x)" and "valid_instance i"
  shows "Cache_Get (run_ops Cache_Set Cache_Evict xs NewCache) i =
    abs_get (run_ops abs_set abs_evict xs Map.empty) i"
  using represents_run_ops [OF represents_NewCache assms(1)] assms(2) by (simp add: represents_def)

definition ex_instance2 :: Instance where
  "ex_instance2 = ex_instance\<lparr>Instance_ObjectMeta := (ex_meta ''ci'')\<lparr>ResourceVersion := ''2''\<rparr>\<rparr>"

lemma ex_instance_valid [simp]:
  "valid_meta (ex_meta ''ci'')" "valid_instance ex_instance2"
  "valid_meta (ex_meta ''ci''\<lparr>ResourceVersion := ''2''\<rparr>)"
  by (simp_all add: valid_meta_def ex_instance2_def)

theorem cache_refines_versioned_map_witness:
  "Cache_Get (run_ops Cache_Set Cache_Evict [OpSet ex_instance ex_cl, OpSet ex_instance2 ex_cl] NewCache) ex_instance2 =
     abs_get (run_ops abs_set abs_evict [OpSet ex_instance ex_cl, OpSet ex_instance2 ex_cl] Map.empty) ex_instance2 \<and>
   abs_get (run_ops abs_set abs_evict [OpSet ex_instance ex_cl, OpSet ex_instance2 ex_cl] Map.empty) ex_instance2 = Some ex_cl"
  using cache_refines_versioned_map [of "[OpSet ex_instance ex_cl, OpSet ex_instance2 ex_cl]" ex_instance2]
  by (simp add: abs_get_def abs_set_def)

text \<open>
  C38: the loops of \<open>Set\<close> and \<open>Evict\<close>, which walk the keys of the map in whatever order Go visits them and
  delete while they walk, are equivalent to an update of the map that is described key by key: for every order of
  the keys, the entry under \<open>ns/name@version\<close> is gone after \<open>Evict\<close> if \<open>ns\<close> and \<open>name\<close> are the instance's, of
  whatever version, and is what it was otherwise; after \<open>Set\<close> it is the new client if the version is the
  instance's too.
\<close>

theorem cache_loops_any_order:
  assumes keys: "set ks = dom st" and valid: "valid_instance i"
    and names: "CHR ''/'' \<notin> set ns \<union> set nm" "CHR ''@'' \<notin> set ns \<union> set nm"
    and k: "k = ns @ ''/'' @ nm @ ''@'' @ version"
    and same: "same \<longleftrightarrow> ns = Namespace (Instance_ObjectMeta i) \<and> nm = Name (Instance_ObjectMeta i)"
  shows "Evict_loop ks st i k = (if same then None else st k) \<and>
    Set_loop ks st i cl k =
      (if same then if version = ResourceVersion (Instance_ObjectMeta i) then Some cl else None else st k)"
proof -
  define j where "j = i\<lparr>Instance_ObjectMeta := (Instance_ObjectMeta i)\<lparr>Namespace := ns, Name := nm, ResourceVersion := version\<rparr>\<rparr>"
  have j: "valid_instance j" "k = cacheKey j" using names by (simp_all add: j_def valid_meta_def cacheKey_def k)
  have loops: "Set_loop ks st i cl = Cache_Set st i cl" "Evict_loop ks st i = Cache_Evict st i"
    using delete_prefixed_restricts [OF keys]
    by (simp_all add: Set_loop_def Cache_Set_def Evict_loop_def Cache_Evict_def)
  have "same_instance i j \<longleftrightarrow> same" and "same_version i j \<longleftrightarrow> same \<and> version = ResourceVersion (Instance_ObjectMeta i)"
    by (auto simp: same_instance_def same_version_def same j_def)
  with cc.look_put [OF valid j(1), of st cl] cc.look_drop [OF valid j(1), of st] show ?thesis
    by (simp add: loops j(2) Cache_Get_def)
qed

theorem cache_loops_any_order_witness:
  "Evict_loop [cacheKey ex_instance2, ''ns/ci2@1'', cacheKey ex_instance]
     [cacheKey ex_instance \<mapsto> ex_cl, cacheKey ex_instance2 \<mapsto> ex_cl, ''ns/ci2@1'' \<mapsto> ex_cl] ex_instance ''ns/ci2@1'' = Some ex_cl"
proof -
  let ?st = "[cacheKey ex_instance \<mapsto> ex_cl, cacheKey ex_instance2 \<mapsto> ex_cl, ''ns/ci2@1'' \<mapsto> ex_cl]"
  have "set [cacheKey ex_instance2, ''ns/ci2@1'', cacheKey ex_instance] = dom ?st" by (simp add: insert_commute)
  from cache_loops_any_order [where i = ex_instance and ns = "''ns''" and nm = "''ci2''" and version = "''1''" and cl = ex_cl,
      OF this _ _ _ refl refl] show ?thesis by simp
qed

text \<open>
  Keys separate instances and versions: two instances with valid names share a cache key exactly
  when they agree on namespace, name and resource version, and the prefix loop of \<open>Evict\<close> and \<open>set\<close>
  removes exactly the keys of the same instance. (A name containing \<open>/\<close> or \<open>@\<close> would break both.)
\<close>

lemma cacheKey_separates:
  assumes "valid_instance i" and "valid_instance j"
  shows "(cacheKey i = cacheKey j \<longleftrightarrow> same_version i j) \<and>
    (has_prefix (cache_prefix i) (cacheKey j) \<longleftrightarrow> same_instance i j)"
  using assms by (simp add: cacheKey_eq_iff has_prefix_cacheKey)

text \<open>
  C12: the contract of \<open>GetOrBuild\<close>: a hit returns the stored client without any remote call; a
  failure leaves the store as it was, so that no error is ever cached; a success leaves the returned
  client in the store for the instance's current version; clients of other instances are never
  touched; and all it reads are Secrets of the instance's namespace.
\<close>

theorem GetOrBuild_contract:
  assumes valid: "valid_instance i" and run: "run_state (GetOrBuild E i) s = (r, t)"
  shows "(\<forall>cl. Cache_Get (store s) i = Some cl \<longrightarrow> r = Inr cl \<and> t = s) \<and>
    (\<forall>e. r = Inl e \<longrightarrow> store t = store s) \<and>
    (\<forall>cl. r = Inr cl \<longrightarrow> Cache_Get (store t) i = Some cl) \<and>
    (\<forall>j. valid_instance j \<longrightarrow> \<not> same_instance i j \<longrightarrow> Cache_Get (store t) j = Cache_Get (store s) j) \<and>
    (\<forall>c \<in> set (calls (GetOrBuild E i) s). secret_read (Namespace (Instance_ObjectMeta i)) c)"
proof -
  have reads: "\<forall>c \<in> set (calls (GetOrBuild E i) s). secret_read (Namespace (Instance_ObjectMeta i)) c"
    by (blast intro: emits_calls [OF emits_GetOrBuild])
  show ?thesis
  proof (cases rule: GetOrBuild_cases [of s i E])
    case (hit cl)
    with run reads show ?thesis by auto
  next
    case (failed e u)
    with run reads store_BuildHTTPClient [OF failed(2)] show ?thesis by (auto simp: Cache_Get_def)
  next
    case (built h u cl)
    have "store t = Cache_Set (store s) i cl" and "r = Inr cl"
      using run built(4) store_BuildHTTPClient [OF built(2)] by auto
    with built(1) reads valid show ?thesis
      by (auto simp: cache_simps same_version_def same_instance_def)
  qed
qed

theorem GetOrBuild_contract_witness:
  "Cache_Get (store (ex_cached op_init [ex_get KSecret ''cred''])) ex_instance = Some ex_cl \<and>
   list_all (secret_read ''ns'') (calls (GetOrBuild ex_env ex_instance) op_init)"
  using GetOrBuild_contract [of ex_instance ex_env op_init "Inr ex_cl" "ex_cached op_init [ex_get KSecret ''cred'']"]
  by (simp add: list_all_iff del: split_paired_All split_paired_Ex)

text \<open>
  A client the operator uses was built for the instance it is used for: if the cache invariant
  holds, a client \<open>GetOrBuild\<close> returns was built by \<open>BuildHTTPClient\<close> and \<open>NewConcourseClient\<close> from
  the instance itself or from one the API server showed with the same namespace, name and resource
  version; and the invariant holds again afterwards.
\<close>

lemma GetOrBuild_client_of_instance:
  assumes "valid_names E" and "seen E i" and "cache_ok E s"
    and "run_state (GetOrBuild E i) s = (Inr cl, t)"
  shows "(\<exists>j. seen E j \<and> same_version i j \<and> built_for E j cl) \<and> cache_ok E t"
proof
  from assms have valid: "valid_instance i" by (simp add: valid_names_def)
  from GetOrBuild_built_for [OF assms(3,4)] obtain j
    where j: "j = i \<or> seen E j \<and> cacheKey j = cacheKey i" and built: "built_for E j cl" by blast
  then have "seen E j" using assms(2) by auto
  with assms(1) have "valid_instance j" by (simp add: valid_names_def)
  moreover from j have "cacheKey i = cacheKey j" by auto
  ultimately show "\<exists>j. seen E j \<and> same_version i j \<and> built_for E j cl"
    using valid built \<open>seen E j\<close> by (auto simp: cacheKey_eq_iff)
  show "cache_ok E t"
    using pr.effect_run [OF preserves_cache_ok_GetOrBuild [OF assms(2) valid] assms(4)] assms(3)
    by (simp add: preserves_def)
qed

lemma ex_seen [simp]: "k8s E = ex_k8s \<Longrightarrow> seen E ex_instance"
  by (simp add: seen_def)

subsection \<open>The dependency chain\<close>

text \<open>
  C14: whatever a job's resolution returns is what the chain of references says: the pipeline, team
  and instance named exist in the job's namespace chain and were Ready when read, the client is one
  built for that instance, and the Concourse names are the ones the specs give, or the objects' own
  names where a spec leaves them empty.
\<close>

theorem job_resolution_sound:
  assumes "cache_ok E s" and "run_state (resolveClientForJob E j) s = (Inr (cl, tn, pn), u)"
  shows "\<exists>p t. pipeline_ready E (Namespace (Job_ObjectMeta j))
      (LocalObjectReference_Name (JobSpec_PipelineRef (Job_Spec j))) p \<and>
    team_ready E (Namespace (Pipeline_ObjectMeta p))
      (LocalObjectReference_Name (PipelineSpec_TeamRef (Pipeline_Spec p))) t \<and>
    client_of E (Namespace (Team_ObjectMeta t))
      (LocalObjectReference_Name (TeamSpec_InstanceRef (Team_Spec t))) cl \<and>
    tn = default_name (TeamSpec_TeamName (Team_Spec t)) (Team_ObjectMeta t) \<and>
    pn = default_name (PipelineSpec_PipelineName (Pipeline_Spec p)) (Pipeline_ObjectMeta p)"
  by (rule resolveClientForJob_sound [OF assms])

theorem job_resolution_sound_witness:
  "\<exists>p t. pipeline_ready ex_env ''ns'' ''hello'' p \<and>
    team_ready ex_env (Namespace (Pipeline_ObjectMeta p))
      (LocalObjectReference_Name (PipelineSpec_TeamRef (Pipeline_Spec p))) t \<and>
    client_of ex_env (Namespace (Team_ObjectMeta t))
      (LocalObjectReference_Name (TeamSpec_InstanceRef (Team_Spec t))) ex_cl \<and>
    ''developers'' = default_name (TeamSpec_TeamName (Team_Spec t)) (Team_ObjectMeta t) \<and>
    ''hello'' = default_name (PipelineSpec_PipelineName (Pipeline_Spec p)) (Pipeline_ObjectMeta p)"
  using job_resolution_sound [of ex_env op_init ex_job ex_cl "''developers''" "''hello''"
      "ex_cached op_init [ex_get KPipeline ''hello'', ex_get KTeam ''dev'', ex_get KInstance ''ci'', ex_get KSecret ''cred'']"]
  by simp

text \<open>The keys a job, a pipeline and a team read their parents under.\<close>

definition job_pipeline_key :: "Job \<Rightarrow> ObjectKey" where
  "job_pipeline_key j = \<lparr>key_Namespace = Namespace (Job_ObjectMeta j),
     key_Name = LocalObjectReference_Name (JobSpec_PipelineRef (Job_Spec j))\<rparr>"

definition pipeline_team_key :: "Pipeline \<Rightarrow> ObjectKey" where
  "pipeline_team_key p = \<lparr>key_Namespace = Namespace (Pipeline_ObjectMeta p),
     key_Name = LocalObjectReference_Name (PipelineSpec_TeamRef (Pipeline_Spec p))\<rparr>"

definition team_instance_key :: "Team \<Rightarrow> ObjectKey" where
  "team_instance_key t = \<lparr>key_Namespace = Namespace (Team_ObjectMeta t),
     key_Name = LocalObjectReference_Name (TeamSpec_InstanceRef (Team_Spec t))\<rparr>"

text \<open>
  An ancestor that is not Ready stops the resolution at once: the answer is the error that names
  it, after a single read, with no client built and nothing else changed. This holds at each of the
  three levels of the chain.
\<close>

lemma unready_ancestor_blocks:
  "(Get_Pipeline (k8s E) (length (trace s)) (job_pipeline_key j) = Inr p \<and>
      \<not> isReady E (PipelineStatus_Conditions (Pipeline_Status p)) \<longrightarrow>
    run_state (resolveClientForJob E j) s =
      (Inl (Errorf (''pipeline '' @ Name (Pipeline_ObjectMeta p) @ '' is not ready'')),
       s\<lparr>trace := trace s @ [KGet KPipeline (job_pipeline_key j)]\<rparr>)) \<and>
   (Get_Team (k8s E) (length (trace s)) (pipeline_team_key p) = Inr t \<and>
      \<not> isReady E (TeamStatus_Conditions (Team_Status t)) \<longrightarrow>
    run_state (resolveClientForPipeline E p) s =
      (Inl (Errorf (''team '' @ Name (Team_ObjectMeta t) @ '' is not ready'')),
       s\<lparr>trace := trace s @ [KGet KTeam (pipeline_team_key p)]\<rparr>)) \<and>
   (Get_Instance (k8s E) (length (trace s)) (team_instance_key t) = Inr i \<and>
      \<not> isReady E (InstanceStatus_Conditions (Instance_Status i)) \<longrightarrow>
    run_state (resolveInstanceForTeam E t) s =
      (Inl (Errorf (''instance '' @ Name (Instance_ObjectMeta i) @ '' is not ready'')),
       s\<lparr>trace := trace s @ [KGet KInstance (team_instance_key t)]\<rparr>))"
  by (simp add: resolveClientForJob_def resolveClientForPipeline_def resolveInstanceForTeam_def
      isReady_def run_simps Let_def job_pipeline_key_def pipeline_team_key_def team_instance_key_def)

text \<open>
  Resolving has no effect outside the process and none on the watchers: every call a resolver
  issues is a read from the Kubernetes API, none goes to Concourse, and the sentinels, goroutines
  and event channel stay as they were.
\<close>

lemma resolvers_only_read:
  "(\<forall>c \<in> set (calls (resolveClientForJob E j) s) \<union> set (calls (resolveClientForPipeline E p) s) \<union>
        set (calls (resolveInstanceForTeam E t) s). k8s_read c \<and> \<not> concourse_call c) \<and>
   goroutines (snd (run_state (resolveClientForJob E j) s)) = goroutines s"
proof
  show "\<forall>c \<in> set (calls (resolveClientForJob E j) s) \<union> set (calls (resolveClientForPipeline E p) s) \<union>
        set (calls (resolveInstanceForTeam E t) s). k8s_read c \<and> \<not> concourse_call c"
    by (auto dest: emits_calls [OF emits_resolveClientForJob] emits_calls [OF emits_resolveClientForPipeline]
        emits_calls [OF emits_resolveInstanceForTeam] k8s_read_not_concourse)
  have "state_io_rel (keeps goroutines) (resolveClientForJob E j)"
    by (intro keeps_resolvers) simp_all
  then show "goroutines (snd (run_state (resolveClientForJob E j) s)) = goroutines s"
    by (metis keeps_def kp.effect_run prod.collapse)
qed

subsection \<open>Conditions\<close>

text \<open>
  \<open>setCondition\<close> makes the condition of its type report exactly the status, reason and message it
  was given, and leaves what every other type reports as it was; readiness changes only through the
  Ready condition. (Given the documented behaviour of apimachinery's condition helpers.)
\<close>

lemma setCondition_reports:
  assumes "condition_laws (lib E)" and "run_state (setCondition E cs t st r m) s = (cs', s')"
  shows "reports cs' t st r m \<and>
    (\<forall>u st' r' m'. u \<noteq> t \<longrightarrow> reports cs' u st' r' m' = reports cs u st' r' m') \<and>
    isReady E cs' = (if t = ConditionReady then st = ConditionTrue else isReady E cs)"
  using assms by (auto simp: run_simps laws)

end
