(* ===== verification/Instance_Controller.thy ===== *)
theory Instance_Controller
  imports Example_Env
begin

section \<open>The instance controller (instance_controller.go)\<close>

text \<open>
  \<open>InstanceReconciler.Reconcile\<close> of \<open>internal/controller/instance_controller.go\<close>: the finalizer
  protocol, the connection check and the status with its worker counts.
\<close>

definition instanceFinalizer :: string where
  "instanceFinalizer = ''concourse-ci.org/instance-finalizer''"

text \<open>The loop over the workers: one counter per state it switches on.\<close>

fun countWorkers :: "int \<times> int \<Rightarrow> atc_Worker list \<Rightarrow> int \<times> int" where
  "countWorkers (stalled, running) [] = (stalled, running)"
| "countWorkers (stalled, running) (w # ws) =
     (if atcWorker_State w = ''stalled'' then countWorkers (stalled + 1, running) ws
      else if atcWorker_State w = ''running'' then countWorkers (stalled, running + 1) ws
      else countWorkers (stalled, running) ws)"

text \<open>The two failure exits, which differ in the reason only.\<close>

definition Instance_failed :: "'cl env \<Rightarrow> Instance \<Rightarrow> string \<Rightarrow> go_error \<Rightarrow> ('cl, reconcile_result) op" where
  "Instance_failed E instance reason err = do {
     cs \<leftarrow> setCondition E (InstanceStatus_Conditions (Instance_Status instance))
             ConditionAuthenticated ConditionFalse reason (Error err);
     cs \<leftarrow> setCondition E cs ConditionReady ConditionFalse reason (Error err);
     let instance = instance\<lparr>Instance_Status := (Instance_Status instance)\<lparr>InstanceStatus_Conditions := cs\<rparr>\<rparr>;
     _ \<leftarrow> ask (KStatusUpdate (OInstance instance)) (\<lambda>n. Status_Instance (k8s E) n instance);
     State_Monad.return (Requeue (30 * Second))
   }"

definition Instance_status :: "'cl env \<Rightarrow> Instance \<Rightarrow> atc_Info \<Rightarrow> atc_Worker list \<Rightarrow> ('cl, reconcile_result) op" where
  "Instance_status E instance info workers = do {
     let (stalled, running) = countWorkers (0, 0) workers;
     let st = (Instance_Status instance)
       \<lparr>InstanceStatus_Version := Info_Version info,
        InstanceStatus_WorkerVersion := Info_WorkerVersion info,
        InstanceStatus_ClusterName := Info_ClusterName info,
        InstanceStatus_ExternalURL := Info_ExternalURL info,
        InstanceStatus_WorkerCount := int (length workers),
        InstanceStatus_ObservedGeneration := Generation (Instance_ObjectMeta instance),
        InstanceStatus_StalledWorkers := stalled,
        InstanceStatus_RunningWorkers := running\<rparr>;
     cs \<leftarrow> (if stalled > 0
           then setCondition E (InstanceStatus_Conditions st) ConditionWorkersHealthy ConditionFalse
                  ''WorkersStalled'' (Itoa stalled @ '' worker(s) stalled'')
           else setCondition E (InstanceStatus_Conditions st) ConditionWorkersHealthy ConditionTrue
                  ''AllRunning'' '''');
     cs \<leftarrow> setCondition E cs ConditionAuthenticated ConditionTrue ''Authenticated'' '''';
     cs \<leftarrow> setCondition E cs ConditionReady ConditionTrue ''Ready'' '''';
     let instance = instance\<lparr>Instance_Status := st\<lparr>InstanceStatus_Conditions := cs\<rparr>\<rparr>;
     u \<leftarrow> ask (KStatusUpdate (OInstance instance)) (\<lambda>n. Status_Instance (k8s E) n instance);
     case u of
       Inl err \<Rightarrow> State_Monad.return (Failed (Wrapf ''update status'' err))
     | Inr instance \<Rightarrow>
         (let interval = InstanceSpec_Interval (Instance_Spec instance);
              interval = (if interval = 0 then 5 * Minute else interval)
          in State_Monad.return (Requeue interval))
   }"

text \<open>The part of \<open>Reconcile\<close> that follows the finalizer protocol.\<close>

definition Instance_apply :: "'cl env \<Rightarrow> Instance \<Rightarrow> ('cl, reconcile_result) op" where
  "Instance_apply E instance = do {
     c \<leftarrow> GetOrBuild E instance;
     case c of
       Inl err \<Rightarrow> Instance_failed E instance ''AuthFailed'' err
     | Inr cl \<Rightarrow> do {
         i \<leftarrow> ask (CGetInfo cl) (\<lambda>n. Client_GetInfo (atc E) n cl);
         case i of
           Inl err \<Rightarrow> Instance_failed E instance ''InfoFailed'' err
         | Inr info \<Rightarrow> do {
             (workers, err) \<leftarrow> ask (CListWorkers cl) (\<lambda>n. Client_ListWorkers (atc E) n cl);
             Instance_status E instance info workers
           }
       }
   }"

definition Instance_Reconcile :: "'cl env \<Rightarrow> ObjectKey \<Rightarrow> ('cl, reconcile_result) op" where
  "Instance_Reconcile E req = do {
     r \<leftarrow> ask (KGet KInstance req) (\<lambda>n. Get_Instance (k8s E) n req);
     case r of
       Inl err \<Rightarrow> State_Monad.return (Result0, IgnoreNotFound (lib E) err)
     | Inr instance \<Rightarrow>
         if \<not> IsZero (lib E) (DeletionTimestamp (Instance_ObjectMeta instance)) then
           (if ContainsFinalizer (lib E) (Instance_ObjectMeta instance) instanceFinalizer then do {
              _ \<leftarrow> Evict instance;
              let instance = instance\<lparr>Instance_ObjectMeta :=
                    RemoveFinalizer (lib E) (Instance_ObjectMeta instance) instanceFinalizer\<rparr>;
              u \<leftarrow> ask (KUpdate (OInstance instance)) (\<lambda>n. Update_Instance (k8s E) n instance);
              case u of
                Inl err \<Rightarrow> State_Monad.return (Failed (Wrapf ''remove finalizer'' err))
              | Inr _ \<Rightarrow> State_Monad.return Done
            }
            else State_Monad.return Done)
         else do {
           f \<leftarrow> (if \<not> ContainsFinalizer (lib E) (Instance_ObjectMeta instance) instanceFinalizer then
                 (let instance = instance\<lparr>Instance_ObjectMeta :=
                        AddFinalizer (lib E) (Instance_ObjectMeta instance) instanceFinalizer\<rparr>
                  in ask (KUpdate (OInstance instance)) (\<lambda>n. Update_Instance (k8s E) n instance))
                else State_Monad.return (Inr instance));
           case f of
             Inl err \<Rightarrow> State_Monad.return (Failed (Wrapf ''add finalizer'' err))
           | Inr instance \<Rightarrow> Instance_apply E instance
         }
   }"

subsection \<open>Interface\<close>

lemma appends_Evict: "appends (Evict i)"
  unfolding Evict_def by (rule em.effect_modify) (simp add: emits_def)

lemma keeps_goroutines_Evict: "state_io_rel (keeps goroutines) (Evict i)"
  unfolding Evict_def by (rule kp.effect_modify) (simp add: keeps_def)

lemma preserves_cache_ok_Evict: "valid_instance i \<Longrightarrow> state_io_rel (preserves (cache_ok E)) (Evict i)"
  unfolding Evict_def by (rule pr.effect_modify) (simp add: preserves_def cache_ok_Cache_Evict)

text \<open>Every instance the handler works on is an answer of the API server.\<close>

lemma seen_finalized:
  assumes "Inr j \<in> set_state (if b then let i' = f i in ask (c i') (\<lambda>n. Update_Instance (k8s E) n i')
                                else State_Monad.return (Inr i))"
    and "seen E i"
  shows "seen E j"
proof (cases b)
  case True
  with assms(1) show ?thesis by (auto simp: Let_def dest: seen_Update)
next
  case False
  with assms show ?thesis by (auto simp: set_state_iff)
qed

interpretation ir: passive_reconciler E KInstance "Instance_Reconcile E" for E :: "'cl env"
proof
  fix req :: ObjectKey
  note defs = Instance_Reconcile_def Instance_apply_def Instance_failed_def Instance_status_def
  show "reads_first KInstance req (Instance_Reconcile E req)"
    unfolding defs by (intro reads_firstI appends_rules appends_Evict) simp_all
  show "state_io_rel (keeps goroutines) (Instance_Reconcile E req)"
    unfolding defs by (intro goroutine_rules keeps_goroutines_Evict) simp_all
  assume v: "valid_names E"
  show "state_io_rel (preserves (cache_ok E)) (Instance_Reconcile E req)"
    unfolding defs
    by (intro cache_rules preserves_cache_ok_Evict preserves_cache_ok_GetOrBuild)
       (use v in \<open>auto simp: valid_names_def dest!: seen_Get seen_finalized\<close>)
qed

subsection \<open>Health of an instance\<close>

abbreviation workers_in :: "string \<Rightarrow> atc_Worker list \<Rightarrow> int" where
  "workers_in st ws \<equiv> int (length (filter (\<lambda>w. atcWorker_State w = st) ws))"

lemma countWorkers_counts:
  "countWorkers (a, b) ws = (a + workers_in ''stalled'' ws, b + workers_in ''running'' ws)"
  by (induction "(a, b)" ws arbitrary: a b rule: countWorkers.induct) simp_all

text \<open>
  C33: after Concourse answered, the instance's status is Ready and Authenticated, counts the workers
  listed, those stalled and those running, and has WorkersHealthy False exactly when some listed worker
  is stalled. So WorkerCount is the number of all listed workers, in whatever state, although its comment says
  running workers (\<open>instance_types.go\<close>) and the API reference healthy workers; workers in any state but stalled
  count as healthy, and so does an empty list. The next run is after the spec's interval, or five minutes if
  that is zero.
\<close>

theorem instance_status_reports:
  assumes cond: "condition_laws (lib E)"
  shows "\<exists>i' r. run_state (Instance_status E i info ws) s =
      (r, s\<lparr>trace := trace s @ [Clock, Clock, Clock, KStatusUpdate (OInstance i')]\<rparr>) \<and>
    InstanceStatus_WorkerCount (Instance_Status i') = int (length ws) \<and>
    InstanceStatus_StalledWorkers (Instance_Status i') = workers_in ''stalled'' ws \<and>
    InstanceStatus_RunningWorkers (Instance_Status i') = workers_in ''running'' ws \<and>
    isReady E (InstanceStatus_Conditions (Instance_Status i')) \<and>
    IsStatusConditionTrue (lib E) (InstanceStatus_Conditions (Instance_Status i')) ConditionAuthenticated \<and>
    (IsStatusConditionTrue (lib E) (InstanceStatus_Conditions (Instance_Status i')) ConditionWorkersHealthy \<longleftrightarrow>
       workers_in ''stalled'' ws = 0) \<and>
    r = (case Status_Instance (k8s E) (length (trace s) + 3) i' of
           Inl err \<Rightarrow> Failed (Wrapf ''update status'' err)
         | Inr j \<Rightarrow> Requeue (if InstanceSpec_Interval (Instance_Spec j) = 0 then 5 * Minute
                              else InstanceSpec_Interval (Instance_Spec j)))"
  using cond
  by (cases "filter (\<lambda>w. atcWorker_State w = ''stalled'') ws = []")
     (simp_all add: Instance_status_def countWorkers_counts run_simps laws Let_def numeral_3_eq_3 split: sum.split)

theorem instance_status_reports_witness:
  "\<exists>i' r. run_state (Instance_status ex_env ex_instance \<lparr>Info_Version = ''7'', Info_WorkerVersion = ''2'',
        Info_ClusterName = ''c'', Info_ExternalURL = ''u''\<rparr>
        [ex_atc_worker ''a'' ''landed'', ex_atc_worker ''b'' ''retiring'']) op_init =
      (r, op_init\<lparr>trace := [Clock, Clock, Clock, KStatusUpdate (OInstance i')]\<rparr>) \<and>
    InstanceStatus_RunningWorkers (Instance_Status i') = 0 \<and>
    IsStatusConditionTrue ex_lib (InstanceStatus_Conditions (Instance_Status i')) ConditionWorkersHealthy"
proof -
  let ?ws = "[ex_atc_worker ''a'' ''landed'', ex_atc_worker ''b'' ''retiring'']"
  have "workers_in ''stalled'' ?ws = 0" "workers_in ''running'' ?ws = 0" by (simp_all add: ex_atc_worker_def)
  with instance_status_reports [of ex_env ex_instance "\<lparr>Info_Version = ''7'', Info_WorkerVersion = ''2'',
        Info_ClusterName = ''c'', Info_ExternalURL = ''u''\<rparr>" ?ws op_init]
  show ?thesis by (simp only: ex_env_sel ex_condition_laws simp_thms op_init_sel append_Nil) blast
qed

text \<open>A status that does not claim the instance is Ready, as a predicate on calls.\<close>

fun instance_status_unready :: "'cl env \<Rightarrow> 'cl call \<Rightarrow> bool" where
  "instance_status_unready E (KStatusUpdate (OInstance i)) = (\<not> isReady E (InstanceStatus_Conditions (Instance_Status i)))"
| "instance_status_unready E _ = True"

text \<open>
  An instance is Ready only on Concourse's word: as long as every \<open>GetInfo\<close> fails, no status the
  instance reconciler sends has Ready True, whether or not a client could be built.
\<close>

lemma instance_ready_needs_info:
  assumes cond: "condition_laws (lib E)"
    and fails: "\<And>n cl. \<exists>e. Client_GetInfo (atc E) n cl = Inl e"
  shows "\<forall>c \<in> set (calls (Instance_Reconcile E req) s). instance_status_unready E c"
proof -
  have unready: "state_io_rel (emits (instance_status_unready E)) (Instance_failed E i reason err)" for i reason err
    unfolding Instance_failed_def
    by (intro em.effect_rules emits_setCondition emits_ask) (simp_all add: not_ready_setCondition [OF cond])
  have evict: "state_io_rel (emits (instance_status_unready E)) (Evict i)" for i
    unfolding Evict_def by (rule em.effect_modify) (simp add: emits_def)
  have failed: False if "Inr x \<in> set_state (ask c (\<lambda>n. Client_GetInfo (atc E) n cl))" for x c cl
    using set_state_ask [OF that] fails by (metis Inl_Inr_False)
  have "state_io_rel (emits (instance_status_unready E)) (Instance_Reconcile E req)"
    unfolding Instance_Reconcile_def Instance_apply_def
    by (intro em.effect_rules emits_resolvers_if emits_ask unready evict) (auto dest: failed)
  then show ?thesis by (blast intro: emits_calls)
qed

text \<open>
  C24: deleting an instance drops every client cached for it, of whatever version, and no other, and sends
  the object without the finalizer; Concourse is not contacted.
\<close>

theorem instance_deletion_evicts:
  assumes get: "Get_Instance (k8s E) (length (trace s)) req = Inr i"
    and deleted: "\<not> IsZero (lib E) (DeletionTimestamp (Instance_ObjectMeta i))"
    and fin: "ContainsFinalizer (lib E) (Instance_ObjectMeta i) instanceFinalizer"
    and valid: "valid_instance i" "valid_instance j"
    and t: "t = snd (run_state (Instance_Reconcile E req) s)"
  shows "trace t = trace s @ [KGet KInstance req, KUpdate (OInstance (i\<lparr>Instance_ObjectMeta :=
      RemoveFinalizer (lib E) (Instance_ObjectMeta i) instanceFinalizer\<rparr>))] \<and>
    Cache_Get (store t) j = (if same_instance i j then None else Cache_Get (store s) j)"
  using assms
  by (auto simp: Instance_Reconcile_def run_simps Let_def cache_simps split: sum.split)

definition ex_deleted_instance :: Instance where
  "ex_deleted_instance = ex_instance\<lparr>Instance_ObjectMeta := (ex_meta ''ci'')\<lparr>DeletionTimestamp := Some 1, ResourceVersion := ''7''\<rparr>\<rparr>"

definition ex_instance_gone :: "ex_client env" where
  "ex_instance_gone = ex_env\<lparr>k8s := ex_k8s\<lparr>Get_Instance := (\<lambda>_ _. Inr ex_deleted_instance)\<rparr>\<rparr>"

theorem instance_deletion_evicts_witness:
  "Cache_Get (store (snd (run_state (Instance_Reconcile ex_instance_gone ex_req) (ex_cached op_init [])))) ex_instance = None"
  using instance_deletion_evicts [of ex_instance_gone "ex_cached op_init []" ex_req ex_deleted_instance ex_instance, OF _ _ _ _ _ refl]
  by (simp add: ex_instance_gone_def ex_deleted_instance_def instanceFinalizer_def ex_finalizers_def valid_meta_def
      same_instance_def)

end
