(* ===== verification/Team_Controller.thy ===== *)
theory Team_Controller
  imports Example_Env
begin

section \<open>The team controller (team_controller.go)\<close>

text \<open>
  \<open>TeamReconciler\<close> of \<open>internal/controller/team_controller.go\<close>: the finalizer protocol, the
  translation of role bindings into \<open>atc.TeamAuth\<close>, and creating or updating the team.
  \<open>Team_apply\<close> is the part of \<open>Reconcile\<close> that follows the finalizer protocol.
\<close>

definition teamFinalizer :: string where
  "teamFinalizer = ''concourse-ci.org/team-finalizer''"

text \<open>
  Reading a missing entry of a Go map gives the nil slice, and \<open>append\<close> to it makes a new one.
  \<open>add_role\<close> is the body of the loop over the role bindings.
\<close>

definition map_get :: "(string \<rightharpoonup> string list) \<Rightarrow> string \<Rightarrow> string list" where
  "map_get m k = (case m k of None \<Rightarrow> [] | Some v \<Rightarrow> v)"

definition add_role :: "(string \<rightharpoonup> (string \<rightharpoonup> string list)) \<Rightarrow> TeamRole \<Rightarrow> (string \<rightharpoonup> (string \<rightharpoonup> string list))" where
  "add_role auth role =
     (let m = (case auth (TeamRole_Role role) of None \<Rightarrow> Map.empty | Some m \<Rightarrow> m);
          m = m(''users'' \<mapsto> map_get m ''users'' @ TeamRole_Users role);
          m = m(''groups'' \<mapsto> map_get m ''groups'' @ TeamRole_Groups role)
      in auth(TeamRole_Role role \<mapsto> m))"

definition buildTeamAuth :: "TeamRole list \<Rightarrow> atc_TeamAuth" where
  "buildTeamAuth roles =
     (if length roles = 0 then None else Some (foldl add_role Map.empty roles))"

definition deleteTeam :: "'cl env \<Rightarrow> Team \<Rightarrow> ('cl, go_error option) op" where
  "deleteTeam E team = do {
     c \<leftarrow> resolveInstanceForTeam E team;
     case c of
       Inl err \<Rightarrow> State_Monad.return (Some err)
     | Inr cl \<Rightarrow>
         (let teamName = TeamSpec_TeamName (Team_Spec team);
              teamName = (if teamName = '''' then Name (Team_ObjectMeta team) else teamName)
          in ask (TDestroyTeam cl teamName teamName) (\<lambda>n. Team_DestroyTeam (atc E) n cl teamName teamName))
   }"

text \<open>The two exits that report a failure and try again in half a minute.\<close>

definition Team_not_ready :: "'cl env \<Rightarrow> Team \<Rightarrow> string \<Rightarrow> go_error \<Rightarrow> ('cl, reconcile_result) op" where
  "Team_not_ready E team reason err = do {
     cs \<leftarrow> setCondition E (TeamStatus_Conditions (Team_Status team)) ConditionReady ConditionFalse reason (Error err);
     let team = team\<lparr>Team_Status := (Team_Status team)\<lparr>TeamStatus_Conditions := cs\<rparr>\<rparr>;
     _ \<leftarrow> ask (KStatusUpdate (OTeam team)) (\<lambda>n. Status_Team (k8s E) n team);
     State_Monad.return (Requeue (30 * Second))
   }"

definition Team_applied ::
  "'cl env \<Rightarrow> Team \<Rightarrow> atc_Team \<Rightarrow> ConfigWarning list \<Rightarrow> ('cl, reconcile_result) op" where
  "Team_applied E team result warnings = do {
     now \<leftarrow> Now E;
     let st = (Team_Status team)
       \<lparr>TeamStatus_TeamID := atcTeam_ID result,
        TeamStatus_LastApplied := Some now,
        TeamStatus_ObservedGeneration := Generation (Team_ObjectMeta team)\<rparr>;
     cs \<leftarrow> (case map ConfigWarning_Message warnings of
             m # _ \<Rightarrow> setCondition E (TeamStatus_Conditions st) ConditionConfigWarning ConditionTrue ''HasWarnings''
                       (Itoa (int (length warnings)) @ '' warning(s): '' @ m)
           | [] \<Rightarrow> setCondition E (TeamStatus_Conditions st) ConditionConfigWarning ConditionFalse ''NoWarnings'' '''');
     cs \<leftarrow> setCondition E cs ConditionReady ConditionTrue ''Ready'' '''';
     let team = team\<lparr>Team_Status := st\<lparr>TeamStatus_Conditions := cs\<rparr>\<rparr>;
     u \<leftarrow> ask (KStatusUpdate (OTeam team)) (\<lambda>n. Status_Team (k8s E) n team);
     case u of
       Inl err \<Rightarrow> State_Monad.return (Failed (Wrapf ''update status'' err))
     | Inr _ \<Rightarrow> State_Monad.return (Requeue (5 * Minute))
   }"

definition Team_apply :: "'cl env \<Rightarrow> Team \<Rightarrow> ('cl, reconcile_result) op" where
  "Team_apply E team = do {
     c \<leftarrow> resolveInstanceForTeam E team;
     case c of
       Inl err \<Rightarrow> Team_not_ready E team ''InstanceNotReady'' err
     | Inr cl \<Rightarrow> do {
         let teamName = TeamSpec_TeamName (Team_Spec team);
         let teamName = (if teamName = '''' then Name (Team_ObjectMeta team) else teamName);
         let auth = buildTeamAuth (TeamSpec_Roles (Team_Spec team));
         let atcTeam = \<lparr>atcTeam_ID = 0, atcTeam_Name = teamName, atcTeam_Auth = auth\<rparr>;
         w \<leftarrow> ask (TCreateOrUpdate cl teamName atcTeam)
                (\<lambda>n. Team_CreateOrUpdate (atc E) n cl teamName atcTeam);
         case w of
           Inl err \<Rightarrow> Team_not_ready E team ''CreateOrUpdateFailed'' err
         | Inr (result, warnings) \<Rightarrow> Team_applied E team result warnings
       }
   }"

definition Team_Reconcile :: "'cl env \<Rightarrow> ObjectKey \<Rightarrow> ('cl, reconcile_result) op" where
  "Team_Reconcile E req = do {
     r \<leftarrow> ask (KGet KTeam req) (\<lambda>n. Get_Team (k8s E) n req);
     case r of
       Inl err \<Rightarrow> State_Monad.return (Result0, IgnoreNotFound (lib E) err)
     | Inr team \<Rightarrow>
         if \<not> IsZero (lib E) (DeletionTimestamp (Team_ObjectMeta team)) then
           (if ContainsFinalizer (lib E) (Team_ObjectMeta team) teamFinalizer then do {
              _ \<leftarrow> deleteTeam E team;
              let team = team\<lparr>Team_ObjectMeta := RemoveFinalizer (lib E) (Team_ObjectMeta team) teamFinalizer\<rparr>;
              u \<leftarrow> ask (KUpdate (OTeam team)) (\<lambda>n. Update_Team (k8s E) n team);
              case u of
                Inl err \<Rightarrow> State_Monad.return (Failed (Wrapf ''remove finalizer'' err))
              | Inr _ \<Rightarrow> State_Monad.return Done
            }
            else State_Monad.return Done)
         else do {
           f \<leftarrow> (if \<not> ContainsFinalizer (lib E) (Team_ObjectMeta team) teamFinalizer then
                 (let team = team\<lparr>Team_ObjectMeta := AddFinalizer (lib E) (Team_ObjectMeta team) teamFinalizer\<rparr>
                  in ask (KUpdate (OTeam team)) (\<lambda>n. Update_Team (k8s E) n team))
                else State_Monad.return (Inr team));
           case f of
             Inl err \<Rightarrow> State_Monad.return (Failed (Wrapf ''add finalizer'' err))
           | Inr team \<Rightarrow> Team_apply E team
         }
   }"

subsection \<open>Interface\<close>

interpretation tr: passive_reconciler E KTeam "Team_Reconcile E" for E :: "'cl env"
proof
  fix req :: ObjectKey
  note defs = Team_Reconcile_def Team_apply_def deleteTeam_def Team_not_ready_def Team_applied_def
  show "reads_first KTeam req (Team_Reconcile E req)"
    unfolding defs by (intro reads_firstI appends_rules) simp_all
  show "state_io_rel (keeps goroutines) (Team_Reconcile E req)"
    unfolding defs by (intro goroutine_rules) simp_all
  assume "valid_names E"
  then show "state_io_rel (preserves (cache_ok E)) (Team_Reconcile E req)"
    unfolding defs by (intro cache_rules) (simp_all)
qed

subsection \<open>Role bindings\<close>

text \<open>All users, or all groups, that the bindings of one role name, in the order of the spec.\<close>

definition bound :: "(TeamRole \<Rightarrow> string list) \<Rightarrow> TeamRole list \<Rightarrow> string \<Rightarrow> string list" where
  "bound sel roles r = concat (map sel (filter (\<lambda>b. TeamRole_Role b = r) roles))"

definition role_map :: "string list \<Rightarrow> string list \<Rightarrow> (string \<rightharpoonup> string list)" where
  "role_map us gs = [''users'' \<mapsto> us, ''groups'' \<mapsto> gs]"

lemma add_role_new:
  "add_role auth b (TeamRole_Role b) =
     (case auth (TeamRole_Role b) of
        None \<Rightarrow> Some (role_map (TeamRole_Users b) (TeamRole_Groups b))
      | Some m \<Rightarrow> Some (m(''users'' \<mapsto> map_get m ''users'' @ TeamRole_Users b,
                        ''groups'' \<mapsto> map_get m ''groups'' @ TeamRole_Groups b)))"
  by (simp add: add_role_def map_get_def role_map_def Let_def split: option.split)

lemma role_map_extend:
  "(role_map us gs)(''users'' \<mapsto> map_get (role_map us gs) ''users'' @ us',
                    ''groups'' \<mapsto> map_get (role_map us gs) ''groups'' @ gs') =
   role_map (us @ us') (gs @ gs')"
  by (auto simp: role_map_def map_get_def fun_eq_iff)

lemma add_role_other: "r \<noteq> TeamRole_Role b \<Longrightarrow> add_role auth b r = auth r"
  by (simp add: add_role_def Let_def)

text \<open>The loop adds, to what a role had before, what the remaining bindings of that role list.\<close>

lemma foldl_add_role:
  assumes "auth r = (if old then Some (role_map us gs) else None)" and "\<not> old \<Longrightarrow> us = [] \<and> gs = []"
  shows "foldl add_role auth roles r =
    (if old \<or> r \<in> TeamRole_Role ` set roles
     then Some (role_map (us @ bound TeamRole_Users roles r) (gs @ bound TeamRole_Groups roles r))
     else None)"
  using assms
proof (induction roles arbitrary: auth us gs old)
  case Nil
  then show ?case by (simp add: bound_def)
next
  case (Cons b roles)
  show ?case
  proof (cases "TeamRole_Role b = r")
    case True
    then have "add_role auth b r = (if True then Some (role_map (us @ TeamRole_Users b) (gs @ TeamRole_Groups b)) else None)"
      using Cons.prems add_role_new [of auth b] by (auto simp: role_map_extend)
    from Cons.IH [where old = True and auth = "add_role auth b", OF this] True show ?thesis by (simp add: bound_def)
  next
    case False
    then have "add_role auth b r = (if old then Some (role_map us gs) else None)"
      using Cons.prems(1) by (simp add: add_role_other)
    from Cons.IH [where old = old and auth = "add_role auth b", OF this] Cons.prems(2) False show ?thesis by (auto simp: bound_def)
  qed
qed

text \<open>
  C22: the authorisation sent to Concourse is exactly what the spec binds: no auth at all for an empty
  list of bindings, and otherwise one entry per role that occurs, holding under \<open>users\<close> and \<open>groups\<close>
  the concatenation, in order, of what all bindings of that role list; bindings of one role that are
  spread over the list are merged and none is lost.
\<close>

theorem buildTeamAuth_merges_roles:
  "buildTeamAuth roles =
     (if roles = [] then None
      else Some (\<lambda>r. if r \<in> TeamRole_Role ` set roles
                then Some [''users'' \<mapsto> bound TeamRole_Users roles r, ''groups'' \<mapsto> bound TeamRole_Groups roles r]
                else None))"
  using foldl_add_role [of Map.empty _ False "[]" "[]" roles]
  by (auto simp: buildTeamAuth_def role_map_def fun_eq_iff)

subsection \<open>Reconciliation\<close>

definition teamName_of :: "Team \<Rightarrow> string" where
  "teamName_of team = default_name (TeamSpec_TeamName (Team_Spec team)) (Team_ObjectMeta team)"

text \<open>The team the operator asks Concourse for.\<close>

definition wanted_team :: "Team \<Rightarrow> atc_Team" where
  "wanted_team team = \<lparr>atcTeam_ID = 0, atcTeam_Name = teamName_of team,
     atcTeam_Auth = buildTeamAuth (TeamSpec_Roles (Team_Spec team))\<rparr>"

lemma run_Team_apply_unresolved:
  "run_state (resolveInstanceForTeam E team) s = (Inl err, u) \<Longrightarrow>
   run_state (Team_apply E team) s = run_state (Team_not_ready E team ''InstanceNotReady'' err) u"
  by (simp add: Team_apply_def)

lemma run_Team_apply_resolved:
  "run_state (resolveInstanceForTeam E team) s = (Inr cl, u) \<Longrightarrow>
   run_state (Team_apply E team) s =
     (let v = u\<lparr>trace := trace u @ [TCreateOrUpdate cl (teamName_of team) (wanted_team team)]\<rparr> in
      case Team_CreateOrUpdate (atc E) (length (trace u)) cl (teamName_of team) (wanted_team team) of
        Inl err \<Rightarrow> run_state (Team_not_ready E team ''CreateOrUpdateFailed'' err) v
      | Inr (result, warnings) \<Rightarrow> run_state (Team_applied E team result warnings) v)"
  by (simp add: Team_apply_def run_simps Let_def teamName_of_def wanted_team_def default_name_def
      split: sum.splits prod.splits)

lemma run_Team_Reconcile_live:
  "Get_Team (k8s E) (length (trace s)) req = Inr team \<Longrightarrow>
   IsZero (lib E) (DeletionTimestamp (Team_ObjectMeta team)) \<Longrightarrow>
   ContainsFinalizer (lib E) (Team_ObjectMeta team) teamFinalizer \<Longrightarrow>
   run_state (Team_Reconcile E req) s =
     run_state (Team_apply E team) (s\<lparr>trace := trace s @ [KGet KTeam req]\<rparr>)"
  by (simp add: Team_Reconcile_def run_simps)

lemma run_Team_not_ready [run_simps]:
  "run_state (Team_not_ready E team reason err) s =
     (let cs = set_cond (lib E) (clock E (length (trace s))) (TeamStatus_Conditions (Team_Status team))
                 ConditionReady ConditionFalse reason (Error err);
          team' = team\<lparr>Team_Status := (Team_Status team)\<lparr>TeamStatus_Conditions := cs\<rparr>\<rparr>
      in (Requeue (30 * Second), s\<lparr>trace := trace s @ [Clock, KStatusUpdate (OTeam team')]\<rparr>))"
  by (simp add: Team_not_ready_def run_simps Let_def)

text \<open>
  When the instance cannot be resolved, the team reconciler sends one status whose Ready condition
  is False with reason \<open>InstanceNotReady\<close> and the resolver's error as its message, asks to be run again
  in 30 seconds, and issues no call to Concourse.
\<close>

lemma team_waits_for_instance:
  assumes cond: "condition_laws (lib E)"
    and get: "Get_Team (k8s E) (length (trace s)) req = Inr team"
    and live: "IsZero (lib E) (DeletionTimestamp (Team_ObjectMeta team))"
    and fin: "ContainsFinalizer (lib E) (Team_ObjectMeta team) teamFinalizer"
    and fails: "run_state (resolveInstanceForTeam E team) (s\<lparr>trace := trace s @ [KGet KTeam req]\<rparr>) = (Inl err, u)"
  shows "\<exists>team' cs. run_state (Team_Reconcile E req) s =
      (Requeue (30 * Second), u\<lparr>trace := trace u @ [Clock, KStatusUpdate (OTeam team')]\<rparr>) \<and>
    reports (TeamStatus_Conditions (Team_Status team')) ConditionReady ConditionFalse ''InstanceNotReady'' (Error err) \<and>
    trace u = trace s @ KGet KTeam req # cs \<and> list_all k8s_read cs"
proof -
  from emits_run [OF emits_resolveInstanceForTeam fails] obtain cs
    where "trace u = trace s @ KGet KTeam req # cs" "list_all k8s_read cs"
    by (auto simp: emits_def)
  moreover have "reports (set_cond (lib E) now cs' ConditionReady ConditionFalse r m) ConditionReady ConditionFalse r m"
    for now cs' r m using cond by (simp add: reports_set_cond)
  ultimately show ?thesis
    unfolding run_Team_Reconcile_live [OF get live fin] run_Team_apply_unresolved [OF fails] run_Team_not_ready Let_def
    by (intro exI conjI) (rule refl | simp)+
qed

text \<open>
  C26: when Concourse accepts the team, the status the reconciler sends records the team's id, the time
  and the generation that was applied, has Ready True, and has ConfigWarning True exactly when Concourse
  returned warnings; the next run is in five minutes, or the error is returned if the status update
  failed. The team sent is the wanted one, under the spec's name or else the object's.
\<close>

theorem team_applied_status:
  assumes cond: "condition_laws (lib E)"
    and get: "Get_Team (k8s E) (length (trace s)) req = Inr team"
    and live: "IsZero (lib E) (DeletionTimestamp (Team_ObjectMeta team))"
    and fin: "ContainsFinalizer (lib E) (Team_ObjectMeta team) teamFinalizer"
    and resolved: "run_state (resolveInstanceForTeam E team) (s\<lparr>trace := trace s @ [KGet KTeam req]\<rparr>) = (Inr cl, u)"
    and accepted: "Team_CreateOrUpdate (atc E) (length (trace u)) cl (teamName_of team) (wanted_team team) =
      Inr (result, warnings)"
  shows "\<exists>team' r. run_state (Team_Reconcile E req) s = (r, u\<lparr>trace := trace u @
      [TCreateOrUpdate cl (teamName_of team) (wanted_team team), Clock, Clock, Clock, KStatusUpdate (OTeam team')]\<rparr>) \<and>
    Team_Spec team' = Team_Spec team \<and>
    TeamStatus_TeamID (Team_Status team') = atcTeam_ID result \<and>
    TeamStatus_LastApplied (Team_Status team') = Some (clock E (Suc (length (trace u)))) \<and>
    TeamStatus_ObservedGeneration (Team_Status team') = Generation (Team_ObjectMeta team) \<and>
    isReady E (TeamStatus_Conditions (Team_Status team')) \<and>
    (IsStatusConditionTrue (lib E) (TeamStatus_Conditions (Team_Status team')) ConditionConfigWarning \<longleftrightarrow> warnings \<noteq> []) \<and>
    (r = Requeue (5 * Minute) \<or> (\<exists>e. r = Failed (Wrapf ''update status'' e)))"
  unfolding run_Team_Reconcile_live [OF get live fin] run_Team_apply_resolved [OF resolved]
  using cond accepted
  by (cases warnings) (auto simp: Team_applied_def run_simps laws Let_def split: sum.split)

lemma ex_team_created [simp]:
  "Team_CreateOrUpdate ex_atc n cl nm t = Inr (t\<lparr>atcTeam_ID := 5\<rparr>, [])"
  by (simp add: ex_atc_def)

theorem team_applied_status_witness:
  "\<exists>team' r. run_state (Team_Reconcile ex_env ex_req) op_init = (r, (ex_cached op_init [])
      \<lparr>trace := [KGet KTeam ex_req, ex_get KInstance ''ci'', ex_get KSecret ''cred'',
         TCreateOrUpdate ex_cl ''developers'' (wanted_team ex_team), Clock, Clock, Clock, KStatusUpdate (OTeam team')]\<rparr>) \<and>
    TeamStatus_TeamID (Team_Status team') = 5 \<and> isReady ex_env (TeamStatus_Conditions (Team_Status team'))"
  using team_applied_status [of ex_env op_init ex_req ex_team ex_cl
      "ex_cached (op_init\<lparr>trace := [KGet KTeam ex_req]\<rparr>) [ex_get KInstance ''ci'', ex_get KSecret ''cred'']"
      "(wanted_team ex_team)\<lparr>atcTeam_ID := 5\<rparr>" "[]"]
  by (simp add: teamFinalizer_def ex_finalizers_def teamName_of_def default_name_def ex_cached_def) blast

text \<open>
  C21: deleting a team: with the finalizer present, the reconciler resolves the team's instance to a client;
  if it gets one, it asks Concourse to destroy the team under its name, giving that name as the confirmation,
  once; and then it sends the object without the finalizer whatever came of that (an unreachable instance or a
  refusal does not keep the object). The request is done if the update succeeds and fails otherwise.
  Destroying is the only thing it asks of Concourse.
\<close>

theorem team_deletion:
  assumes get: "Get_Team (k8s E) (length (trace s)) req = Inr team"
    and deleted: "\<not> IsZero (lib E) (DeletionTimestamp (Team_ObjectMeta team))"
    and fin: "ContainsFinalizer (lib E) (Team_ObjectMeta team) teamFinalizer"
    and resolved: "run_state (resolveInstanceForTeam E team) (s\<lparr>trace := trace s @ [KGet KTeam req]\<rparr>) = (c, u)"
    and name: "name = (if TeamSpec_TeamName (Team_Spec team) = '''' then Name (Team_ObjectMeta team)
                       else TeamSpec_TeamName (Team_Spec team))"
    and destroy: "destroy = (case c of Inl err \<Rightarrow> [] | Inr cl \<Rightarrow> [TDestroyTeam cl name name])"
    and team': "team' = team\<lparr>Team_ObjectMeta := RemoveFinalizer (lib E) (Team_ObjectMeta team) teamFinalizer\<rparr>"
  shows "run_state (Team_Reconcile E req) s =
      (case Update_Team (k8s E) (length (trace u) + length destroy) team' of
         Inl err \<Rightarrow> Failed (Wrapf ''remove finalizer'' err) | Inr _ \<Rightarrow> Done,
       u\<lparr>trace := trace u @ destroy @ [KUpdate (OTeam team')]\<rparr>) \<and>
    filter concourse_call (calls (Team_Reconcile E req) s) = destroy"
proof
  show run: "run_state (Team_Reconcile E req) s =
      (case Update_Team (k8s E) (length (trace u) + length destroy) team' of
         Inl err \<Rightarrow> Failed (Wrapf ''remove finalizer'' err) | Inr _ \<Rightarrow> Done,
       u\<lparr>trace := trace u @ destroy @ [KUpdate (OTeam team')]\<rparr>)"
    using get deleted fin resolved
    by (cases c) (simp_all add: team' name destroy Team_Reconcile_def deleteTeam_def run_simps Let_def split: sum.split)
  have "state_io_rel (emits (\<lambda>c. \<not> concourse_call c)) (resolveInstanceForTeam E team)"
    by (intro emits_resolvers_if) simp_all
  from emits_run [OF this resolved] obtain cs where
    "trace u = trace s @ KGet KTeam req # cs" "list_all (\<lambda>c. \<not> concourse_call c) cs" by (auto simp: emits_def)
  moreover from this have "filter concourse_call cs = []" by (simp add: filter_empty_conv list_all_iff)
  moreover have "filter concourse_call destroy = destroy" by (simp add: destroy split: sum.split)
  ultimately show "filter concourse_call (calls (Team_Reconcile E req) s) = destroy"
    using run by (simp add: calls_def)
qed

definition ex_deleted_team :: Team where
  "ex_deleted_team = ex_team\<lparr>Team_ObjectMeta := (ex_meta ''dev'')\<lparr>DeletionTimestamp := Some 1\<rparr>\<rparr>"

definition ex_team_gone :: "ex_client env" where
  "ex_team_gone = ex_env\<lparr>k8s := ex_k8s\<lparr>Get_Team := (\<lambda>_ _. Inr ex_deleted_team)\<rparr>,
     atc := ex_atc\<lparr>Team_DestroyTeam := (\<lambda>_ _ _ _. Some (Errorf ''refused''))\<rparr>\<rparr>"

theorem team_deletion_witness:
  "fst (run_state (Team_Reconcile ex_team_gone ex_req) op_init) = Done \<and>
   filter concourse_call (calls (Team_Reconcile ex_team_gone ex_req) op_init) =
     [TDestroyTeam ex_cl ''developers'' ''developers'']"
  using team_deletion [of ex_team_gone op_init ex_req ex_deleted_team "Inr ex_cl"
      "ex_cached op_init [KGet KTeam ex_req, ex_get KInstance ''ci'', ex_get KSecret ''cred'']", OF _ _ _ _ refl refl refl]
  by (simp add: ex_team_gone_def ex_deleted_team_def teamFinalizer_def ex_finalizers_def ex_cached_def)

text \<open>A status that does not claim the team is Ready, as a predicate on calls.\<close>

fun team_status_unready :: "'cl env \<Rightarrow> 'cl call \<Rightarrow> bool" where
  "team_status_unready E (KStatusUpdate (OTeam t)) = (\<not> isReady E (TeamStatus_Conditions (Team_Status t)))"
| "team_status_unready E _ = True"

text \<open>
  A team is never reported Ready on the operator's own say: as long as Concourse refuses every
  \<open>CreateOrUpdate\<close>, no status the team reconciler sends has Ready True, whatever the cluster answers.
\<close>

lemma team_ready_needs_concourse:
  assumes cond: "condition_laws (lib E)"
    and refuses: "\<And>n cl nm t. \<exists>e. Team_CreateOrUpdate (atc E) n cl nm t = Inl e"
  shows "\<forall>c \<in> set (calls (Team_Reconcile E req) s). team_status_unready E c"
proof -
  have unready: "state_io_rel (emits (team_status_unready E)) (Team_not_ready E team reason err)" for team reason err
    unfolding Team_not_ready_def
    by (intro em.effect_rules emits_setCondition emits_ask) (simp_all add: not_ready_setCondition [OF cond])
  have refused: False if "Inr x \<in> set_state (ask c (\<lambda>n. Team_CreateOrUpdate (atc E) n cl nm t))" for x c cl nm t
    using set_state_ask [OF that] refuses by (metis Inl_Inr_False)
  have "state_io_rel (emits (team_status_unready E)) (Team_Reconcile E req)"
    unfolding Team_Reconcile_def Team_apply_def deleteTeam_def
    by (intro em.effect_rules emits_resolvers_if emits_ask unready) (auto dest: refused)
  then show ?thesis by (blast intro: emits_calls)
qed

end
