(* ===== verification/Sha256.thy ===== *)
theory Sha256
  imports Prelude "HOL-Library.Word"
begin

section \<open>SHA-256\<close>

text \<open>
  The part of Go's standard library behind \<open>fmt.Sprintf("%x", sha256.Sum256(b))\<close>: the digest of
  FIPS 180-4 on 32-bit words and its lower-case hexadecimal text. The pipeline controller compares
  such texts to decide whether a configuration has to be uploaded again. A string is its list of
  bytes.
\<close>

unbundle bit_operations_syntax

type_synonym w32 = "32 word"

definition sha_K :: "w32 list" where
  "sha_K = [
    1116352408, 1899447441, 3049323471, 3921009573, 961987163, 1508970993, 2453635748, 2870763221,
     3624381080, 310598401, 607225278, 1426881987, 1925078388, 2162078206, 2614888103, 3248222580,
     3835390401, 4022224774, 264347078, 604807628, 770255983, 1249150122, 1555081692, 1996064986,
     2554220882, 2821834349, 2952996808, 3210313671, 3336571891, 3584528711, 113926993, 338241895,
     666307205, 773529912, 1294757372, 1396182291, 1695183700, 1986661051, 2177026350, 2456956037,
     2730485921, 2820302411, 3259730800, 3345764771, 3516065817, 3600352804, 4094571909, 275423344,
     430227734, 506948616, 659060556, 883997877, 958139571, 1322822218, 1537002063, 1747873779,
     1955562222, 2024104815, 2227730452, 2361852424, 2428436474, 2756734187, 3204031479, 3329325298]"

definition sha_H0 :: "w32 list" where
  "sha_H0 = [
    1779033703, 3144134277, 1013904242, 2773480762, 1359893119, 2600822924, 528734635, 1541459225]"

definition rotr :: "nat \<Rightarrow> w32 \<Rightarrow> w32" where
  "rotr n x = drop_bit n x OR push_bit (32 - n) x"

definition sigma0 :: "w32 \<Rightarrow> w32" where "sigma0 x = rotr 7 x XOR rotr 18 x XOR drop_bit 3 x"
definition sigma1 :: "w32 \<Rightarrow> w32" where "sigma1 x = rotr 17 x XOR rotr 19 x XOR drop_bit 10 x"
definition Sigma0 :: "w32 \<Rightarrow> w32" where "Sigma0 x = rotr 2 x XOR rotr 13 x XOR rotr 22 x"
definition Sigma1 :: "w32 \<Rightarrow> w32" where "Sigma1 x = rotr 6 x XOR rotr 11 x XOR rotr 25 x"
definition Ch :: "w32 \<Rightarrow> w32 \<Rightarrow> w32 \<Rightarrow> w32" where "Ch x y z = (x AND y) XOR (NOT x AND z)"
definition Maj :: "w32 \<Rightarrow> w32 \<Rightarrow> w32 \<Rightarrow> w32" where "Maj x y z = (x AND y) XOR (x AND z) XOR (y AND z)"

text \<open>The message schedule, newest word first.\<close>

fun sha_extend :: "nat \<Rightarrow> w32 list \<Rightarrow> w32 list" where
  "sha_extend 0 r = r"
| "sha_extend (Suc n) r = sha_extend n ((sigma1 (r ! 1) + r ! 6 + sigma0 (r ! 14) + r ! 15) # r)"

definition sha_schedule :: "w32 list \<Rightarrow> w32 list" where
  "sha_schedule block = rev (sha_extend 48 (rev block))"

fun sha_round :: "w32 list \<Rightarrow> w32 \<times> w32 \<Rightarrow> w32 list" where
  "sha_round [a, b, c, d, e, f, g, h] (k, w) =
     (let t1 = h + Sigma1 e + Ch e f g + k + w; t2 = Sigma0 a + Maj a b c
      in [t1 + t2, a, b, c, d + t1, e, f, g])"
| "sha_round _ _ = []"

definition sha_compress :: "w32 list \<Rightarrow> w32 list \<Rightarrow> w32 list" where
  "sha_compress H block = map2 (+) H (foldl sha_round H (zip sha_K (sha_schedule block)))"

text \<open>Padding to whole blocks of 64 bytes, and the blocks as 16 big-endian words each.\<close>

definition be_bytes :: "nat \<Rightarrow> nat \<Rightarrow> nat list" where
  "be_bytes k n = map (\<lambda>i. n div 256 ^ (k - 1 - i) mod 256) [0..<k]"

definition sha_pad :: "nat list \<Rightarrow> nat list" where
  "sha_pad m = m @ [128] @ replicate ((119 - length m mod 64) mod 64) 0 @ be_bytes 8 (8 * length m)"

fun be_words :: "nat list \<Rightarrow> w32 list" where
  "be_words (a # b # c # d # r) = of_nat (16777216 * a + 65536 * b + 256 * c + d) # be_words r"
| "be_words _ = []"

fun sha_blocks :: "w32 list \<Rightarrow> w32 list list" where
  "sha_blocks ws = (if ws = [] then [] else take 16 ws # sha_blocks (drop 16 ws))"

declare sha_blocks.simps [simp del]

definition Sum256 :: "string \<Rightarrow> w32 list" where
  "Sum256 b = foldl sha_compress sha_H0 (sha_blocks (be_words (sha_pad (map of_char b))))"

definition hex_digit :: "nat \<Rightarrow> char" where
  "hex_digit d = (if d < 10 then char_of (48 + d) else char_of (87 + d))"

definition hex_word :: "w32 \<Rightarrow> string" where
  "hex_word w = map (\<lambda>i. hex_digit (unat w div 16 ^ (7 - i) mod 16)) [0..<8]"

definition sha256_hex :: "string \<Rightarrow> string" where
  "sha256_hex b = concat (map hex_word (Sum256 b))"

subsection \<open>Shape of the digest\<close>

lemma length_sha_round: "length H = 8 \<Longrightarrow> length (sha_round H kw) = 8"
  by (cases "(H, kw)" rule: sha_round.cases) (auto simp: Let_def)

lemma length_sha_rounds: "length H = 8 \<Longrightarrow> length (foldl sha_round H kws) = 8"
  by (induction kws arbitrary: H) (simp_all add: length_sha_round)

lemma length_sha_compress: "length H = 8 \<Longrightarrow> length (sha_compress H b) = 8"
  by (simp add: sha_compress_def length_sha_rounds)

lemma length_Sum256: "length (Sum256 b) = 8"
proof -
  have "length (foldl sha_compress H bs) = 8" if "length H = 8" for H bs
    using that by (induction bs arbitrary: H) (simp_all add: length_sha_compress)
  then show ?thesis by (simp add: Sum256_def sha_H0_def)
qed

lemma length_concat_const: "(\<forall>x \<in> set xs. length x = n) \<Longrightarrow> length (concat xs) = n * length xs"
  by (induction xs) auto

lemma length_sha256_hex: "length (sha256_hex b) = 64"
  using length_concat_const [of "map hex_word (Sum256 b)" 8]
  by (simp add: sha256_hex_def length_Sum256 hex_word_def)

lemma length_sha_pad: "length (sha_pad m) mod 64 = 0"
proof -
  define r where "r = length m mod 64"
  have len: "length (sha_pad m) = length m + 9 + (119 - r) mod 64"
    by (simp add: sha_pad_def be_bytes_def r_def)
  have "(r + 9 + (119 - r) mod 64) mod 64 = 0"
  proof (cases "r \<le> 55")
    case True
    then have "(119 - r) mod 64 = 55 - r" by (simp add: mod_if)
    with True show ?thesis by simp
  next
    case False
    moreover have "r < 64" by (simp add: r_def)
    ultimately have "(119 - r) mod 64 = 119 - r" by simp
    with \<open>r < 64\<close> show ?thesis by simp
  qed
  then show ?thesis
    unfolding len r_def by (metis mod_add_left_eq)
qed

subsection \<open>A test vector\<close>

text \<open>The digest of \<open>abc\<close> given with the standard, evaluated in three stages.\<close>

lemma sha_extend_numeral:
  "sha_extend (numeral k) r =
     sha_extend (pred_numeral k) ((sigma1 (r ! 1) + r ! 6 + sigma0 (r ! 14) + r ! 15) # r)"
  by (simp add: numeral_eq_Suc)

lemma replicate_numeral_Cons: "replicate (numeral k) x = x # replicate (pred_numeral k) x"
  by (simp add: numeral_eq_Suc)

lemma be_words_abc:
  "be_words (sha_pad (map of_char ''abc'')) = 0x61626380 # replicate 14 0 @ [24]"
proof -
  have upt8: "[0..<8] = [0, 1, 2, 3, 4, 5, 6, 7::nat]" by (simp add: upt_rec)
  have "sha_pad (map of_char ''abc'') = [97, 98, 99, 128] @ replicate 52 0 @ [0, 0, 0, 0, 0, 0, 0, 24]"
    by (simp add: sha_pad_def be_bytes_def upt8)
  then show ?thesis by (simp add: replicate_numeral_Cons)
qed

lemma sha_schedule_abc:
  "sha_schedule [0x61626380, 0, 0, 0, 0, 0, 0, 0, 0, 0, 0, 0, 0, 0, 0, 24] =
   [0x61626380, 0x00000000, 0x00000000, 0x00000000, 0x00000000, 0x00000000, 0x00000000, 0x00000000,
     0x00000000, 0x00000000, 0x00000000, 0x00000000, 0x00000000, 0x00000000, 0x00000000, 0x00000018,
     0x61626380, 0x000f0000, 0x7da86405, 0x600003c6, 0x3e9d7b78, 0x0183fc00, 0x12dcbfdb, 0xe2e2c38e,
     0xc8215c1a, 0xb73679a2, 0xe5bc3909, 0x32663c5b, 0x9d209d67, 0xec8726cb, 0x702138a4, 0xd3b7973b,
     0x93f5997f, 0x3b68ba73, 0xaff4ffc1, 0xf10a5c62, 0x0a8b3996, 0x72af830a, 0x9409e33e, 0x24641522,
     0x9f47bf94, 0xf0a64f5a, 0x3e246a79, 0x27333ba3, 0x0c4763f2, 0x840abf27, 0x7a290d5d, 0x065c43da,
     0xfb3e89cb, 0xcc7617db, 0xb9e66c34, 0xa9993667, 0x84badedd, 0xc21462bc, 0x1487472c, 0xb20f7a99,
     0xef57b9cd, 0xebe6b238, 0x9fe3095e, 0x78bc8d4b, 0xa43fcf15, 0x668b2ff8, 0xeeaba2cc, 0x12b1edeb]"
  by (simp add: sha_schedule_def sigma0_def sigma1_def rotr_def sha_extend_numeral)

lemma sha_rounds_abc:
  "foldl sha_round sha_H0 (zip sha_K (sha_schedule [0x61626380, 0, 0, 0, 0, 0, 0, 0, 0, 0, 0, 0, 0, 0, 0, 24])) =
   [0x506e3058, 0xd39a2165, 0x04d24d6c, 0xb85e2ce9, 0x5ef50f24, 0xfb121210, 0x948d25b6, 0x961f4894]"
  unfolding sha_schedule_abc by code_simp

lemma Sum256_abc:
  "Sum256 ''abc'' = [0xba7816bf, 0x8f01cfea, 0x414140de, 0x5dae2223, 0xb00361a3, 0x96177a9c, 0xb410ff61, 0xf20015ad]"
proof -
  have "sha_blocks (0x61626380 # replicate 14 0 @ [24]) = [[0x61626380, 0, 0, 0, 0, 0, 0, 0, 0, 0, 0, 0, 0, 0, 0, 24]]"
    by (simp add: sha_blocks.simps [of "_ # _"] sha_blocks.simps [of "[]"] replicate_numeral_Cons)
  then show ?thesis
    unfolding Sum256_def be_words_abc
    by (simp add: sha_compress_def sha_rounds_abc) (simp add: sha_H0_def)
qed

lemma sha256_hex_abc:
  "sha256_hex ''abc'' = ''ba7816bf8f01cfea414140de5dae2223b00361a396177a9cb410ff61f20015ad''"
proof -
  have upt8: "[0..<8] = [0, 1, 2, 3, 4, 5, 6, 7::nat]" by (simp add: upt_rec)
  have "map of_char (sha256_hex ''abc'') =
    (map of_char ''ba7816bf8f01cfea414140de5dae2223b00361a396177a9cb410ff61f20015ad'' :: nat list)"
    by (simp add: sha256_hex_def Sum256_abc hex_word_def upt8 hex_digit_def)
  then show ?thesis by (rule map_injective [OF _ inj_of_char])
qed

end
