(* ===== verification/Pipeline_Controller.thy ===== *)
theory Pipeline_Controller
  imports Example_Env Sha256
begin

section \<open>The pipeline controller (pipeline_controller.go)\<close>

text \<open>
  \<open>PipelineReconciler\<close> of \<open>internal/controller/pipeline_controller.go\<close>: loading the
  configuration, uploading it when its hash changed, and synchronising the pause and expose state.
  The part of \<open>Reconcile\<close> after the finalizer protocol is split at the source's own comments.
\<close>

definition pipelineFinalizer :: string where
  "pipelineFinalizer = ''concourse-ci.org/pipeline-finalizer''"

definition loadPipelineConfig :: "'cl env \<Rightarrow> Pipeline \<Rightarrow> ('cl, string go_result) op" where
  "loadPipelineConfig E pipeline =
     (let cfg = PipelineSpec_Config (Pipeline_Spec pipeline) in
      if PipelineConfig_Inline cfg \<noteq> '''' then State_Monad.return (Inr (PipelineConfig_Inline cfg))
      else case PipelineConfig_ConfigMapRef cfg of
        Some ref \<Rightarrow> do {
          let key = \<lparr>key_Namespace = Namespace (Pipeline_ObjectMeta pipeline), key_Name = ConfigMapKeyRef_Name ref\<rparr>;
          r \<leftarrow> ask (KGet KConfigMap key) (\<lambda>n. Get_ConfigMap (k8s E) n key);
          case r of
            Inl err \<Rightarrow> State_Monad.return (Inl (Wrapf (''get configmap '' @ ConfigMapKeyRef_Name ref) err))
          | Inr data \<Rightarrow>
              (case data (ConfigMapKeyRef_Key ref) of
                 None \<Rightarrow> State_Monad.return (Inl (Errorf (''key '' @ Quote (lib E) (ConfigMapKeyRef_Key ref) @
                          '' not found in configmap '' @ ConfigMapKeyRef_Name ref)))
               | Some val \<Rightarrow> State_Monad.return (Inr val))
        }
      | None \<Rightarrow> State_Monad.return (Inl (Errorf ''pipeline config must specify either inline or configMapRef'')))"

definition deletePipeline :: "'cl env \<Rightarrow> Pipeline \<Rightarrow> ('cl, go_error option) op" where
  "deletePipeline E pipeline = do {
     c \<leftarrow> resolveClientForPipeline E pipeline;
     case c of
       Inl err \<Rightarrow> State_Monad.return (Some err)
     | Inr (cl, teamName) \<Rightarrow>
         (let pipelineName = PipelineSpec_PipelineName (Pipeline_Spec pipeline);
              pipelineName = (if pipelineName = '''' then Name (Pipeline_ObjectMeta pipeline) else pipelineName);
              ref = \<lparr>PipelineRef_Name = pipelineName\<rparr>
          in ask (TDeletePipeline cl teamName ref) (\<lambda>n. Team_DeletePipeline (atc E) n cl teamName ref))
   }"

subsection \<open>The stages of Reconcile\<close>

definition Pipeline_not_ready :: "'cl env \<Rightarrow> Pipeline \<Rightarrow> string \<Rightarrow> go_error \<Rightarrow> ('cl, reconcile_result) op" where
  "Pipeline_not_ready E pipeline reason err = do {
     cs \<leftarrow> setCondition E (PipelineStatus_Conditions (Pipeline_Status pipeline)) ConditionReady ConditionFalse
             reason (Error err);
     let pipeline = pipeline\<lparr>Pipeline_Status := (Pipeline_Status pipeline)\<lparr>PipelineStatus_Conditions := cs\<rparr>\<rparr>;
     _ \<leftarrow> ask (KStatusUpdate (OPipeline pipeline)) (\<lambda>n. Status_Pipeline (k8s E) n pipeline);
     State_Monad.return (Requeue (30 * Second))
   }"

text \<open>Uploading the configuration: \<open>Inl\<close> the error of the upload, \<open>Inr\<close> the status to go on with.\<close>

definition needs_upload :: "PipelineStatus \<Rightarrow> string \<Rightarrow> bool" where
  "needs_upload st newHash \<longleftrightarrow> PipelineStatus_ConfigHash st \<noteq> newHash \<or> PipelineStatus_PipelineID st = 0"

definition applyConfig ::
  "'cl env \<Rightarrow> 'cl \<Rightarrow> string \<Rightarrow> string \<Rightarrow> string \<Rightarrow> PipelineStatus \<Rightarrow> ('cl, PipelineStatus go_result) op" where
  "applyConfig E cl teamName pipelineName yamlBytes st =
     (let newHash = sha256_hex yamlBytes in
      if needs_upload st newHash then do {
        let pipelineRef = \<lparr>PipelineRef_Name = pipelineName\<rparr>;
        r \<leftarrow> ask (TCreateOrUpdatePipelineConfig cl teamName pipelineRef '''' yamlBytes False)
               (\<lambda>n. Team_CreateOrUpdatePipelineConfig (atc E) n cl teamName pipelineRef '''' yamlBytes False);
        case r of
          Inl err \<Rightarrow> State_Monad.return (Inl err)
        | Inr warnings \<Rightarrow> do {
            cs \<leftarrow> (case warnings of
                    w # _ \<Rightarrow> setCondition E (PipelineStatus_Conditions st) ConditionConfigWarning ConditionTrue
                              ''HasWarnings''
                              (Itoa (int (length warnings)) @ '' warning(s): '' @ ConfigWarning_Message w)
                  | [] \<Rightarrow> setCondition E (PipelineStatus_Conditions st) ConditionConfigWarning ConditionFalse
                           ''NoWarnings'' '''');
            cs \<leftarrow> setCondition E cs ConditionConfigSynced ConditionTrue ''Synced'' '''';
            State_Monad.return (Inr (st\<lparr>PipelineStatus_Conditions := cs, PipelineStatus_ConfigHash := newHash\<rparr>))
          }
      }
      else State_Monad.return (Inr st))"

definition Pipeline_upload_failed :: "'cl env \<Rightarrow> Pipeline \<Rightarrow> go_error \<Rightarrow> ('cl, reconcile_result) op" where
  "Pipeline_upload_failed E pipeline err = do {
     cs \<leftarrow> setCondition E (PipelineStatus_Conditions (Pipeline_Status pipeline)) ConditionConfigSynced
             ConditionFalse ''SetPipelineFailed'' (Error err);
     cs \<leftarrow> setCondition E cs ConditionReady ConditionFalse ''SetPipelineFailed'' (Error err);
     let pipeline = pipeline\<lparr>Pipeline_Status := (Pipeline_Status pipeline)\<lparr>PipelineStatus_Conditions := cs\<rparr>\<rparr>;
     _ \<leftarrow> ask (KStatusUpdate (OPipeline pipeline)) (\<lambda>n. Status_Pipeline (k8s E) n pipeline);
     State_Monad.return (Requeue (30 * Second))
   }"

definition syncPause ::
  "'cl env \<Rightarrow> 'cl \<Rightarrow> string \<Rightarrow> atc_PipelineRef \<Rightarrow> bool \<Rightarrow> PipelineStatus \<Rightarrow> ('cl, PipelineStatus) op" where
  "syncPause E cl teamName ref paused st =
     (if paused then do {
        e \<leftarrow> ask (TPausePipeline cl teamName ref) (\<lambda>n. Team_PausePipeline (atc E) n cl teamName ref);
        case e of
          Some err \<Rightarrow> State_Monad.return st
        | None \<Rightarrow> State_Monad.return (st\<lparr>PipelineStatus_Paused := True\<rparr>)
      }
      else do {
        e \<leftarrow> ask (TUnpausePipeline cl teamName ref) (\<lambda>n. Team_UnpausePipeline (atc E) n cl teamName ref);
        case e of
          Some err \<Rightarrow> State_Monad.return st
        | None \<Rightarrow> State_Monad.return (st\<lparr>PipelineStatus_Paused := False\<rparr>)
      })"

definition syncExpose ::
  "'cl env \<Rightarrow> 'cl \<Rightarrow> string \<Rightarrow> atc_PipelineRef \<Rightarrow> bool \<Rightarrow> PipelineStatus \<Rightarrow> ('cl, PipelineStatus) op" where
  "syncExpose E cl teamName ref exposed st =
     (if exposed then do {
        e \<leftarrow> ask (TExposePipeline cl teamName ref) (\<lambda>n. Team_ExposePipeline (atc E) n cl teamName ref);
        case e of
          Some err \<Rightarrow> State_Monad.return st
        | None \<Rightarrow> State_Monad.return (st\<lparr>PipelineStatus_Exposed := True\<rparr>)
      }
      else do {
        e \<leftarrow> ask (THidePipeline cl teamName ref) (\<lambda>n. Team_HidePipeline (atc E) n cl teamName ref);
        case e of
          Some err \<Rightarrow> State_Monad.return st
        | None \<Rightarrow> State_Monad.return (st\<lparr>PipelineStatus_Exposed := False\<rparr>)
      })"

definition fetchMetadata ::
  "'cl env \<Rightarrow> 'cl \<Rightarrow> string \<Rightarrow> atc_PipelineRef \<Rightarrow> PipelineStatus \<Rightarrow> ('cl, PipelineStatus) op" where
  "fetchMetadata E cl teamName ref st = do {
     r \<leftarrow> ask (TPipeline cl teamName ref) (\<lambda>n. Team_Pipeline (atc E) n cl teamName ref);
     case r of
       Inl err \<Rightarrow> State_Monad.return st
     | Inr (atcPipeline, found) \<Rightarrow>
         if found then
           (let st = st\<lparr>PipelineStatus_PipelineID := atcPipeline_ID atcPipeline,
                        PipelineStatus_GroupCount := int (length (atcPipeline_Groups atcPipeline))\<rparr>
            in State_Monad.return
                 (if atcPipeline_LastUpdated atcPipeline > 0
                  then st\<lparr>PipelineStatus_LastUpdated := Some (Unix (atcPipeline_LastUpdated atcPipeline))\<rparr>
                  else st))
         else State_Monad.return st
   }"

definition Pipeline_sync ::
  "'cl env \<Rightarrow> 'cl \<Rightarrow> string \<Rightarrow> string \<Rightarrow> string \<Rightarrow> Pipeline \<Rightarrow> ('cl, reconcile_result) op" where
  "Pipeline_sync E cl teamName pipelineName yamlBytes pipeline = do {
     a \<leftarrow> applyConfig E cl teamName pipelineName yamlBytes (Pipeline_Status pipeline);
     case a of
       Inl err \<Rightarrow> Pipeline_upload_failed E pipeline err
     | Inr st \<Rightarrow> do {
         let ref = \<lparr>PipelineRef_Name = pipelineName\<rparr>;
         st \<leftarrow> syncPause E cl teamName ref (PipelineSpec_Paused (Pipeline_Spec pipeline)) st;
         st \<leftarrow> syncExpose E cl teamName ref (PipelineSpec_Exposed (Pipeline_Spec pipeline)) st;
         st \<leftarrow> fetchMetadata E cl teamName ref st;
         let st = st\<lparr>PipelineStatus_ObservedGeneration := Generation (Pipeline_ObjectMeta pipeline)\<rparr>;
         cs \<leftarrow> setCondition E (PipelineStatus_Conditions st) ConditionReady ConditionTrue ''Ready'' '''';
         let pipeline = pipeline\<lparr>Pipeline_Status := st\<lparr>PipelineStatus_Conditions := cs\<rparr>\<rparr>;
         u \<leftarrow> ask (KStatusUpdate (OPipeline pipeline)) (\<lambda>n. Status_Pipeline (k8s E) n pipeline);
         case u of
           Inl err \<Rightarrow> State_Monad.return (Failed (Wrapf ''update status'' err))
         | Inr _ \<Rightarrow> State_Monad.return (Requeue (5 * Minute))
       }
   }"

definition Pipeline_apply :: "'cl env \<Rightarrow> Pipeline \<Rightarrow> ('cl, reconcile_result) op" where
  "Pipeline_apply E pipeline = do {
     c \<leftarrow> resolveClientForPipeline E pipeline;
     case c of
       Inl err \<Rightarrow> Pipeline_not_ready E pipeline ''TeamNotReady'' err
     | Inr (cl, teamName) \<Rightarrow> do {
         let pipelineName = PipelineSpec_PipelineName (Pipeline_Spec pipeline);
         let pipelineName = (if pipelineName = '''' then Name (Pipeline_ObjectMeta pipeline) else pipelineName);
         y \<leftarrow> loadPipelineConfig E pipeline;
         case y of
           Inl err \<Rightarrow> Pipeline_not_ready E pipeline ''ConfigLoadFailed'' err
         | Inr yamlBytes \<Rightarrow> Pipeline_sync E cl teamName pipelineName yamlBytes pipeline
       }
   }"

definition Pipeline_Reconcile :: "'cl env \<Rightarrow> ObjectKey \<Rightarrow> ('cl, reconcile_result) op" where
  "Pipeline_Reconcile E req = do {
     r \<leftarrow> ask (KGet KPipeline req) (\<lambda>n. Get_Pipeline (k8s E) n req);
     case r of
       Inl err \<Rightarrow> State_Monad.return (Result0, IgnoreNotFound (lib E) err)
     | Inr pipeline \<Rightarrow>
         if \<not> IsZero (lib E) (DeletionTimestamp (Pipeline_ObjectMeta pipeline)) then
           (if ContainsFinalizer (lib E) (Pipeline_ObjectMeta pipeline) pipelineFinalizer then do {
              _ \<leftarrow> deletePipeline E pipeline;
              let pipeline = pipeline\<lparr>Pipeline_ObjectMeta :=
                    RemoveFinalizer (lib E) (Pipeline_ObjectMeta pipeline) pipelineFinalizer\<rparr>;
              u \<leftarrow> ask (KUpdate (OPipeline pipeline)) (\<lambda>n. Update_Pipeline (k8s E) n pipeline);
              case u of
                Inl err \<Rightarrow> State_Monad.return (Failed (Wrapf ''remove finalizer'' err))
              | Inr _ \<Rightarrow> State_Monad.return Done
            }
            else State_Monad.return Done)
         else do {
           f \<leftarrow> (if \<not> ContainsFinalizer (lib E) (Pipeline_ObjectMeta pipeline) pipelineFinalizer then
                 (let pipeline = pipeline\<lparr>Pipeline_ObjectMeta :=
                        AddFinalizer (lib E) (Pipeline_ObjectMeta pipeline) pipelineFinalizer\<rparr>
                  in ask (KUpdate (OPipeline pipeline)) (\<lambda>n. Update_Pipeline (k8s E) n pipeline))
                else State_Monad.return (Inr pipeline));
           case f of
             Inl err \<Rightarrow> State_Monad.return (Failed (Wrapf ''add finalizer'' err))
           | Inr pipeline \<Rightarrow> Pipeline_apply E pipeline
         }
   }"

subsection \<open>Interface\<close>

interpretation pl: passive_reconciler E KPipeline "Pipeline_Reconcile E" for E :: "'cl env"
proof
  fix req :: ObjectKey
  note defs = Pipeline_Reconcile_def Pipeline_apply_def deletePipeline_def loadPipelineConfig_def Pipeline_not_ready_def
    Pipeline_sync_def applyConfig_def Pipeline_upload_failed_def syncPause_def syncExpose_def fetchMetadata_def
  show "reads_first KPipeline req (Pipeline_Reconcile E req)"
    unfolding defs by (intro reads_firstI appends_rules) simp_all
  show "state_io_rel (keeps goroutines) (Pipeline_Reconcile E req)"
    unfolding defs by (intro goroutine_rules) simp_all
  assume "valid_names E"
  then show "state_io_rel (preserves (cache_ok E)) (Pipeline_Reconcile E req)"
    unfolding defs by (intro cache_rules) (simp_all)
qed

subsection \<open>Uploading the configuration\<close>

fun is_upload :: "'cl call \<Rightarrow> bool" where
  "is_upload (TCreateOrUpdatePipelineConfig cl t r v c b) = True"
| "is_upload _ = False"

text \<open>Everything after the upload leaves the recorded hash alone and uploads nothing.\<close>

lemma later_stages_no_upload:
  shows "state_io_rel (emits (\<lambda>c. \<not> is_upload c)) (syncPause E cl t ref b st)"
    and "state_io_rel (emits (\<lambda>c. \<not> is_upload c)) (syncExpose E cl t ref b st)"
    and "state_io_rel (emits (\<lambda>c. \<not> is_upload c)) (fetchMetadata E cl t ref st)"
    and "state_io_rel (emits (\<lambda>c. \<not> is_upload c)) (Pipeline_upload_failed E p err)"
  unfolding syncPause_def syncExpose_def fetchMetadata_def Pipeline_upload_failed_def
     apply (intro em.effect_rules emits_ask; simp)
    apply (intro em.effect_rules emits_ask; simp)
   apply (intro em.effect_rules emits_ask; simp)
  apply (intro em.effect_rules emits_ask emits_setCondition; simp)
  done

lemma calls_applyConfig:
  "filter is_upload (calls (applyConfig E cl tn pn y st) s) =
     (if needs_upload st (sha256_hex y)
      then [TCreateOrUpdatePipelineConfig cl tn \<lparr>PipelineRef_Name = pn\<rparr> '''' y False] else [])"
proof (cases "needs_upload st (sha256_hex y)")
  case True
  then show ?thesis
    unfolding applyConfig_def Let_def
    by simp (subst filter_calls_ask_first, intro em.effect_rules emits_setCondition; simp)
next
  case False
  then show ?thesis by (simp add: applyConfig_def)
qed

lemma appends_applyConfig: "appends (applyConfig E cl tn pn y st)"
  unfolding applyConfig_def by (intro appends_rules; simp)

lemma upload_calls:
  "filter is_upload (calls (Pipeline_sync E cl tn pn y p) s) =
   filter is_upload (calls (applyConfig E cl tn pn y (Pipeline_Status p)) s)"
  unfolding Pipeline_sync_def
  by (rule filter_calls_first [OF appends_applyConfig])
     (intro em.effect_rules later_stages_no_upload emits_setCondition emits_ask; simp)

text \<open>
  C25: a reconciliation uploads the pipeline's configuration exactly when it has to: if the SHA-256 of
  the configuration is the recorded one and a pipeline id is known, it is not sent at all; if either fails, it is
  sent once, under the pipeline's name and without a version to check against.
\<close>

theorem upload_iff_needed:
  "filter is_upload (calls (Pipeline_sync E cl tn pn y p) s) =
     (if PipelineStatus_ConfigHash (Pipeline_Status p) = sha256_hex y \<and> PipelineStatus_PipelineID (Pipeline_Status p) \<noteq> 0
      then [] else [TCreateOrUpdatePipelineConfig cl tn \<lparr>PipelineRef_Name = pn\<rparr> '''' y False])"
  by (simp add: upload_calls calls_applyConfig needs_upload_def)

text \<open>What the stages leave of the recorded hash and the pipeline id.\<close>

lemma hash_applyConfig:
  assumes "Inr st' \<in> set_state (applyConfig E cl tn pn y st)"
  shows "PipelineStatus_ConfigHash st' = sha256_hex y"
proof -
  have "returns (\<lambda>r. \<forall>st'. r = Inr st' \<longrightarrow> PipelineStatus_ConfigHash st' = sha256_hex y) (applyConfig E cl tn pn y st)"
    unfolding applyConfig_def by (intro returns_rules) (auto simp: needs_upload_def)
  from returns_set_state [OF this assms] show ?thesis by simp
qed

lemma hash_syncPause:
  assumes "st' \<in> set_state (syncPause E cl t ref b st)"
  shows "PipelineStatus_ConfigHash st' = PipelineStatus_ConfigHash st"
proof -
  have "returns (\<lambda>st'. PipelineStatus_ConfigHash st' = PipelineStatus_ConfigHash st) (syncPause E cl t ref b st)"
    unfolding syncPause_def by (intro returns_rules) simp_all
  from returns_set_state [OF this assms] show ?thesis .
qed

lemma hash_syncExpose:
  assumes "st' \<in> set_state (syncExpose E cl t ref b st)"
  shows "PipelineStatus_ConfigHash st' = PipelineStatus_ConfigHash st"
proof -
  have "returns (\<lambda>st'. PipelineStatus_ConfigHash st' = PipelineStatus_ConfigHash st) (syncExpose E cl t ref b st)"
    unfolding syncExpose_def by (intro returns_rules) simp_all
  from returns_set_state [OF this assms] show ?thesis .
qed

lemma record_applyConfig:
  assumes "run_state (applyConfig E cl tn pn y st) s = (Inr st', u)"
  shows "PipelineStatus_ConfigHash st' = sha256_hex y \<and> PipelineStatus_PipelineID st' = PipelineStatus_PipelineID st"
proof -
  have "returns (\<lambda>r. \<forall>st'. r = Inr st' \<longrightarrow> PipelineStatus_PipelineID st' = PipelineStatus_PipelineID st) (applyConfig E cl tn pn y st)"
    unfolding applyConfig_def by (intro returns_rules) auto
  from returns_set_state [OF this, of "Inr st'"] assms hash_applyConfig [of st' E cl tn pn y st]
  show ?thesis by (auto simp: set_state_iff)
qed

subsection \<open>Pause, expose and metadata\<close>

fun is_toggle :: "'cl call \<Rightarrow> bool" where
  "is_toggle (TPausePipeline cl t r) = True"
| "is_toggle (TUnpausePipeline cl t r) = True"
| "is_toggle (TExposePipeline cl t r) = True"
| "is_toggle (THidePipeline cl t r) = True"
| "is_toggle _ = False"

definition pause_call :: "'cl \<Rightarrow> string \<Rightarrow> atc_PipelineRef \<Rightarrow> bool \<Rightarrow> 'cl call" where
  "pause_call cl t r b = (if b then TPausePipeline cl t r else TUnpausePipeline cl t r)"

definition expose_call :: "'cl \<Rightarrow> string \<Rightarrow> atc_PipelineRef \<Rightarrow> bool \<Rightarrow> 'cl call" where
  "expose_call cl t r b = (if b then TExposePipeline cl t r else THidePipeline cl t r)"

lemma run_syncPause:
  "run_state (syncPause E cl t ref b st) s =
     (if (if b then Team_PausePipeline (atc E) else Team_UnpausePipeline (atc E)) (length (trace s)) cl t ref = None
      then st\<lparr>PipelineStatus_Paused := b\<rparr> else st,
      s\<lparr>trace := trace s @ [pause_call cl t ref b]\<rparr>)"
  by (auto simp: syncPause_def pause_call_def run_simps split: option.split)

lemma run_syncExpose:
  "run_state (syncExpose E cl t ref b st) s =
     (if (if b then Team_ExposePipeline (atc E) else Team_HidePipeline (atc E)) (length (trace s)) cl t ref = None
      then st\<lparr>PipelineStatus_Exposed := b\<rparr> else st,
      s\<lparr>trace := trace s @ [expose_call cl t ref b]\<rparr>)"
  by (auto simp: syncExpose_def expose_call_def run_simps split: option.split)

lemma run_fetchMetadata:
  "\<exists>st'. run_state (fetchMetadata E cl t ref st) s = (st', s\<lparr>trace := trace s @ [TPipeline cl t ref]\<rparr>) \<and>
     PipelineStatus_Paused st' = PipelineStatus_Paused st \<and> PipelineStatus_Exposed st' = PipelineStatus_Exposed st \<and>
     PipelineStatus_ConfigHash st' = PipelineStatus_ConfigHash st \<and>
     PipelineStatus_PipelineID st' = (case Team_Pipeline (atc E) (length (trace s)) cl t ref of
       Inr (a, True) \<Rightarrow> atcPipeline_ID a | _ \<Rightarrow> PipelineStatus_PipelineID st)"
  by (auto simp: fetchMetadata_def run_simps Let_def split: sum.splits prod.splits bool.splits if_splits)

text \<open>A reconciliation whose upload was not refused ends with one status; what it shows, stage by stage.\<close>

lemma run_Pipeline_sync:
  assumes "run_state (applyConfig E cl tn pn y (Pipeline_Status p)) s = (Inr st, u)"
    and ref: "ref = \<lparr>PipelineRef_Name = pn\<rparr>"
    and paused: "paused = PipelineSpec_Paused (Pipeline_Spec p)"
    and exposed: "exposed = PipelineSpec_Exposed (Pipeline_Spec p)"
  obtains p' r where
    "run_state (Pipeline_sync E cl tn pn y p) s = (r, u\<lparr>trace := trace u @
      [pause_call cl tn ref paused, expose_call cl tn ref exposed, TPipeline cl tn ref, Clock, KStatusUpdate (OPipeline p')]\<rparr>)"
    "PipelineStatus_Paused (Pipeline_Status p') =
      (if (if paused then Team_PausePipeline (atc E) else Team_UnpausePipeline (atc E)) (length (trace u)) cl tn ref = None
       then paused else PipelineStatus_Paused st)"
    "PipelineStatus_Exposed (Pipeline_Status p') =
      (if (if exposed then Team_ExposePipeline (atc E) else Team_HidePipeline (atc E)) (Suc (length (trace u))) cl tn ref = None
       then exposed else PipelineStatus_Exposed st)"
    "PipelineStatus_ConfigHash (Pipeline_Status p') = PipelineStatus_ConfigHash st"
    "PipelineStatus_PipelineID (Pipeline_Status p') = (case Team_Pipeline (atc E) (length (trace u) + 2) cl tn ref of
       Inr (a, True) \<Rightarrow> atcPipeline_ID a | _ \<Rightarrow> PipelineStatus_PipelineID st)"
    "r = Requeue (5 * Minute) \<or> (\<exists>e. r = Failed (Wrapf ''update status'' e))"
proof -
  define st1 where "st1 = fst (run_state (syncPause E cl tn ref paused st) u)"
  define u1 where "u1 = u\<lparr>trace := trace u @ [pause_call cl tn ref paused]\<rparr>"
  define st2 where "st2 = fst (run_state (syncExpose E cl tn ref exposed st1) u1)"
  define u2 where "u2 = u1\<lparr>trace := trace u1 @ [expose_call cl tn ref exposed]\<rparr>"
  have r1: "run_state (syncPause E cl tn ref paused st) u = (st1, u1)"
    by (simp add: st1_def u1_def run_syncPause)
  have r2: "run_state (syncExpose E cl tn ref exposed st1) u1 = (st2, u2)"
    by (simp add: st2_def u2_def run_syncExpose)
  define u3 where "u3 = u2\<lparr>trace := trace u2 @ [TPipeline cl tn ref]\<rparr>"
  obtain st3 where r3: "run_state (fetchMetadata E cl tn ref st2) u2 = (st3, u3)"
    and st3: "PipelineStatus_Paused st3 = PipelineStatus_Paused st2" "PipelineStatus_Exposed st3 = PipelineStatus_Exposed st2"
      "PipelineStatus_ConfigHash st3 = PipelineStatus_ConfigHash st2"
      "PipelineStatus_PipelineID st3 = (case Team_Pipeline (atc E) (length (trace u2)) cl tn ref of
         Inr (a, True) \<Rightarrow> atcPipeline_ID a | _ \<Rightarrow> PipelineStatus_PipelineID st2)"
    using run_fetchMetadata [of E cl tn ref st2 u2, folded u3_def] by blast
  define p' where "p' = p\<lparr>Pipeline_Status := st3
    \<lparr>PipelineStatus_ObservedGeneration := Generation (Pipeline_ObjectMeta p),
     PipelineStatus_Conditions := set_cond (lib E) (clock E (length (trace u3))) (PipelineStatus_Conditions st3)
       ConditionReady ConditionTrue ''Ready'' ''''\<rparr>\<rparr>"
  define r where "r = (case Status_Pipeline (k8s E) (Suc (length (trace u3))) p' of
    Inl err \<Rightarrow> Failed (Wrapf ''update status'' err) | Inr _ \<Rightarrow> Requeue (5 * Minute))"
  have run: "run_state (Pipeline_sync E cl tn pn y p) s = (r, u3\<lparr>trace := trace u3 @ [Clock, KStatusUpdate (OPipeline p')]\<rparr>)"
    by (simp add: Pipeline_sync_def assms(1) ref [symmetric] paused [symmetric] exposed [symmetric] r1 r2
        r3 run_simps Let_def p'_def r_def split: sum.split)
  show thesis
  proof (rule that [of r p'], goal_cases)
    case 1
    show ?case by (subst run) (simp add: u1_def u2_def u3_def)
  next
    case 2
    show ?case by (simp add: p'_def st3) (simp add: st2_def run_syncExpose st1_def run_syncPause)
  next
    case 3
    show ?case by (simp add: p'_def st3) (simp add: st1_def st2_def u1_def run_syncPause run_syncExpose)
  next
    case 4
    show ?case by (simp add: p'_def st3) (simp add: st1_def st2_def run_syncPause run_syncExpose)
  next
    case 5
    have "PipelineStatus_PipelineID st2 = PipelineStatus_PipelineID st" "length (trace u2) = length (trace u) + 2"
      by (simp_all add: st1_def st2_def u1_def u2_def run_syncPause run_syncExpose)
    then show ?case by (simp add: p'_def st3 cong: sum.case_cong bool.case_cong)
  next
    case 6
    show ?case by (simp add: r_def split: sum.split)
  qed
qed

text \<open>
  C34: once the configuration is in place, every reconciliation asks Concourse for the pause state and
  then for the visibility the spec wants, reads the pipeline's metadata and sends one status; the status
  shows the spec's value for each of the two that Concourse confirmed and keeps the old value where the
  call failed. A failed call neither stops the other nor fails the reconciliation.
\<close>

theorem toggles_follow_spec:
  assumes "run_state (applyConfig E cl tn pn y (Pipeline_Status p)) s = (Inr st, u)"
    and ref: "ref = \<lparr>PipelineRef_Name = pn\<rparr>"
    and paused: "paused = PipelineSpec_Paused (Pipeline_Spec p)"
    and exposed: "exposed = PipelineSpec_Exposed (Pipeline_Spec p)"
  shows "\<exists>p' r. run_state (Pipeline_sync E cl tn pn y p) s = (r, u\<lparr>trace := trace u @
      [pause_call cl tn ref paused, expose_call cl tn ref exposed, TPipeline cl tn ref, Clock, KStatusUpdate (OPipeline p')]\<rparr>) \<and>
    PipelineStatus_Paused (Pipeline_Status p') =
      (if (if paused then Team_PausePipeline (atc E) else Team_UnpausePipeline (atc E)) (length (trace u)) cl tn ref = None
       then paused else PipelineStatus_Paused st) \<and>
    PipelineStatus_Exposed (Pipeline_Status p') =
      (if (if exposed then Team_ExposePipeline (atc E) else Team_HidePipeline (atc E)) (Suc (length (trace u))) cl tn ref = None
       then exposed else PipelineStatus_Exposed st) \<and>
    (r = Requeue (5 * Minute) \<or> (\<exists>e. r = Failed (Wrapf ''update status'' e)))"
  by (rule run_Pipeline_sync [OF assms]) blast


lemma ex_pipeline_answers [simp]:
  "Team_CreateOrUpdatePipelineConfig ex_atc n cl tn ref v y b = Inr []"
  "Team_UnpausePipeline ex_atc n cl tn ref = None" "Team_ExposePipeline ex_atc n cl tn ref = None"
  "Team_Pipeline ex_atc n cl tn ref =
     Inr (\<lparr>atcPipeline_ID = 11, atcPipeline_Groups = [''all''], atcPipeline_LastUpdated = 100\<rparr>, True)"
  "PipelineSpec_Paused (Pipeline_Spec ex_pipeline) = False" "PipelineSpec_Exposed (Pipeline_Spec ex_pipeline) = True"
  "PipelineStatus_PipelineID (Pipeline_Status ex_pipeline) = 0"
  by (simp_all add: ex_atc_def ex_pipeline_def)

definition ex_pause_refused :: "ex_client env" where
  "ex_pause_refused = ex_env\<lparr>atc := ex_atc\<lparr>Team_UnpausePipeline := (\<lambda>_ _ _ _. Some (Errorf ''forbidden''))\<rparr>\<rparr>"

definition ex_synced :: Pipeline where
  "ex_synced = ex_pipeline\<lparr>Pipeline_Status := (Pipeline_Status ex_pipeline)
     \<lparr>PipelineStatus_PipelineID := 11, PipelineStatus_ConfigHash := sha256_hex ''abc'', PipelineStatus_Paused := True\<rparr>\<rparr>"

theorem toggles_follow_spec_witness:
  "\<exists>p' r. run_state (Pipeline_sync ex_pause_refused ex_cl ''developers'' ''hello'' ''abc'' ex_synced) op_init =
      (r, op_init\<lparr>trace := [TUnpausePipeline ex_cl ''developers'' \<lparr>PipelineRef_Name = ''hello''\<rparr>,
         TExposePipeline ex_cl ''developers'' \<lparr>PipelineRef_Name = ''hello''\<rparr>,
         TPipeline ex_cl ''developers'' \<lparr>PipelineRef_Name = ''hello''\<rparr>, Clock, KStatusUpdate (OPipeline p')]\<rparr>) \<and>
     PipelineStatus_Paused (Pipeline_Status p') = True \<and> PipelineStatus_Exposed (Pipeline_Status p') = True"
  using toggles_follow_spec [of ex_pause_refused ex_cl "''developers''" "''hello''" "''abc''" ex_synced op_init
      "Pipeline_Status ex_synced" op_init, OF _ refl refl refl]
  by (simp add: applyConfig_def needs_upload_def ex_synced_def ex_pause_refused_def pause_call_def expose_call_def) blast

subsection \<open>Uploads come to rest\<close>

lemma applyConfig_sends_no_status:
  assumes "run_state (applyConfig E cl tn pn y st) s = (r, u)"
  shows "\<exists>cs. trace u = trace s @ cs \<and> (\<forall>x. KStatusUpdate x \<notin> set cs)"
proof -
  have "state_io_rel (emits (\<lambda>c. \<forall>x. c \<noteq> KStatusUpdate x)) (applyConfig E cl tn pn y st)"
    unfolding applyConfig_def by (intro em.effect_rules emits_setCondition emits_ask; simp)
  from emits_run [OF this assms] show ?thesis by (auto simp: emits_def list_all_iff)
qed

text \<open>A refused upload is followed by two readings of the clock and a status that is not Ready.\<close>

lemma upload_refused_not_ready:
  assumes cond: "condition_laws (lib E)"
    and refused: "run_state (applyConfig E cl tn pn y (Pipeline_Status p)) s = (Inl err, u)"
    and sent: "KStatusUpdate (OPipeline p') \<in> set (calls (Pipeline_sync E cl tn pn y p) s)"
  shows "\<not> isReady E (PipelineStatus_Conditions (Pipeline_Status p'))"
proof -
  from applyConfig_sends_no_status [OF refused] obtain cs where
    "trace u = trace s @ cs" "KStatusUpdate (OPipeline p') \<notin> set cs" by blast
  with sent refused cond show ?thesis
    by (auto simp: calls_def Pipeline_sync_def Pipeline_upload_failed_def run_simps laws Let_def)
qed

text \<open>
  C7: uploading converges: a status with Ready True that a reconciliation sends records the hash of the
  configuration it worked with, and the pipeline's id as Concourse gave it when asked for the pipeline in the
  same reconciliation (the id known before if it was not found or the request failed). So whatever is reconciled
  next with that object, in whatever state, uploads nothing if its configuration has the same hash, unless no
  id is recorded even now: then, and when the hash differs, exactly that configuration is uploaded, once.
\<close>

theorem upload_converges:
  assumes cond: "condition_laws (lib E)"
    and sent: "KStatusUpdate (OPipeline p') \<in> set (calls (Pipeline_sync E cl tn pn y p) s)"
    and ready: "isReady E (PipelineStatus_Conditions (Pipeline_Status p'))"
    and t: "t = snd (run_state (Pipeline_sync E cl tn pn y p) s)"
  shows "PipelineStatus_ConfigHash (Pipeline_Status p') = sha256_hex y \<and>
    (\<exists>n < length (trace t). length (trace s) \<le> n \<and> trace t ! n = TPipeline cl tn \<lparr>PipelineRef_Name = pn\<rparr> \<and>
       PipelineStatus_PipelineID (Pipeline_Status p') =
         (case Team_Pipeline (atc E) n cl tn \<lparr>PipelineRef_Name = pn\<rparr> of
            Inr (a, True) \<Rightarrow> atcPipeline_ID a | _ \<Rightarrow> PipelineStatus_PipelineID (Pipeline_Status p))) \<and>
    filter is_upload (calls (Pipeline_sync E' cl' tn' pn' y' p') s') =
      (if sha256_hex y' = sha256_hex y \<and> PipelineStatus_PipelineID (Pipeline_Status p') \<noteq> 0 then []
       else [TCreateOrUpdatePipelineConfig cl' tn' \<lparr>PipelineRef_Name = pn'\<rparr> '''' y' False])"
proof -
  let ?ref = "\<lparr>PipelineRef_Name = pn\<rparr>"
  obtain r u where run: "run_state (applyConfig E cl tn pn y (Pipeline_Status p)) s = (r, u)" by (meson prod.exhaust)
  with upload_refused_not_ready [OF cond _ sent] ready obtain st where
    applied: "run_state (applyConfig E cl tn pn y (Pipeline_Status p)) s = (Inr st, u)" by (cases r) auto
  obtain q res where tr: "run_state (Pipeline_sync E cl tn pn y p) s = (res, u\<lparr>trace := trace u @
      [pause_call cl tn ?ref (PipelineSpec_Paused (Pipeline_Spec p)), expose_call cl tn ?ref (PipelineSpec_Exposed (Pipeline_Spec p)),
       TPipeline cl tn ?ref, Clock, KStatusUpdate (OPipeline q)]\<rparr>)"
    and q: "PipelineStatus_ConfigHash (Pipeline_Status q) = PipelineStatus_ConfigHash st"
      "PipelineStatus_PipelineID (Pipeline_Status q) = (case Team_Pipeline (atc E) (length (trace u) + 2) cl tn ?ref of
          Inr (a, True) \<Rightarrow> atcPipeline_ID a | _ \<Rightarrow> PipelineStatus_PipelineID st)"
    by (rule run_Pipeline_sync [OF applied refl refl refl])
  from applyConfig_sends_no_status [OF applied] obtain cs where
    cs: "trace u = trace s @ cs" "KStatusUpdate (OPipeline p') \<notin> set cs" by blast
  with sent tr have "p' = q" by (auto simp: calls_def pause_call_def expose_call_def split: if_splits)
  with q(1) record_applyConfig [OF applied] have hash: "PipelineStatus_ConfigHash (Pipeline_Status p') = sha256_hex y" by simp
  define n where "n = length (trace u) + 2"
  have n: "n < length (trace t)" "length (trace s) \<le> n" "trace t ! n = TPipeline cl tn ?ref"
    by (simp_all add: t tr cs(1) n_def nth_append)
  have id: "PipelineStatus_PipelineID (Pipeline_Status p') = (case Team_Pipeline (atc E) n cl tn ?ref of
      Inr (a, True) \<Rightarrow> atcPipeline_ID a | _ \<Rightarrow> PipelineStatus_PipelineID (Pipeline_Status p))"
    using q(2) record_applyConfig [OF applied] \<open>p' = q\<close> by (simp add: n_def cong: sum.case_cong bool.case_cong)
  show ?thesis
  proof (intro conjI)
    show "\<exists>n < length (trace t). length (trace s) \<le> n \<and> trace t ! n = TPipeline cl tn ?ref \<and>
       PipelineStatus_PipelineID (Pipeline_Status p') = (case Team_Pipeline (atc E) n cl tn ?ref of
          Inr (a, True) \<Rightarrow> atcPipeline_ID a | _ \<Rightarrow> PipelineStatus_PipelineID (Pipeline_Status p))"
      using n id by blast
  qed (auto simp: hash upload_calls calls_applyConfig needs_upload_def)
qed

lemma ex_pipeline_synced:
  "\<exists>p'. KStatusUpdate (OPipeline p') \<in>
       set (calls (Pipeline_sync ex_env ex_cl ''developers'' ''hello'' ''abc'' ex_pipeline) op_init) \<and>
     isReady ex_env (PipelineStatus_Conditions (Pipeline_Status p'))"
  by (simp add: calls_def Pipeline_sync_def applyConfig_def needs_upload_def syncPause_def syncExpose_def
      fetchMetadata_def run_simps laws Let_def)

theorem upload_converges_witness:
  "\<exists>p'. KStatusUpdate (OPipeline p') \<in>
       set (calls (Pipeline_sync ex_env ex_cl ''developers'' ''hello'' ''abc'' ex_pipeline) op_init) \<and>
     PipelineStatus_PipelineID (Pipeline_Status p') = 11 \<and>
     filter is_upload (calls (Pipeline_sync ex_env ex_cl ''developers'' ''hello'' ''abc'' p') op_init) = []"
proof -
  from ex_pipeline_synced obtain p' where p': "KStatusUpdate (OPipeline p') \<in>
      set (calls (Pipeline_sync ex_env ex_cl ''developers'' ''hello'' ''abc'' ex_pipeline) op_init)"
    "isReady ex_env (PipelineStatus_Conditions (Pipeline_Status p'))" by blast
  from upload_converges [OF _ this refl, of ex_env ex_cl "''developers''" "''hello''" "''abc''" op_init] p'(1)
  show ?thesis by (intro exI [of _ p']) auto
qed

text \<open>
  C35: a refused upload stops the reconciliation before anything else is asked of Concourse, reports
  ConfigSynced and Ready False with the server's message, keeps the recorded hash so that the upload is
  tried again, and retries in 30 seconds.
\<close>

theorem upload_refused:
  assumes cond: "condition_laws (lib E)"
    and needed: "needs_upload (Pipeline_Status p) (sha256_hex y)"
    and refused: "Team_CreateOrUpdatePipelineConfig (atc E) (length (trace s)) cl tn \<lparr>PipelineRef_Name = pn\<rparr> '''' y False = Inl err"
  shows "\<exists>p'. run_state (Pipeline_sync E cl tn pn y p) s = (Requeue (30 * Second), s\<lparr>trace := trace s @
      [TCreateOrUpdatePipelineConfig cl tn \<lparr>PipelineRef_Name = pn\<rparr> '''' y False, Clock, Clock,
       KStatusUpdate (OPipeline p')]\<rparr>) \<and>
    PipelineStatus_ConfigHash (Pipeline_Status p') = PipelineStatus_ConfigHash (Pipeline_Status p) \<and>
    reports (PipelineStatus_Conditions (Pipeline_Status p')) ConditionConfigSynced ConditionFalse ''SetPipelineFailed'' (Error err) \<and>
    reports (PipelineStatus_Conditions (Pipeline_Status p')) ConditionReady ConditionFalse ''SetPipelineFailed'' (Error err)"
  using assms
  by (simp add: Pipeline_sync_def applyConfig_def Pipeline_upload_failed_def run_simps laws Let_def)

definition ex_upload_refused :: "ex_client env" where
  "ex_upload_refused = ex_env\<lparr>atc := ex_atc\<lparr>Team_CreateOrUpdatePipelineConfig :=
     (\<lambda>_ _ _ _ _ _ _. Inl (Errorf ''invalid pipeline config''))\<rparr>\<rparr>"

theorem upload_refused_witness:
  "\<exists>p'. run_state (Pipeline_sync ex_upload_refused ex_cl ''developers'' ''hello'' ''abc'' ex_pipeline) op_init =
      (Requeue (30 * Second), op_init\<lparr>trace :=
      [TCreateOrUpdatePipelineConfig ex_cl ''developers'' \<lparr>PipelineRef_Name = ''hello''\<rparr> '''' ''abc'' False, Clock, Clock,
       KStatusUpdate (OPipeline p')]\<rparr>) \<and>
    reports (PipelineStatus_Conditions (Pipeline_Status p')) ConditionReady ConditionFalse ''SetPipelineFailed''
      ''invalid pipeline config''"
  using upload_refused [of ex_upload_refused ex_pipeline "''abc''" op_init ex_cl "''developers''" "''hello''"
      "Errorf ''invalid pipeline config''"]
  by (auto simp: ex_upload_refused_def needs_upload_def)

subsection \<open>Variables\<close>

text \<open>
  The variables of a pipeline's spec reach Concourse in no way: with any other list of variables the
  same configuration is loaded, by the same reads, and the same uploads are made.
\<close>

lemma pipeline_vars_ignored:
  "loadPipelineConfig E (p\<lparr>Pipeline_Spec := (Pipeline_Spec p)\<lparr>PipelineSpec_Vars := vs\<rparr>\<rparr>) = loadPipelineConfig E p \<and>
   filter is_upload (calls (Pipeline_sync E cl tn pn y (p\<lparr>Pipeline_Spec := (Pipeline_Spec p)\<lparr>PipelineSpec_Vars := vs\<rparr>\<rparr>)) s) =
   filter is_upload (calls (Pipeline_sync E cl tn pn y p) s)"
  by (simp add: loadPipelineConfig_def upload_calls Let_def cong: option.case_cong)

lemma hex_digit_range: "d < 16 \<Longrightarrow> hex_digit d \<in> set ''0123456789abcdef''"
proof -
  have "\<forall>d \<in> set [0..<16]. hex_digit d \<in> set ''0123456789abcdef''" by code_simp
  then show "d < 16 \<Longrightarrow> hex_digit d \<in> set ''0123456789abcdef''" by (metis atLeastLessThan_iff set_upt zero_le)
qed

text \<open>
  The text compared to detect a changed configuration is 64 lower-case hexadecimal digits, and on
  the standard's first test message it is the digest the standard gives.
\<close>

lemma config_hash_text:
  "length (sha256_hex y) = 64 \<and> set (sha256_hex y) \<subseteq> set ''0123456789abcdef'' \<and>
   sha256_hex ''abc'' = ''ba7816bf8f01cfea414140de5dae2223b00361a396177a9cb410ff61f20015ad''"
proof (intro conjI length_sha256_hex sha256_hex_abc subsetI)
  fix c
  assume "c \<in> set (sha256_hex y)"
  then obtain n where "c = hex_digit (n mod 16)"
    by (auto simp: sha256_hex_def hex_word_def)
  then show "c \<in> set ''0123456789abcdef''" using hex_digit_range by simp
qed

subsection \<open>Deletion\<close>

text \<open>
  Deleting a pipeline: with the finalizer present the reconciler tries to delete the pipeline in
  Concourse and then sends the object without the finalizer whatever came of that; \<open>DeletePipeline\<close> for
  the pipeline's own name is the only thing it asks of Concourse.
\<close>

lemma pipeline_deletion:
  assumes get: "Get_Pipeline (k8s E) (length (trace s)) req = Inr p"
    and deleted: "\<not> IsZero (lib E) (DeletionTimestamp (Pipeline_ObjectMeta p))"
    and fin: "ContainsFinalizer (lib E) (Pipeline_ObjectMeta p) pipelineFinalizer"
    and destroy: "run_state (deletePipeline E p) (s\<lparr>trace := trace s @ [KGet KPipeline req]\<rparr>) = (e, u)"
    and p': "p' = p\<lparr>Pipeline_ObjectMeta := RemoveFinalizer (lib E) (Pipeline_ObjectMeta p) pipelineFinalizer\<rparr>"
  shows "run_state (Pipeline_Reconcile E req) s =
      (case Update_Pipeline (k8s E) (length (trace u)) p' of
         Inl err \<Rightarrow> Failed (Wrapf ''remove finalizer'' err) | Inr _ \<Rightarrow> Done,
       u\<lparr>trace := trace u @ [KUpdate (OPipeline p')]\<rparr>) \<and>
    (\<forall>c \<in> set (calls (Pipeline_Reconcile E req) s). concourse_call c \<longrightarrow>
       (\<exists>cl t. c = TDeletePipeline cl t \<lparr>PipelineRef_Name =
          default_name (PipelineSpec_PipelineName (Pipeline_Spec p)) (Pipeline_ObjectMeta p)\<rparr>))"
proof
  show run: "run_state (Pipeline_Reconcile E req) s =
      (case Update_Pipeline (k8s E) (length (trace u)) p' of
         Inl err \<Rightarrow> Failed (Wrapf ''remove finalizer'' err) | Inr _ \<Rightarrow> Done,
       u\<lparr>trace := trace u @ [KUpdate (OPipeline p')]\<rparr>)"
    using get deleted fin destroy by (simp add: p' Pipeline_Reconcile_def run_simps Let_def split: sum.split)
  let ?P = "\<lambda>c. concourse_call c \<longrightarrow> (\<exists>cl t. c = TDeletePipeline cl t \<lparr>PipelineRef_Name =
    default_name (PipelineSpec_PipelineName (Pipeline_Spec p)) (Pipeline_ObjectMeta p)\<rparr>)"
  have "state_io_rel (emits ?P) (deletePipeline E p)"
    unfolding deletePipeline_def
    by (intro em.effect_rules emits_resolvers_if emits_ask) (simp_all add: default_name_def)
  from emits_run [OF this destroy] obtain cs where "trace u = trace s @ KGet KPipeline req # cs" "list_all ?P cs"
    by (auto simp: emits_def)
  with run show "\<forall>c \<in> set (calls (Pipeline_Reconcile E req) s). ?P c"
    by (auto simp: calls_def list_all_iff)
qed

end
