(* ===== verification/Job_Controller.thy ===== *)
theory Job_Controller
  imports Example_Env
begin

section \<open>The job controller (job_controller.go)\<close>

text \<open>
  \<open>JobReconciler.Reconcile\<close> of \<open>internal/controller/job_controller.go\<close>: pausing the job, creating
  a Build object when a trigger is due, and reporting the last finished build.
\<close>

definition syncJobPause ::
  "'cl env \<Rightarrow> 'cl \<Rightarrow> string \<Rightarrow> atc_PipelineRef \<Rightarrow> string \<Rightarrow> bool \<Rightarrow> JobStatus \<Rightarrow> ('cl, JobStatus) op" where
  "syncJobPause E cl teamName ref jobName paused st =
     (if paused then do {
        e \<leftarrow> ask (TPauseJob cl teamName ref jobName) (\<lambda>n. Team_PauseJob (atc E) n cl teamName ref jobName);
        case e of
          Some err \<Rightarrow> State_Monad.return st
        | None \<Rightarrow> State_Monad.return (st\<lparr>JobStatus_Paused := True\<rparr>)
      }
      else do {
        e \<leftarrow> ask (TUnpauseJob cl teamName ref jobName) (\<lambda>n. Team_UnpauseJob (atc E) n cl teamName ref jobName);
        case e of
          Some err \<Rightarrow> State_Monad.return st
        | None \<Rightarrow> State_Monad.return (st\<lparr>JobStatus_Paused := False\<rparr>)
      })"

text \<open>The Build object a trigger creates, before the owner reference is set.\<close>

definition newBuildCR :: "Job \<Rightarrow> Build" where
  "newBuildCR job =
     \<lparr>Build_ObjectMeta =
        \<lparr>Name = '''', GenerateName = Name (Job_ObjectMeta job) @ ''-build-'',
         Namespace = Namespace (Job_ObjectMeta job), ResourceVersion = '''', Generation = 0,
         DeletionTimestamp = None, Finalizers = [], OwnerReferences = []\<rparr>,
      Build_Spec =
        \<lparr>BuildSpec_JobRef = Some \<lparr>LocalObjectReference_Name = Name (Job_ObjectMeta job)\<rparr>,
         BuildSpec_OneOff = False, BuildSpec_Abort = False\<rparr>,
      Build_Status =
        \<lparr>BuildStatus_Conditions = [], BuildStatus_BuildID = 0, BuildStatus_BuildName = '''',
         BuildStatus_ConcourseStatus = '''', BuildStatus_StartTime = None, BuildStatus_EndTime = None,
         BuildStatus_Duration = None, BuildStatus_APIURL = '''', BuildStatus_CreatedBy = '''',
         BuildStatus_ObservedGeneration = 0\<rparr>\<rparr>"

definition trigger_due :: "Job \<Rightarrow> bool" where
  "trigger_due job \<longleftrightarrow>
     JobSpec_TriggerBuild (Job_Spec job) \<and>
     JobStatus_ObservedGeneration (Job_Status job) \<noteq> Generation (Job_ObjectMeta job)"

definition triggerBuild :: "'cl env \<Rightarrow> Job \<Rightarrow> JobStatus \<Rightarrow> ('cl, JobStatus) op" where
  "triggerBuild E job st =
     (if trigger_due job then
        (case SetControllerReference (lib E) job (newBuildCR job) of
           Inl err \<Rightarrow> State_Monad.return st
         | Inr buildCR \<Rightarrow> do {
             r \<leftarrow> ask (KCreate (OBuild buildCR)) (\<lambda>n. Create_Build (k8s E) n buildCR);
             case r of
               Inl err \<Rightarrow> State_Monad.return st
             | Inr buildCR \<Rightarrow>
                 State_Monad.return (st\<lparr>JobStatus_NextBuildName := Name (Build_ObjectMeta buildCR)\<rparr>)
           })
      else State_Monad.return st)"

definition reportLastBuild ::
  "'cl env \<Rightarrow> (atc_Job \<times> bool) go_result \<Rightarrow> JobStatus \<Rightarrow> ('cl, JobStatus) op" where
  "reportLastBuild E r st =
     (case r of
        Inl err \<Rightarrow> do {
          cs \<leftarrow> setCondition E (JobStatus_Conditions st) ConditionLastBuildSucceeded ConditionUnknown
                  ''FetchFailed'' (Error err);
          State_Monad.return (st\<lparr>JobStatus_Conditions := cs\<rparr>)
        }
      | Inr (atcJob, found) \<Rightarrow>
          if \<not> found then do {
            cs \<leftarrow> setCondition E (JobStatus_Conditions st) ConditionLastBuildSucceeded ConditionUnknown
                    ''NoBuild'' ''no build history yet'';
            State_Monad.return (st\<lparr>JobStatus_Conditions := cs\<rparr>)
          }
          else (case atcJob_FinishedBuild atcJob of
            Some fb \<Rightarrow> do {
              let st = st\<lparr>JobStatus_LastBuildID := atcBuild_ID fb, JobStatus_LastBuildStatus := atcBuild_Status fb\<rparr>;
              let st = (if atcBuild_EndTime fb > 0
                        then st\<lparr>JobStatus_LastBuildTime := Some (Unix (atcBuild_EndTime fb))\<rparr> else st);
              cs \<leftarrow> (if atcBuild_Status fb = BuildPhaseSucceeded
                    then setCondition E (JobStatus_Conditions st) ConditionLastBuildSucceeded ConditionTrue
                           ''Succeeded'' ''''
                    else setCondition E (JobStatus_Conditions st) ConditionLastBuildSucceeded ConditionFalse
                           (atcBuild_Status fb) '''');
              State_Monad.return (st\<lparr>JobStatus_Conditions := cs\<rparr>)
            }
          | None \<Rightarrow> do {
              cs \<leftarrow> setCondition E (JobStatus_Conditions st) ConditionLastBuildSucceeded ConditionUnknown
                      ''NoBuild'' ''no finished build yet'';
              State_Monad.return (st\<lparr>JobStatus_Conditions := cs\<rparr>)
            }))"

text \<open>The part of \<open>Reconcile\<close> that follows a successful resolution.\<close>

definition Job_track :: "'cl env \<Rightarrow> 'cl \<Rightarrow> string \<Rightarrow> string \<Rightarrow> Job \<Rightarrow> ('cl, reconcile_result) op" where
  "Job_track E cl teamName pipelineName job = do {
     let jobName = JobSpec_JobName (Job_Spec job);
     let jobName = (if jobName = '''' then Name (Job_ObjectMeta job) else jobName);
     let ref = \<lparr>PipelineRef_Name = pipelineName\<rparr>;
     st \<leftarrow> syncJobPause E cl teamName ref jobName (JobSpec_Paused (Job_Spec job)) (Job_Status job);
     st \<leftarrow> triggerBuild E job st;
     let st = st\<lparr>JobStatus_ObservedGeneration := Generation (Job_ObjectMeta job)\<rparr>;
     cs \<leftarrow> setCondition E (JobStatus_Conditions st) ConditionReady ConditionTrue ''Ready'' '''';
     let st = st\<lparr>JobStatus_Conditions := cs\<rparr>;
     j \<leftarrow> ask (TJob cl teamName ref jobName) (\<lambda>n. Team_Job (atc E) n cl teamName ref jobName);
     st \<leftarrow> reportLastBuild E j st;
     let job = job\<lparr>Job_Status := st\<rparr>;
     u \<leftarrow> ask (KStatusUpdate (OJob job)) (\<lambda>n. Status_Job (k8s E) n job);
     case u of
       Inl err \<Rightarrow> State_Monad.return (Failed (Wrapf ''update status'' err))
     | Inr _ \<Rightarrow> State_Monad.return (Requeue (1 * Minute))
   }"

definition Job_Reconcile :: "'cl env \<Rightarrow> ObjectKey \<Rightarrow> ('cl, reconcile_result) op" where
  "Job_Reconcile E req = do {
     r \<leftarrow> ask (KGet KJob req) (\<lambda>n. Get_Job (k8s E) n req);
     case r of
       Inl err \<Rightarrow> State_Monad.return (Result0, IgnoreNotFound (lib E) err)
     | Inr job \<Rightarrow>
         if \<not> IsZero (lib E) (DeletionTimestamp (Job_ObjectMeta job)) then State_Monad.return Done
         else do {
           c \<leftarrow> resolveClientForJob E job;
           case c of
             Inl err \<Rightarrow> do {
               cs \<leftarrow> setCondition E (JobStatus_Conditions (Job_Status job)) ConditionReady ConditionFalse
                       ''PipelineNotReady'' (Error err);
               let job = job\<lparr>Job_Status := (Job_Status job)\<lparr>JobStatus_Conditions := cs\<rparr>\<rparr>;
               _ \<leftarrow> ask (KStatusUpdate (OJob job)) (\<lambda>n. Status_Job (k8s E) n job);
               State_Monad.return (Requeue (30 * Second))
             }
           | Inr (cl, teamName, pipelineName) \<Rightarrow> Job_track E cl teamName pipelineName job
         }
   }"

subsection \<open>Interface\<close>

interpretation jr: passive_reconciler E KJob "Job_Reconcile E" for E :: "'cl env"
proof
  fix req :: ObjectKey
  note defs = Job_Reconcile_def Job_track_def syncJobPause_def triggerBuild_def reportLastBuild_def
  show "reads_first KJob req (Job_Reconcile E req)"
    unfolding defs by (intro reads_firstI appends_rules) simp_all
  show "state_io_rel (keeps goroutines) (Job_Reconcile E req)"
    unfolding defs by (intro goroutine_rules) simp_all
  assume "valid_names E"
  then show "state_io_rel (preserves (cache_ok E)) (Job_Reconcile E req)"
    unfolding defs by (intro cache_rules) (simp_all)
qed

subsection \<open>Triggering builds\<close>

fun is_create :: "'cl call \<Rightarrow> bool" where
  "is_create (KCreate x) = True"
| "is_create _ = False"

lemma other_stages_no_create:
  shows "state_io_rel (emits (\<lambda>c. \<not> is_create c)) (syncJobPause E cl t ref jn b st)"
    and "state_io_rel (emits (\<lambda>c. \<not> is_create c)) (reportLastBuild E r st)"
  unfolding syncJobPause_def reportLastBuild_def
   apply (intro em.effect_rules emits_ask; simp)
  apply (intro em.effect_rules emits_setCondition; simp)
  done

lemma appends_stages:
  shows "appends (syncJobPause E cl t ref jn b st)" and "appends (triggerBuild E job st)"
  unfolding syncJobPause_def triggerBuild_def
   apply (intro appends_rules; simp)
  apply (intro appends_rules; simp)
  done

text \<open>The Build object that is created, if its owner reference can be set.\<close>

definition build_of :: "'cl env \<Rightarrow> Job \<Rightarrow> k8s_object list" where
  "build_of E job = (case SetControllerReference (lib E) job (newBuildCR job) of Inl _ \<Rightarrow> [] | Inr b \<Rightarrow> [OBuild b])"

lemma create_triggerBuild:
  "filter is_create (calls (triggerBuild E job st) s) = (if trigger_due job then map KCreate (build_of E job) else [])"
proof (cases "trigger_due job")
  case True
  show ?thesis
  proof (cases "SetControllerReference (lib E) job (newBuildCR job)")
    case (Inl e)
    with True show ?thesis by (simp add: triggerBuild_def build_of_def)
  next
    case (Inr b)
    with True show ?thesis
      by (simp add: triggerBuild_def build_of_def) (subst filter_calls_ask_first, intro em.effect_rules, simp)
  qed
next
  case False
  then show ?thesis by (simp add: triggerBuild_def)
qed

lemma create_Job_track:
  "filter is_create (calls (Job_track E cl tn pn job) s) = (if trigger_due job then map KCreate (build_of E job) else [])"
proof -
  define jn where "jn = (if JobSpec_JobName (Job_Spec job) = '''' then Name (Job_ObjectMeta job) else JobSpec_JobName (Job_Spec job))"
  let ?pause = "syncJobPause E cl tn \<lparr>PipelineRef_Name = pn\<rparr> jn (JobSpec_Paused (Job_Spec job)) (Job_Status job)"
  obtain st u where pause: "run_state ?pause s = (st, u)" by (meson prod.exhaust)
  have none: "filter is_create (calls ?pause s) = []"
    by (rule filter_calls_none [OF other_stages_no_create(1)])
  have rest: "filter is_create (calls (State_Monad.bind (triggerBuild E job st) f) u) =
      filter is_create (calls (triggerBuild E job st) u)"
    if "\<And>a. state_io_rel (emits (\<lambda>c. \<not> is_create c)) (f a)" for f :: "JobStatus \<Rightarrow> ('a, reconcile_result) op"
    by (rule filter_calls_first [OF appends_stages(2) that])
  show ?thesis
    unfolding Job_track_def Let_def jn_def [symmetric] create_triggerBuild [of E job st u, symmetric]
    apply (subst filter_calls_bind [OF appends_stages(1) _ pause])
     apply (intro appends_rules appends_stages(2) emits_mono [OF other_stages_no_create(2)]; simp)
    apply (simp add: none)
    apply (rule rest)
    apply (intro em.effect_rules emits_setCondition emits_ask other_stages_no_create(2); simp)
    done
qed

text \<open>
  C30: a job creates a Build object exactly when its spec asks for one and its generation has not been
  observed yet: then one object, named after the job, referring to it and controlled by it, and
  otherwise none.
\<close>

theorem build_created_iff_due:
  "filter is_create (calls (Job_track E cl tn pn job) s) = (if trigger_due job then map KCreate (build_of E job) else []) \<and>
   (trigger_due job \<longleftrightarrow> JobSpec_TriggerBuild (Job_Spec job) \<and>
      JobStatus_ObservedGeneration (Job_Status job) \<noteq> Generation (Job_ObjectMeta job)) \<and>
   GenerateName (Build_ObjectMeta (newBuildCR job)) = Name (Job_ObjectMeta job) @ ''-build-'' \<and>
   Namespace (Build_ObjectMeta (newBuildCR job)) = Namespace (Job_ObjectMeta job) \<and>
   BuildSpec_JobRef (Build_Spec (newBuildCR job)) = Some \<lparr>LocalObjectReference_Name = Name (Job_ObjectMeta job)\<rparr> \<and>
   BuildStatus_BuildID (Build_Status (newBuildCR job)) = 0"
  by (simp add: create_Job_track trigger_due_def newBuildCR_def)

lemma generation_reportLastBuild:
  assumes "st' \<in> set_state (reportLastBuild E r st)"
  shows "JobStatus_ObservedGeneration st' = JobStatus_ObservedGeneration st"
proof -
  have "returns (\<lambda>st'. JobStatus_ObservedGeneration st' = JobStatus_ObservedGeneration st) (reportLastBuild E r st)"
    unfolding reportLastBuild_def by (intro returns_rules) simp_all
  from returns_set_state [OF this assms] show ?thesis .
qed

fun observed_status :: "Job \<Rightarrow> 'cl call \<Rightarrow> bool" where
  "observed_status job (KStatusUpdate (OJob j)) =
     (Job_Spec j = Job_Spec job \<and> Job_ObjectMeta j = Job_ObjectMeta job \<and>
      JobStatus_ObservedGeneration (Job_Status j) = Generation (Job_ObjectMeta job))"
| "observed_status job _ = True"

lemma emits_observed_status: "state_io_rel (emits (observed_status job)) (Job_track E cl tn pn job)"
proof -
  have stages: "state_io_rel (emits (observed_status job)) (syncJobPause E cl t ref jn b st)"
    "state_io_rel (emits (observed_status job)) (triggerBuild E job st)"
    "state_io_rel (emits (observed_status job)) (reportLastBuild E r st)" for t ref jn b st r
    unfolding syncJobPause_def triggerBuild_def reportLastBuild_def
    by (intro em.effect_rules emits_setCondition emits_ask; simp)+
  show ?thesis
    unfolding Job_track_def
    by (intro em.effect_rules emits_setCondition emits_ask stages)
       (auto dest!: generation_reportLastBuild)
qed

text \<open>
  At most one trigger per generation: every status a job's reconciliation sends marks the generation
  as observed, so that reconciling the object with that status creates no further Build. This holds also
  when creating the Build failed, so that a trigger whose creation was refused is never tried again.
\<close>

lemma trigger_once_per_generation:
  assumes "KStatusUpdate (OJob j) \<in> set (calls (Job_track E cl tn pn job) s)"
  shows "filter is_create (calls (Job_track E' cl' tn' pn' j) s') = []"
proof -
  from emits_calls [OF emits_observed_status assms] have "\<not> trigger_due j" by (simp add: trigger_due_def)
  then show ?thesis by (simp add: create_Job_track)
qed

lemma ex_job_answers [simp]:
  "Team_UnpauseJob ex_atc n cl t r j = None"
  "Team_Job ex_atc n cl t r j = Inr (\<lparr>atcJob_FinishedBuild = Some (ex_atc_build ''failed'')\<rparr>, True)"
  "JobSpec_Paused (Job_Spec ex_job) = False" "JobSpec_TriggerBuild (Job_Spec ex_job) = True"
  "JobStatus_ObservedGeneration (Job_Status ex_job) = 1"
  by (simp_all add: ex_atc_def ex_job_def)

subsection \<open>The last build\<close>

text \<open>What the LastBuildSucceeded condition has to say of an answer of Concourse.\<close>

fun last_build_of :: "(atc_Job \<times> bool) go_result \<Rightarrow> ConditionStatus \<times> string \<times> string" where
  "last_build_of (Inl err) = (ConditionUnknown, ''FetchFailed'', Error err)"
| "last_build_of (Inr (j, found)) =
     (if \<not> found then (ConditionUnknown, ''NoBuild'', ''no build history yet'')
      else case atcJob_FinishedBuild j of
        None \<Rightarrow> (ConditionUnknown, ''NoBuild'', ''no finished build yet'')
      | Some b \<Rightarrow> if atcBuild_Status b = ''succeeded'' then (ConditionTrue, ''Succeeded'', '''')
                  else (ConditionFalse, atcBuild_Status b, ''''))"

text \<open>
  The LastBuildSucceeded condition reports the last finished build: True only for one that
  succeeded, False with the build's status as reason for any other, and Unknown when the job cannot be
  fetched, is not known, or has no finished build; without a finished build the recorded id, status and
  time stay; Ready is not affected.
\<close>

lemma last_build_reported:
  assumes cond: "condition_laws (lib E)" and run: "run_state (reportLastBuild E r st) s = (st', t)"
  shows "(case last_build_of r of (stat, reason, msg) \<Rightarrow>
      reports (JobStatus_Conditions st') ConditionLastBuildSucceeded stat reason msg) \<and>
    isReady E (JobStatus_Conditions st') = isReady E (JobStatus_Conditions st) \<and>
    (fst (last_build_of r) = ConditionUnknown \<longrightarrow> JobStatus_LastBuildID st' = JobStatus_LastBuildID st \<and>
       JobStatus_LastBuildStatus st' = JobStatus_LastBuildStatus st \<and>
       JobStatus_LastBuildTime st' = JobStatus_LastBuildTime st)"
  using assms
  by (cases r rule: last_build_of.cases)
     (auto simp: reportLastBuild_def run_simps laws Let_def build_phases split: option.splits if_splits)

end
