(* ===== verification/Build_Controller.thy ===== *)
theory Build_Controller
  imports Example_Env
begin

section \<open>The build controller (build_controller.go)\<close>

text \<open>
  \<open>BuildReconciler\<close> of \<open>internal/controller/build_controller.go\<close>: triggering a build once, aborting
  it, tracking it to a terminal status, and the goroutine that watches its event stream. The body of
  \<open>Reconcile\<close> is split at the source's own comments.
\<close>

definition isTerminal :: "BuildPhase \<Rightarrow> bool" where
  "isTerminal s \<longleftrightarrow>
     s = BuildPhaseSucceeded \<or> s = BuildPhaseFailed \<or> s = BuildPhaseErrored \<or> s = BuildPhaseAborted"

subsection \<open>The stages of Reconcile\<close>

text \<open>The exits that report a failure and try again in half a minute.\<close>

definition Build_not_ready :: "'cl env \<Rightarrow> Build \<Rightarrow> string \<Rightarrow> string \<Rightarrow> reconcile_result \<Rightarrow> ('cl, reconcile_result) op" where
  "Build_not_ready E build reason message res = do {
     cs \<leftarrow> setCondition E (BuildStatus_Conditions (Build_Status build)) ConditionReady ConditionFalse reason message;
     let build = build\<lparr>Build_Status := (Build_Status build)\<lparr>BuildStatus_Conditions := cs\<rparr>\<rparr>;
     _ \<leftarrow> ask (KStatusUpdate (OBuild build)) (\<lambda>n. Status_Build (k8s E) n build);
     State_Monad.return res
   }"

definition triggerIfNew ::
  "'cl env \<Rightarrow> 'cl \<Rightarrow> string \<Rightarrow> string \<Rightarrow> string \<Rightarrow> BuildStatus \<Rightarrow> ('cl, BuildStatus go_result) op" where
  "triggerIfNew E cl teamName pipelineName jobName st =
     (if BuildStatus_BuildID st = 0 then do {
        let ref = \<lparr>PipelineRef_Name = pipelineName\<rparr>;
        r \<leftarrow> ask (TCreateJobBuild cl teamName ref jobName)
               (\<lambda>n. Team_CreateJobBuild (atc E) n cl teamName ref jobName);
        case r of
          Inl err \<Rightarrow> State_Monad.return (Inl err)
        | Inr atcBuild \<Rightarrow>
            (let st = st\<lparr>BuildStatus_BuildID := atcBuild_ID atcBuild,
                         BuildStatus_BuildName := atcBuild_Name atcBuild,
                         BuildStatus_APIURL := atcBuild_APIURL atcBuild\<rparr>
             in State_Monad.return (Inr
                  (if atcBuild_StartTime atcBuild > 0
                   then st\<lparr>BuildStatus_StartTime := Some (Unix (atcBuild_StartTime atcBuild))\<rparr> else st)))
      }
      else State_Monad.return (Inr st))"

definition abortIfAsked :: "'cl env \<Rightarrow> 'cl \<Rightarrow> BuildSpec \<Rightarrow> BuildStatus \<Rightarrow> ('cl, unit) op" where
  "abortIfAsked E cl spec st =
     (if BuildSpec_Abort spec \<and> BuildStatus_BuildID st \<noteq> 0 then do {
        let buildID = Itoa (BuildStatus_BuildID st);
        _ \<leftarrow> ask (CAbortBuild cl buildID) (\<lambda>n. Client_AbortBuild (atc E) n cl buildID);
        State_Monad.return ()
      }
      else State_Monad.return ())"

definition refreshStatus :: "'cl env \<Rightarrow> 'cl \<Rightarrow> BuildStatus \<Rightarrow> ('cl, BuildStatus) op" where
  "refreshStatus E cl st =
     (if BuildStatus_BuildID st \<noteq> 0 then do {
        let buildID = Itoa (BuildStatus_BuildID st);
        r \<leftarrow> ask (CBuild cl buildID) (\<lambda>n. Client_Build (atc E) n cl buildID);
        case r of
          Inl err \<Rightarrow> State_Monad.return st
        | Inr (atcBuild, found) \<Rightarrow>
            if found then
              (let st = st\<lparr>BuildStatus_ConcourseStatus := atcBuild_Status atcBuild\<rparr>;
                   st = (if atcBuild_EndTime atcBuild > 0
                         then st\<lparr>BuildStatus_EndTime := Some (Unix (atcBuild_EndTime atcBuild))\<rparr> else st);
                   st = (case atcBuild_CreatedBy atcBuild of
                           None \<Rightarrow> st | Some c \<Rightarrow> st\<lparr>BuildStatus_CreatedBy := c\<rparr>)
               in State_Monad.return st)
            else State_Monad.return st
      }
      else State_Monad.return st)"

definition setDuration :: "BuildStatus \<Rightarrow> BuildStatus" where
  "setDuration st =
     (case (BuildStatus_StartTime st, BuildStatus_EndTime st) of
        (Some t0, Some t1) \<Rightarrow> st\<lparr>BuildStatus_Duration := Some (Sub t1 t0)\<rparr>
      | _ \<Rightarrow> st)"

definition setComplete :: "'cl env \<Rightarrow> BuildStatus \<Rightarrow> ('cl, conditions) op" where
  "setComplete E st =
     (if isTerminal (BuildStatus_ConcourseStatus st)
      then setCondition E (BuildStatus_Conditions st) ConditionComplete ConditionTrue
             (BuildStatus_ConcourseStatus st) ''''
      else if BuildStatus_BuildID st \<noteq> 0
      then setCondition E (BuildStatus_Conditions st) ConditionComplete ConditionFalse ''InProgress'' ''''
      else setCondition E (BuildStatus_Conditions st) ConditionComplete ConditionUnknown ''Pending''
             ''build not yet triggered'')"

text \<open>
  Starting the watcher goroutine: \<open>LoadOrStore\<close> claims the key, and only the first claim starts one.
  \<open>claimWatcher\<close> is that atomic step on the process's memory.
\<close>

definition claimWatcher :: "'cl env \<Rightarrow> 'cl watcher \<Rightarrow> 'cl op_state \<Rightarrow> 'cl op_state" where
  "claimWatcher E w s =
     (let ks = NamespacedName_String (lib E) (watch_key w) in
      if ks \<in> watchers s then s
      else s\<lparr>watchers := insert ks (watchers s), spawned := spawned s @ [w]\<rparr>)"

definition startWatcher :: "'cl env \<Rightarrow> 'cl \<Rightarrow> Build \<Rightarrow> ('cl, unit) op" where
  "startWatcher E cl build =
     (if BuildStatus_BuildID (Build_Status build) \<noteq> 0 then
        (let key = \<lparr>key_Namespace = Namespace (Build_ObjectMeta build), key_Name = Name (Build_ObjectMeta build)\<rparr>
         in modify (claimWatcher E \<lparr>watch_client = cl,
                       watch_buildID = BuildStatus_BuildID (Build_Status build),
                       watch_key = key, watch_phase = WOpen\<rparr>))
      else State_Monad.return ())"

definition Build_track ::
  "'cl env \<Rightarrow> 'cl \<Rightarrow> string \<Rightarrow> string \<Rightarrow> string \<Rightarrow> Build \<Rightarrow> ('cl, reconcile_result) op" where
  "Build_track E cl teamName pipelineName jobName build = do {
     t \<leftarrow> triggerIfNew E cl teamName pipelineName jobName (Build_Status build);
     case t of
       Inl err \<Rightarrow> Build_not_ready E build ''TriggerFailed'' (Error err) (Requeue (30 * Second))
     | Inr st \<Rightarrow> do {
         _ \<leftarrow> abortIfAsked E cl (Build_Spec build) st;
         st \<leftarrow> refreshStatus E cl st;
         let st = setDuration st;
         cs \<leftarrow> setComplete E st;
         let st = st\<lparr>BuildStatus_ObservedGeneration := Generation (Build_ObjectMeta build)\<rparr>;
         cs \<leftarrow> setCondition E cs ConditionReady ConditionTrue ''Tracked'' '''';
         let build = build\<lparr>Build_Status := st\<lparr>BuildStatus_Conditions := cs\<rparr>\<rparr>;
         u \<leftarrow> ask (KStatusUpdate (OBuild build)) (\<lambda>n. Status_Build (k8s E) n build);
         case u of
           Inl err \<Rightarrow> State_Monad.return (Failed (Wrapf ''update status'' err))
         | Inr build \<Rightarrow>
             if isTerminal (BuildStatus_ConcourseStatus (Build_Status build)) then State_Monad.return Done
             else do {
               _ \<leftarrow> startWatcher E cl build;
               State_Monad.return (Requeue (30 * Second))
             }
       }
   }"

definition Build_Reconcile :: "'cl env \<Rightarrow> ObjectKey \<Rightarrow> ('cl, reconcile_result) op" where
  "Build_Reconcile E req = do {
     r \<leftarrow> ask (KGet KBuild req) (\<lambda>n. Get_Build (k8s E) n req);
     case r of
       Inl err \<Rightarrow> State_Monad.return (Result0, IgnoreNotFound (lib E) err)
     | Inr build \<Rightarrow>
         if \<not> IsZero (lib E) (DeletionTimestamp (Build_ObjectMeta build)) then State_Monad.return Done
         else if isTerminal (BuildStatus_ConcourseStatus (Build_Status build)) then State_Monad.return Done
         else case BuildSpec_JobRef (Build_Spec build) of
           None \<Rightarrow> Build_not_ready E build ''NoJobRef'' ''jobRef is required for non-one-off builds'' Done
         | Some jobRef \<Rightarrow> do {
             let key = \<lparr>key_Namespace = Namespace (Build_ObjectMeta build),
                        key_Name = LocalObjectReference_Name jobRef\<rparr>;
             j \<leftarrow> ask (KGet KJob key) (\<lambda>n. Get_Job (k8s E) n key);
             case j of
               Inl err \<Rightarrow> State_Monad.return (Result0, IgnoreNotFound (lib E) err)
             | Inr job \<Rightarrow> do {
                 c \<leftarrow> resolveClientForJob E job;
                 case c of
                   Inl err \<Rightarrow> Build_not_ready E build ''ChainNotReady'' (Error err) (Requeue (30 * Second))
                 | Inr (cl, teamName, pipelineName) \<Rightarrow> do {
                     let jobName = JobSpec_JobName (Job_Spec job);
                     let jobName = (if jobName = '''' then Name (Job_ObjectMeta job) else jobName);
                     Build_track E cl teamName pipelineName jobName build
                   }
               }
           }
   }"

subsection \<open>The watcher goroutine\<close>

text \<open>
  The channel made by \<open>SetupWithManager\<close> buffers 64 requests; a send to a full channel blocks, a
  send while the channel is nil is skipped.
\<close>

definition eventCh_capacity :: nat where "eventCh_capacity = 64"

definition SetupWithManager_eventCh :: "'cl op_state \<Rightarrow> 'cl op_state" where
  "SetupWithManager_eventCh s = s\<lparr>eventCh := Some []\<rparr>"

definition enqueue :: "ObjectKey \<Rightarrow> 'cl op_state \<Rightarrow> 'cl op_state option" where
  "enqueue key s =
     (case eventCh s of
        None \<Rightarrow> Some s
      | Some q \<Rightarrow> if length q < eventCh_capacity then Some (s\<lparr>eventCh := Some (q @ [key])\<rparr>) else None)"

definition terminal_event :: "atc_Event \<Rightarrow> bool" where
  "terminal_event ev \<longleftrightarrow> (case ev of StatusEvent st \<Rightarrow> isTerminal st | OtherEvent _ \<Rightarrow> False)"

text \<open>
  One step of \<open>watchBuildEvents\<close> inside the goroutine that \<open>Reconcile\<close> starts: opening the stream,
  one iteration of the loop, the send of \<open>enqueue\<close>, and the deferred \<open>stream.Close\<close> followed by
  the deferred \<open>watchers.Delete\<close>. \<open>None\<close> is blocking in the send; \<open>Some (None, s)\<close> is the end of
  the goroutine. \<open>ctx_done\<close> says at which interactions the context is cancelled (never, for the
  \<open>context.Background()\<close> that \<open>Reconcile\<close> passes).
\<close>

definition watchBuildEvents_step ::
  "'cl env \<Rightarrow> (nat \<Rightarrow> bool) \<Rightarrow> 'cl watcher \<Rightarrow> 'cl op_state \<Rightarrow> ('cl watcher option \<times> 'cl op_state) option" where
  "watchBuildEvents_step E ctx_done w s =
     (case watch_phase w of
        WOpen \<Rightarrow>
          (let buildID = Itoa (watch_buildID w) in
           case run_state (ask (CBuildEvents (watch_client w) buildID)
                  (\<lambda>n. Client_BuildEvents (atc E) n (watch_client w) buildID)) s of
             (r, s) \<Rightarrow>
               (case r of
                  Inl err \<Rightarrow> Some (Some (w\<lparr>watch_phase := WSend None\<rparr>), s)
                | Inr None \<Rightarrow> Some (Some (w\<lparr>watch_phase := WSend None\<rparr>), s)
                | Inr (Some stream) \<Rightarrow> Some (Some (w\<lparr>watch_phase := WLoop stream\<rparr>), s)))
      | WLoop stream \<Rightarrow>
          if ctx_done (length (trace s)) then Some (Some (w\<lparr>watch_phase := WClose (Some stream)\<rparr>), s)
          else (case run_state (ask (CNextEvent stream) (\<lambda>n. Events_NextEvent (atc E) n stream)) s of
            (r, s) \<Rightarrow>
              (case r of
                 Inl err \<Rightarrow> Some (Some (w\<lparr>watch_phase := WSend (Some stream)\<rparr>), s)
               | Inr ev \<Rightarrow>
                   if terminal_event ev then Some (Some (w\<lparr>watch_phase := WSend (Some stream)\<rparr>), s)
                   else Some (Some w, s)))
      | WSend stream \<Rightarrow>
          (case enqueue (watch_key w) s of
             None \<Rightarrow> None
           | Some s \<Rightarrow> Some (Some (w\<lparr>watch_phase := WClose stream\<rparr>), s))
      | WClose stream \<Rightarrow>
          (let s = (case stream of None \<Rightarrow> s | Some st \<Rightarrow> s\<lparr>trace := trace s @ [CCloseEvents st]\<rparr>)
           in Some (None, s\<lparr>watchers := watchers s - {NamespacedName_String (lib E) (watch_key w)}\<rparr>)))"

text \<open>
  The goroutine from a given point to its end with nothing else running; \<open>None\<close> is not ending.
\<close>

partial_function (option) watch_run ::
  "'cl env \<Rightarrow> (nat \<Rightarrow> bool) \<Rightarrow> 'cl watcher \<Rightarrow> 'cl op_state \<Rightarrow> 'cl op_state option" where
  "watch_run E ctx_done w s =
     (case watchBuildEvents_step E ctx_done w s of
        None \<Rightarrow> None
      | Some (None, t) \<Rightarrow> Some t
      | Some (Some w', t) \<Rightarrow> watch_run E ctx_done w' t)"

subsection \<open>Interface\<close>

lemma claimWatcher_sel [simp]:
  "trace (claimWatcher E w s) = trace s" "store (claimWatcher E w s) = store s"
  "eventCh (claimWatcher E w s) = eventCh s"
  by (simp_all add: claimWatcher_def Let_def)

lemma watch_ok_claimWatcher: "watch_ok E s \<Longrightarrow> watch_ok E (claimWatcher E w s)"
  by (auto simp: claimWatcher_def watch_ok_def watch_name_def Let_def)

lemma cache_ok_claimWatcher [simp]: "cache_ok E (claimWatcher E w s) = cache_ok E s"
  by (simp add: cache_ok_def)

lemma appends_startWatcher: "appends (startWatcher E cl build)"
  unfolding startWatcher_def by (intro em.effect_rules em.effect_modify) (simp add: emits_def)

lemma preserves_watch_ok_startWatcher: "state_io_rel (preserves (watch_ok E)) (startWatcher E cl build)"
  unfolding startWatcher_def
  by (intro pr.effect_rules pr.effect_modify) (simp add: preserves_def watch_ok_claimWatcher)

lemma preserves_cache_ok_startWatcher: "state_io_rel (preserves (cache_ok E)) (startWatcher E cl build)"
  unfolding startWatcher_def
  by (intro pr.effect_rules pr.effect_modify) (simp add: preserves_def)

lemma keeps_eventCh_startWatcher: "state_io_rel (keeps eventCh) (startWatcher E cl build)"
  unfolding startWatcher_def
  by (intro kp.effect_rules kp.effect_modify) (simp add: keeps_def)

lemma keeps_store_startWatcher: "keeps_store (startWatcher E cl build)"
  unfolding startWatcher_def
  by (intro kp.effect_rules kp.effect_modify) (simp add: keeps_def)

lemma preserves_watch_ok_if:
  "state_io_rel (keeps goroutines) m \<Longrightarrow> state_io_rel (preserves (watch_ok E)) m"
  unfolding state_io_rel_def keeps_def preserves_def using watch_ok_goroutines by blast

lemmas watch_shared =
  preserves_ask preserves_Now preserves_setCondition
  keeps_resolvers [THEN preserves_watch_ok_if]

interpretation br: reconciler E KBuild "Build_Reconcile E" for E :: "'cl env"
proof
  fix req :: ObjectKey
  note defs = Build_Reconcile_def Build_not_ready_def Build_track_def triggerIfNew_def abortIfAsked_def
    refreshStatus_def setComplete_def
  show "reads_first KBuild req (Build_Reconcile E req)"
    unfolding defs by (intro reads_firstI appends_rules appends_startWatcher) simp_all
  show "state_io_rel (preserves (watch_ok E)) (Build_Reconcile E req)"
    unfolding defs
    by (intro pr.effect_rules watch_shared preserves_watch_ok_startWatcher) (simp_all add: watch_ok_def)
  show "state_io_rel (keeps eventCh) (Build_Reconcile E req)"
    unfolding defs by (intro goroutine_rules keeps_eventCh_startWatcher) simp_all
  assume "valid_names E"
  then show "state_io_rel (preserves (cache_ok E)) (Build_Reconcile E req)"
    unfolding defs by (intro cache_rules preserves_cache_ok_startWatcher) simp_all
qed

subsection \<open>The watcher's life\<close>

text \<open>The stream ends a watcher at interaction \<open>n\<close>: an error (\<open>io.EOF\<close> included) or a terminal status.\<close>

definition stream_ends :: "'cl env \<Rightarrow> event_stream \<Rightarrow> nat \<Rightarrow> bool" where
  "stream_ends E stream n \<longleftrightarrow>
     (case Events_NextEvent (atc E) n stream of Inl _ \<Rightarrow> True | Inr ev \<Rightarrow> terminal_event ev)"

definition channel_room :: "'cl op_state \<Rightarrow> bool" where
  "channel_room s \<longleftrightarrow> (case eventCh s of None \<Rightarrow> True | Some q \<Rightarrow> length q < eventCh_capacity)"

text \<open>What the send, the two deferred calls and the end of the goroutine leave.\<close>

definition watch_finish :: "'cl env \<Rightarrow> 'cl watcher \<Rightarrow> 'cl call list \<Rightarrow> 'cl op_state \<Rightarrow> 'cl op_state" where
  "watch_finish E w cs s =
     s\<lparr>trace := trace s @ cs, eventCh := map_option (\<lambda>q. q @ [watch_key w]) (eventCh s),
       watchers := watchers s - {watch_name E w}\<rparr>"

lemma watch_name_phase [simp]: "watch_name E (w\<lparr>watch_phase := p\<rparr>) = watch_name E w"
  by (simp add: watch_name_def)

lemma watch_run_close:
  "watch_run E d (w\<lparr>watch_phase := WClose st\<rparr>) s =
     Some (s\<lparr>trace := trace s @ (case st of None \<Rightarrow> [] | Some x \<Rightarrow> [CCloseEvents x]),
             watchers := watchers s - {watch_name E w}\<rparr>)"
  by (subst watch_run.simps)
     (simp add: watchBuildEvents_step_def watch_name_def Let_def split: option.split)

lemma watch_run_send:
  "channel_room s \<Longrightarrow>
   watch_run E d (w\<lparr>watch_phase := WSend st\<rparr>) s =
     Some (watch_finish E w (case st of None \<Rightarrow> [] | Some x \<Rightarrow> [CCloseEvents x]) s)"
  using watch_run_close [where w = "w\<lparr>watch_phase := WSend st\<rparr>"]
  by (subst watch_run.simps)
     (auto simp add: watchBuildEvents_step_def enqueue_def channel_room_def watch_finish_def
       split: option.splits)

lemma watch_run_loop_step:
  assumes "\<not> d (length (trace s))" and "\<not> stream_ends E stream (length (trace s))"
  shows "watch_run E d (w\<lparr>watch_phase := WLoop stream\<rparr>) s =
    watch_run E d (w\<lparr>watch_phase := WLoop stream\<rparr>) (s\<lparr>trace := trace s @ [CNextEvent stream]\<rparr>)"
  using assms
  by (subst watch_run.simps)
     (simp add: watchBuildEvents_step_def run_simps stream_ends_def split: sum.splits)

lemma watch_run_loop_end:
  assumes "\<not> d (length (trace s))" and "stream_ends E stream (length (trace s))"
  shows "watch_run E d (w\<lparr>watch_phase := WLoop stream\<rparr>) s =
    watch_run E d (w\<lparr>watch_phase := WSend (Some stream)\<rparr>) (s\<lparr>trace := trace s @ [CNextEvent stream]\<rparr>)"
  using assms
  by (subst watch_run.simps)
     (simp add: watchBuildEvents_step_def run_simps stream_ends_def split: sum.splits)

lemma watch_run_loop:
  assumes "\<And>n. \<not> d n" and "channel_room s"
    and "stream_ends E stream (length (trace s) + k)"
    and "\<And>m. m < k \<Longrightarrow> \<not> stream_ends E stream (length (trace s) + m)"
  shows "watch_run E d (w\<lparr>watch_phase := WLoop stream\<rparr>) s =
    Some (watch_finish E w (replicate (Suc k) (CNextEvent stream) @ [CCloseEvents stream]) s)"
  using assms(2-)
proof (induction k arbitrary: s)
  case 0
  then show ?case
    by (simp add: watch_run_loop_end assms(1) channel_room_def watch_run_send watch_finish_def)
next
  case (Suc k)
  let ?s = "s\<lparr>trace := trace s @ [CNextEvent stream]\<rparr>"
  have "watch_run E d (w\<lparr>watch_phase := WLoop stream\<rparr>) s = watch_run E d (w\<lparr>watch_phase := WLoop stream\<rparr>) ?s"
    using Suc.prems(3) [of 0] by (simp add: watch_run_loop_step assms(1))
  also have "\<dots> = Some (watch_finish E w (replicate (Suc k) (CNextEvent stream) @ [CCloseEvents stream]) ?s)"
    using Suc.prems(1,2) Suc.prems(3) [of "Suc m" for m]
    by (intro Suc.IH) (simp_all add: channel_room_def)
  finally show ?case by (simp add: watch_finish_def)
qed

lemma watch_run_returns_ends:
  assumes "watch_run E d w s = Some t"
  shows "watch_phase w = WLoop stream \<longrightarrow> (\<forall>n. \<not> d n) \<longrightarrow> (\<exists>n \<ge> length (trace s). stream_ends E stream n)"
proof (rule watch_run.raw_induct [where P = "\<lambda>E d w s t. watch_phase w = WLoop stream \<longrightarrow>
    (\<forall>n. \<not> d n) \<longrightarrow> (\<exists>n \<ge> length (trace s). stream_ends E stream n)", OF _ assms], intro impI)
  fix run E d w s t
  assume IH: "\<And>E d w s t. run E d w s = Some t \<Longrightarrow> watch_phase w = WLoop stream \<longrightarrow>
      (\<forall>n. \<not> d n) \<longrightarrow> (\<exists>n \<ge> length (trace s). stream_ends E stream n)"
    and body: "(case watchBuildEvents_step E d w s of None \<Rightarrow> None | Some (None, t) \<Rightarrow> Some t
      | Some (Some w', t) \<Rightarrow> run E d w' t) = Some t"
    and phase: "watch_phase w = WLoop stream" and d: "\<forall>n. \<not> d n"
  show "\<exists>n \<ge> length (trace s). stream_ends E stream n"
  proof (cases "stream_ends E stream (length (trace s))")
    case False
    then have "watchBuildEvents_step E d w s = Some (Some w, s\<lparr>trace := trace s @ [CNextEvent stream]\<rparr>)"
      using phase d by (auto simp: watchBuildEvents_step_def run_simps stream_ends_def split: sum.splits)
    with body have "run E d w (s\<lparr>trace := trace s @ [CNextEvent stream]\<rparr>) = Some t" by simp
    from IH [OF this] phase d show ?thesis by (auto intro: Suc_leD)
  qed blast
qed

lemma watch_run_open:
  "watch_phase w = WOpen \<Longrightarrow>
   Client_BuildEvents (atc E) (length (trace s)) (watch_client w) (Itoa (watch_buildID w)) = Inr (Some stream) \<Longrightarrow>
   watch_run E d w s = watch_run E d (w\<lparr>watch_phase := WLoop stream\<rparr>)
     (s\<lparr>trace := trace s @ [CBuildEvents (watch_client w) (Itoa (watch_buildID w))]\<rparr>)"
  by (subst watch_run.simps) (simp add: watchBuildEvents_step_def run_simps)

lemma watch_run_open_failed:
  assumes "watch_phase w = WOpen" and "channel_room s"
    and "case Client_BuildEvents (atc E) (length (trace s)) (watch_client w) (Itoa (watch_buildID w)) of
           Inl _ \<Rightarrow> True | Inr st \<Rightarrow> st = None"
  shows "watch_run E d w s =
    Some (watch_finish E w [CBuildEvents (watch_client w) (Itoa (watch_buildID w))] s)"
  using assms watch_run_send [where w = w and st = None
      and s = "s\<lparr>trace := trace s @ [CBuildEvents (watch_client w) (Itoa (watch_buildID w))]\<rparr>"]
  by (subst watch_run.simps)
     (simp add: watchBuildEvents_step_def run_simps channel_room_def watch_finish_def split: sum.splits)

lemma first_end:
  assumes "\<exists>n \<ge> m. stream_ends E stream n"
  shows "\<exists>k. stream_ends E stream (m + k) \<and> (\<forall>l < k. \<not> stream_ends E stream (m + l))"
proof -
  from assms have "\<exists>k. stream_ends E stream (m + k)" by (metis le_Suc_ex)
  then show ?thesis using exists_least_iff [of "\<lambda>k. stream_ends E stream (m + k)"] by blast
qed

subsection \<open>Triggering\<close>

fun is_trigger :: "'cl call \<Rightarrow> bool" where
  "is_trigger (TCreateJobBuild cl t r j) = True"
| "is_trigger _ = False"

lemma later_stages_no_trigger:
  shows "state_io_rel (emits (\<lambda>c. \<not> is_trigger c)) (Build_not_ready E b reason msg res)"
    and "state_io_rel (emits (\<lambda>c. \<not> is_trigger c)) (abortIfAsked E cl spec st)"
    and "state_io_rel (emits (\<lambda>c. \<not> is_trigger c)) (refreshStatus E cl st)"
    and "state_io_rel (emits (\<lambda>c. \<not> is_trigger c)) (setComplete E st)"
    and "state_io_rel (emits (\<lambda>c. \<not> is_trigger c)) (startWatcher E cl b)"
proof -
  show "state_io_rel (emits (\<lambda>c. \<not> is_trigger c)) (Build_not_ready E b reason msg res)"
    unfolding Build_not_ready_def by (intro em.effect_rules emits_setCondition emits_ask; simp)
  show "state_io_rel (emits (\<lambda>c. \<not> is_trigger c)) (abortIfAsked E cl spec st)"
    unfolding abortIfAsked_def by (intro em.effect_rules emits_ask; simp)
  show "state_io_rel (emits (\<lambda>c. \<not> is_trigger c)) (refreshStatus E cl st)"
    unfolding refreshStatus_def by (intro em.effect_rules emits_ask; simp)
  show "state_io_rel (emits (\<lambda>c. \<not> is_trigger c)) (setComplete E st)"
    unfolding setComplete_def by (intro em.effect_rules emits_setCondition; simp)
  show "state_io_rel (emits (\<lambda>c. \<not> is_trigger c)) (startWatcher E cl b)"
    unfolding startWatcher_def by (intro em.effect_rules em.effect_modify) (simp add: emits_def)
qed

lemma at_most_triggerIfNew: "at_most is_trigger (Suc 0) (triggerIfNew E cl tn pn jn st)"
  unfolding triggerIfNew_def Let_def
  by (intro at_most_branches at_most_bind_first at_most_ask em.effect_rules)

lemma at_most_Build_track: "at_most is_trigger (Suc 0) (Build_track E cl tn pn jn build)"
  unfolding Build_track_def
  by (rule at_most_bind_first [OF at_most_triggerIfNew])
     (intro em.effect_rules later_stages_no_trigger emits_setCondition emits_ask; simp)

lemma emits_no_trigger_track:
  assumes "BuildStatus_BuildID (Build_Status build) \<noteq> 0"
  shows "state_io_rel (emits (\<lambda>c. \<not> is_trigger c)) (Build_track E cl tn pn jn build)"
  using assms unfolding Build_track_def triggerIfNew_def
  by (intro em.effect_rules later_stages_no_trigger emits_setCondition emits_ask) simp_all

text \<open>
  A reconciliation of a build starts at most one build in Concourse, whatever the cluster and the
  server answer, and none at all once the object records a build id.
\<close>

lemma build_triggered_at_most_once:
  "length (filter is_trigger (calls (Build_Reconcile E req) s)) \<le> 1 \<and>
   (BuildStatus_BuildID (Build_Status build) \<noteq> 0 \<longrightarrow>
    filter is_trigger (calls (Build_track E cl tn pn jn build) s) = [])"
proof
  have "at_most is_trigger (Suc 0) (Build_Reconcile E req)"
    unfolding Build_Reconcile_def Let_def
    by (intro at_most_branches at_most_bind_last emits_ask at_most_Build_track
        at_most_emits [OF later_stages_no_trigger(1)] emits_resolvers_if) simp_all
  from at_most_calls [OF this] show "length (filter is_trigger (calls (Build_Reconcile E req) s)) \<le> 1" by simp
  show "BuildStatus_BuildID (Build_Status build) \<noteq> 0 \<longrightarrow>
    filter is_trigger (calls (Build_track E cl tn pn jn build) s) = []"
    by (intro impI filter_calls_none emits_no_trigger_track)
qed

lemma ex_build_answers [simp]:
  "Team_CreateJobBuild ex_atc n cl t r j = Inr (ex_atc_build ''pending'')"
  "Client_Build ex_atc n cl i = Inr (ex_atc_build ''started'', True)"
  "atcBuild_ID (ex_atc_build st) = 42" "atcBuild_Status (ex_atc_build st) = st"
  "atcBuild_StartTime (ex_atc_build st) = 100" "atcBuild_EndTime (ex_atc_build st) = 160"
  "atcBuild_CreatedBy (ex_atc_build st) = Some ''alice''"
  "BuildStatus_BuildID (Build_Status ex_build) = 0" "BuildStatus_ConcourseStatus (Build_Status ex_build) = ''''"
  "BuildSpec_JobRef (Build_Spec ex_build) = Some (ex_ref ''unit'')" "BuildSpec_Abort (Build_Spec ex_build) = False"
  by (simp_all add: ex_atc_def ex_atc_build_def ex_build_def)

definition ex_running :: Build where
  "ex_running = ex_build\<lparr>Build_Status := (Build_Status ex_build)\<lparr>BuildStatus_BuildID := 42\<rparr>\<rparr>"

text \<open>
  A finished build is left alone: once the recorded status is one of the four terminal ones, a
  reconciliation reads the object and does nothing else, and is not scheduled again.
\<close>

lemma terminal_build_untouched:
  assumes "Get_Build (k8s E) (length (trace s)) req = Inr build"
    and "BuildStatus_ConcourseStatus (Build_Status build) \<in>
      {BuildPhaseSucceeded, BuildPhaseFailed, BuildPhaseErrored, BuildPhaseAborted}"
  shows "run_state (Build_Reconcile E req) s = (Done, s\<lparr>trace := trace s @ [KGet KBuild req]\<rparr>)"
  using assms by (auto simp: Build_Reconcile_def isTerminal_def run_simps)

subsection \<open>Tracking\<close>

definition abort_calls :: "'cl \<Rightarrow> BuildSpec \<Rightarrow> int \<Rightarrow> 'cl call list" where
  "abort_calls cl spec i = (if BuildSpec_Abort spec \<and> i \<noteq> 0 then [CAbortBuild cl (Itoa i)] else [])"

definition refresh_calls :: "'cl \<Rightarrow> int \<Rightarrow> 'cl call list" where
  "refresh_calls cl i = (if i \<noteq> 0 then [CBuild cl (Itoa i)] else [])"

text \<open>What Concourse answers at interaction \<open>n\<close> when it is asked for the build with a given id; nothing without an id.\<close>

definition build_answer :: "'cl env \<Rightarrow> 'cl \<Rightarrow> int \<Rightarrow> nat \<Rightarrow> atc_Build option" where
  "build_answer E cl i n =
     (if i = 0 then None else case Client_Build (atc E) n cl (Itoa i) of Inr (a, True) \<Rightarrow> Some a | _ \<Rightarrow> None)"

lemma run_triggerIfNew:
  "BuildStatus_BuildID st \<noteq> 0 \<Longrightarrow> run_state (triggerIfNew E cl tn pn jn st) s = (Inr st, s)"
  "BuildStatus_BuildID st = 0 \<Longrightarrow> Team_CreateJobBuild (atc E) (length (trace s)) cl tn \<lparr>PipelineRef_Name = pn\<rparr> jn = Inr a \<Longrightarrow>
   run_state (triggerIfNew E cl tn pn jn st) s =
     (Inr (st\<lparr>BuildStatus_BuildID := atcBuild_ID a, BuildStatus_BuildName := atcBuild_Name a, BuildStatus_APIURL := atcBuild_APIURL a,
        BuildStatus_StartTime := if 0 < atcBuild_StartTime a then Some (Unix (atcBuild_StartTime a)) else BuildStatus_StartTime st\<rparr>),
      s\<lparr>trace := trace s @ [TCreateJobBuild cl tn \<lparr>PipelineRef_Name = pn\<rparr> jn]\<rparr>)"
  by (auto simp: triggerIfNew_def run_simps Let_def)

lemma run_abortIfAsked [run_simps]:
  "run_state (abortIfAsked E cl spec st) s =
     ((), s\<lparr>trace := trace s @ abort_calls cl spec (BuildStatus_BuildID st)\<rparr>)"
  by (simp add: abortIfAsked_def abort_calls_def run_simps Let_def)

definition refreshed :: "atc_Build option \<Rightarrow> BuildStatus \<Rightarrow> BuildStatus" where
  "refreshed answer st =
     (case answer of
        None \<Rightarrow> st
      | Some a \<Rightarrow> st\<lparr>BuildStatus_ConcourseStatus := atcBuild_Status a,
          BuildStatus_EndTime := if 0 < atcBuild_EndTime a then Some (Unix (atcBuild_EndTime a)) else BuildStatus_EndTime st,
          BuildStatus_CreatedBy := case atcBuild_CreatedBy a of None \<Rightarrow> BuildStatus_CreatedBy st | Some c \<Rightarrow> c\<rparr>)"

lemma run_refreshStatus:
  "run_state (refreshStatus E cl st) s =
     (refreshed (build_answer E cl (BuildStatus_BuildID st) (length (trace s))) st,
      s\<lparr>trace := trace s @ refresh_calls cl (BuildStatus_BuildID st)\<rparr>)"
  by (auto simp: refreshStatus_def refresh_calls_def refreshed_def build_answer_def run_simps Let_def
      split: sum.split prod.split option.split bool.split)

text \<open>What the Complete condition has to say of a status.\<close>

definition complete_of :: "BuildStatus \<Rightarrow> ConditionStatus \<times> string \<times> string" where
  "complete_of st =
     (if isTerminal (BuildStatus_ConcourseStatus st) then (ConditionTrue, BuildStatus_ConcourseStatus st, '''')
      else if BuildStatus_BuildID st \<noteq> 0 then (ConditionFalse, ''InProgress'', '''')
      else (ConditionUnknown, ''Pending'', ''build not yet triggered''))"

lemma run_setComplete:
  "run_state (setComplete E st) s =
     (case complete_of st of (stat, reason, msg) \<Rightarrow>
        set_cond (lib E) (clock E (length (trace s))) (BuildStatus_Conditions st) ConditionComplete stat reason msg,
      s\<lparr>trace := trace s @ [Clock]\<rparr>)"
  by (simp add: setComplete_def complete_of_def run_simps)

lemma setDuration_fields [simp]:
  "BuildStatus_BuildID (setDuration st) = BuildStatus_BuildID st"
  "BuildStatus_ConcourseStatus (setDuration st) = BuildStatus_ConcourseStatus st"
  "BuildStatus_Conditions (setDuration st) = BuildStatus_Conditions st"
  "BuildStatus_StartTime (setDuration st) = BuildStatus_StartTime st"
  "BuildStatus_EndTime (setDuration st) = BuildStatus_EndTime st"
  by (simp_all add: setDuration_def split: option.split)

lemma refreshed_fields [simp]:
  "BuildStatus_BuildID (refreshed a st) = BuildStatus_BuildID st"
  "BuildStatus_StartTime (refreshed a st) = BuildStatus_StartTime st"
  "BuildStatus_Duration (refreshed a st) = BuildStatus_Duration st"
  "BuildStatus_ConcourseStatus (refreshed a st) = (case a of None \<Rightarrow> BuildStatus_ConcourseStatus st | Some b \<Rightarrow> atcBuild_Status b)"
  "BuildStatus_EndTime (refreshed a st) =
     (case a of Some b \<Rightarrow> if 0 < atcBuild_EndTime b then Some (Unix (atcBuild_EndTime b)) else BuildStatus_EndTime st
      | None \<Rightarrow> BuildStatus_EndTime st)"
  by (simp_all add: refreshed_def split: option.split)

text \<open>The rest of a reconciliation after the trigger: the calls, the status it sends, and its result.\<close>

lemma Build_track_sends:
  assumes triggered: "run_state (triggerIfNew E cl tn pn jn (Build_Status build)) s = (Inr st, u)"
    and i: "i = BuildStatus_BuildID st"
    and answer: "answer = build_answer E cl i (length (trace u) + length (abort_calls cl (Build_Spec build) i))"
  obtains b now now' where
    "trace (snd (run_state (Build_track E cl tn pn jn build) s)) =
       trace u @ abort_calls cl (Build_Spec build) i @ refresh_calls cl i @ [Clock, Clock, KStatusUpdate (OBuild b)]"
    "fst (run_state (Build_track E cl tn pn jn build) s) =
       (case Status_Build (k8s E) (length (trace u) + length (abort_calls cl (Build_Spec build) i @ refresh_calls cl i) + 2) b of
          Inl err \<Rightarrow> Failed (Wrapf ''update status'' err)
        | Inr b' \<Rightarrow> if isTerminal (BuildStatus_ConcourseStatus (Build_Status b')) then Done else Requeue (30 * Second))"
    "b = build\<lparr>Build_Status := (setDuration (refreshed answer st))
       \<lparr>BuildStatus_ObservedGeneration := Generation (Build_ObjectMeta build),
        BuildStatus_Conditions := set_cond (lib E) now'
          (case complete_of (setDuration (refreshed answer st)) of (stat, reason, msg) \<Rightarrow>
             set_cond (lib E) now (BuildStatus_Conditions (refreshed answer st)) ConditionComplete stat reason msg)
          ConditionReady ConditionTrue ''Tracked'' ''''\<rparr>\<rparr>"
proof -
  define u1 where "u1 = u\<lparr>trace := trace u @ abort_calls cl (Build_Spec build) i\<rparr>"
  define u2 where "u2 = u1\<lparr>trace := trace u1 @ refresh_calls cl i\<rparr>"
  define st1 where "st1 = refreshed answer st"
  have r1: "run_state (refreshStatus E cl st) u1 = (st1, u2)"
    by (simp add: run_refreshStatus i [symmetric] st1_def u2_def answer u1_def)
  define b where "b = build\<lparr>Build_Status := (setDuration st1)
    \<lparr>BuildStatus_ObservedGeneration := Generation (Build_ObjectMeta build),
     BuildStatus_Conditions := set_cond (lib E) (clock E (Suc (length (trace u2))))
       (case complete_of (setDuration st1) of (stat, reason, msg) \<Rightarrow>
          set_cond (lib E) (clock E (length (trace u2))) (BuildStatus_Conditions st1) ConditionComplete stat reason msg)
       ConditionReady ConditionTrue ''Tracked'' ''''\<rparr>\<rparr>"
  define v where "v = u2\<lparr>trace := trace u2 @ [Clock, Clock, KStatusUpdate (OBuild b)]\<rparr>"
  have run: "run_state (Build_track E cl tn pn jn build) s =
      run_state (case Status_Build (k8s E) (Suc (Suc (length (trace u2)))) b of
         Inl err \<Rightarrow> State_Monad.return (Failed (Wrapf ''update status'' err))
       | Inr b' \<Rightarrow> if isTerminal (BuildStatus_ConcourseStatus (Build_Status b')) then State_Monad.return Done
           else State_Monad.bind (startWatcher E cl b') (\<lambda>_. State_Monad.return (Requeue (30 * Second)))) v"
    by (simp add: Build_track_def triggered run_simps i [symmetric] u1_def [symmetric] r1 run_setComplete Let_def b_def v_def)
  have "trace (snd (run_state (Build_track E cl tn pn jn build) s)) = trace v"
    unfolding run by (simp add: startWatcher_def run_simps Let_def split: sum.split)
  moreover have "fst (run_state (Build_track E cl tn pn jn build) s) =
      (case Status_Build (k8s E) (Suc (Suc (length (trace u2)))) b of
         Inl err \<Rightarrow> Failed (Wrapf ''update status'' err)
       | Inr b' \<Rightarrow> if isTerminal (BuildStatus_ConcourseStatus (Build_Status b')) then Done else Requeue (30 * Second))"
    unfolding run by (simp split: sum.split prod.split)
  ultimately show thesis by (intro that [OF _ _ b_def [unfolded st1_def]]) (simp_all add: v_def u1_def u2_def)
qed

text \<open>
  C23: a reconciliation that has a build to track (one it knows the id of, or one Concourse starts when it is
  asked to) sends, in this order: the trigger if there was no id, an abort of exactly that build if the spec
  asks for one, a query of exactly that build, and one status. The status carries the id and the phase Concourse
  answered to that query (the phase known before if it gave no answer), records the generation and is Ready; its
  Complete condition is True with the phase as its reason if that phase is one of the four final ones, False
  while the build is in progress, and Unknown only while no id is known. Then the build is done with if the
  status that was stored has a final phase, and looked at again in 30 seconds otherwise.
\<close>

theorem build_tracking:
  assumes cond: "condition_laws (lib E)"
    and trigger: "BuildStatus_BuildID (Build_Status build) = 0 \<Longrightarrow>
      Team_CreateJobBuild (atc E) (length (trace s)) cl tn \<lparr>PipelineRef_Name = pn\<rparr> jn = Inr a"
    and i: "i = (if BuildStatus_BuildID (Build_Status build) = 0 then atcBuild_ID a else BuildStatus_BuildID (Build_Status build))"
    and before: "before =
      (if BuildStatus_BuildID (Build_Status build) = 0 then [TCreateJobBuild cl tn \<lparr>PipelineRef_Name = pn\<rparr> jn] else []) @
      (if BuildSpec_Abort (Build_Spec build) \<and> i \<noteq> 0 then [CAbortBuild cl (Itoa i)] else [])"
    and answer: "answer = build_answer E cl i (length (trace s) + length before)"
    and phase: "phase = (case answer of Some x \<Rightarrow> atcBuild_Status x | None \<Rightarrow> BuildStatus_ConcourseStatus (Build_Status build))"
    and run: "run_state (Build_track E cl tn pn jn build) s = (r, t)"
  shows "\<exists>b. trace t = trace s @ before @ (if i \<noteq> 0 then [CBuild cl (Itoa i)] else []) @ [Clock, Clock, KStatusUpdate (OBuild b)] \<and>
    BuildStatus_BuildID (Build_Status b) = i \<and> BuildStatus_ConcourseStatus (Build_Status b) = phase \<and>
    BuildStatus_ObservedGeneration (Build_Status b) = Generation (Build_ObjectMeta build) \<and>
    isReady E (BuildStatus_Conditions (Build_Status b)) \<and>
    (if phase \<in> {''succeeded'', ''failed'', ''errored'', ''aborted''}
     then reports (BuildStatus_Conditions (Build_Status b)) ConditionComplete ConditionTrue phase ''''
     else if i \<noteq> 0 then reports (BuildStatus_Conditions (Build_Status b)) ConditionComplete ConditionFalse ''InProgress'' ''''
     else reports (BuildStatus_Conditions (Build_Status b)) ConditionComplete ConditionUnknown ''Pending'' ''build not yet triggered'') \<and>
    r = (case Status_Build (k8s E) (length (trace t) - 1) b of
           Inl err \<Rightarrow> Failed (Wrapf ''update status'' err)
         | Inr b' \<Rightarrow> if BuildStatus_ConcourseStatus (Build_Status b') \<in> {''succeeded'', ''failed'', ''errored'', ''aborted''}
                      then Done else Requeue (30 * Second))"
proof -
  have final: "isTerminal ph \<longleftrightarrow> ph \<in> {''succeeded'', ''failed'', ''errored'', ''aborted''}" for ph
    by (simp add: isTerminal_def build_phases)
  obtain st u where triggered: "run_state (triggerIfNew E cl tn pn jn (Build_Status build)) s = (Inr st, u)"
    and st: "BuildStatus_BuildID st = i" "BuildStatus_ConcourseStatus st = BuildStatus_ConcourseStatus (Build_Status build)"
    and u: "trace u @ abort_calls cl (Build_Spec build) i = trace s @ before"
    using trigger by (cases "BuildStatus_BuildID (Build_Status build) = 0")
      (simp_all add: run_triggerIfNew i before abort_calls_def)
  have n: "length (trace u) + length (abort_calls cl (Build_Spec build) i) = length (trace s) + length before"
    using arg_cong [OF u, of length] by simp
  obtain b now now' where
    tr: "trace t = trace u @ abort_calls cl (Build_Spec build) i @ refresh_calls cl i @ [Clock, Clock, KStatusUpdate (OBuild b)]"
    and r: "r = (case Status_Build (k8s E) (length (trace u) + length (abort_calls cl (Build_Spec build) i @ refresh_calls cl i) + 2) b of
          Inl err \<Rightarrow> Failed (Wrapf ''update status'' err)
        | Inr b' \<Rightarrow> if isTerminal (BuildStatus_ConcourseStatus (Build_Status b')) then Done else Requeue (30 * Second))"
    and b: "b = build\<lparr>Build_Status := (setDuration (refreshed answer st))
       \<lparr>BuildStatus_ObservedGeneration := Generation (Build_ObjectMeta build),
        BuildStatus_Conditions := set_cond (lib E) now'
          (case complete_of (setDuration (refreshed answer st)) of (stat, reason, msg) \<Rightarrow>
             set_cond (lib E) now (BuildStatus_Conditions (refreshed answer st)) ConditionComplete stat reason msg)
          ConditionReady ConditionTrue ''Tracked'' ''''\<rparr>\<rparr>"
    by (rule Build_track_sends [OF triggered st(1) [symmetric] answer [folded n]]) (simp_all add: run)
  have ph: "BuildStatus_ConcourseStatus (refreshed answer st) = phase" and id: "BuildStatus_BuildID (refreshed answer st) = i"
    using st by (simp_all add: phase cong: option.case_cong)
  have cs: "isReady E (BuildStatus_Conditions (Build_Status b)) \<and>
    (if isTerminal phase then reports (BuildStatus_Conditions (Build_Status b)) ConditionComplete ConditionTrue phase ''''
     else if i \<noteq> 0 then reports (BuildStatus_Conditions (Build_Status b)) ConditionComplete ConditionFalse ''InProgress'' ''''
     else reports (BuildStatus_Conditions (Build_Status b)) ConditionComplete ConditionUnknown ''Pending'' ''build not yet triggered'')"
    using cond by (simp add: b complete_of_def laws ph id del: refreshed_fields)
  have len: "length (trace t) - 1 = length (trace u) + length (abort_calls cl (Build_Spec build) i @ refresh_calls cl i) + 2"
    by (simp add: tr)
  have tr': "trace t = trace s @ before @ refresh_calls cl i @ [Clock, Clock, KStatusUpdate (OBuild b)]"
    using u by (simp add: tr)
  have "BuildStatus_BuildID (Build_Status b) = i" "BuildStatus_ConcourseStatus (Build_Status b) = phase"
    "BuildStatus_ObservedGeneration (Build_Status b) = Generation (Build_ObjectMeta build)"
    by (simp_all add: b ph id del: refreshed_fields)
  with cs tr' r show ?thesis
    unfolding len refresh_calls_def final by (intro exI [of _ b]) simp
qed

definition ex_aborting :: Build where
  "ex_aborting = ex_running\<lparr>Build_Spec := (Build_Spec ex_build)\<lparr>BuildSpec_Abort := True\<rparr>\<rparr>"

definition ex_finished :: "ex_client env" where
  "ex_finished = ex_env\<lparr>atc := ex_atc\<lparr>Client_Build := (\<lambda>_ _ _. Inr (ex_atc_build ''aborted'', True))\<rparr>\<rparr>"

theorem build_tracking_witness:
  "\<exists>b. calls (Build_track ex_finished ex_cl ''developers'' ''hello'' ''unit'' ex_aborting) op_init =
      [CAbortBuild ex_cl (Itoa 42), CBuild ex_cl (Itoa 42), Clock, Clock, KStatusUpdate (OBuild b)] \<and>
    BuildStatus_ConcourseStatus (Build_Status b) = ''aborted'' \<and>
    reports (BuildStatus_Conditions (Build_Status b)) ConditionComplete ConditionTrue ''aborted'' '''' \<and>
    fst (run_state (Build_track ex_finished ex_cl ''developers'' ''hello'' ''unit'' ex_aborting) op_init) = Done"
proof -
  obtain r t where run: "run_state (Build_track ex_finished ex_cl ''developers'' ''hello'' ''unit'' ex_aborting) op_init = (r, t)"
    by (meson prod.exhaust)
  from build_tracking [OF _ _ refl refl refl refl run] have
    "\<exists>b. trace t = [CAbortBuild ex_cl (Itoa 42), CBuild ex_cl (Itoa 42), Clock, Clock, KStatusUpdate (OBuild b)] \<and>
      BuildStatus_ConcourseStatus (Build_Status b) = ''aborted'' \<and>
      reports (BuildStatus_Conditions (Build_Status b)) ConditionComplete ConditionTrue ''aborted'' '''' \<and> r = Done"
    by (simp add: ex_aborting_def ex_running_def ex_finished_def build_answer_def) auto
  with run show ?thesis by (simp add: calls_def)
qed

text \<open>
  C39: what a build's status shows of its times after a reconciliation. The start time is the one Concourse gave
  when it accepted the trigger, if it gave a positive one, and otherwise the one recorded before: no query
  changes it. The end time is the one Concourse gave to this reconciliation's query, if it answered with a
  positive one, and otherwise the one recorded before. The duration is written when, and only when, both are known,
  as end minus start kept in the range of a 64-bit duration: exact whenever the difference fits, and the nearest
  end of the range otherwise.
\<close>

theorem duration_recorded:
  assumes trigger: "BuildStatus_BuildID (Build_Status build) = 0 \<Longrightarrow>
      Team_CreateJobBuild (atc E) (length (trace s)) cl tn \<lparr>PipelineRef_Name = pn\<rparr> jn = Inr a"
    and i: "i = (if BuildStatus_BuildID (Build_Status build) = 0 then atcBuild_ID a else BuildStatus_BuildID (Build_Status build))"
    and answer: "answer = build_answer E cl i (length (trace s) +
      (if BuildStatus_BuildID (Build_Status build) = 0 then 1 else 0) + (if BuildSpec_Abort (Build_Spec build) \<and> i \<noteq> 0 then 1 else 0))"
    and start_time: "t0 = (if BuildStatus_BuildID (Build_Status build) = 0 \<and> 0 < atcBuild_StartTime a
      then Some (Unix (atcBuild_StartTime a)) else BuildStatus_StartTime (Build_Status build))"
    and end_time: "t1 = (case answer of Some x \<Rightarrow> if 0 < atcBuild_EndTime x then Some (Unix (atcBuild_EndTime x))
        else BuildStatus_EndTime (Build_Status build)
      | None \<Rightarrow> BuildStatus_EndTime (Build_Status build))"
  shows "\<exists>b. last (trace (snd (run_state (Build_track E cl tn pn jn build) s))) = KStatusUpdate (OBuild b) \<and>
    BuildStatus_StartTime (Build_Status b) = t0 \<and> BuildStatus_EndTime (Build_Status b) = t1 \<and>
    (case (t0, t1) of
       (Some started, Some ended) \<Rightarrow> \<exists>d. BuildStatus_Duration (Build_Status b) = Some d \<and> minDuration \<le> d \<and> d \<le> maxDuration \<and>
         (d = ended - started \<or> ended - started < minDuration \<and> d = minDuration \<or> maxDuration < ended - started \<and> d = maxDuration)
     | _ \<Rightarrow> BuildStatus_Duration (Build_Status b) = BuildStatus_Duration (Build_Status build))"
proof -
  obtain st u where triggered: "run_state (triggerIfNew E cl tn pn jn (Build_Status build)) s = (Inr st, u)"
    and st: "BuildStatus_BuildID st = i" "BuildStatus_StartTime st = t0"
      "BuildStatus_EndTime st = BuildStatus_EndTime (Build_Status build)"
      "BuildStatus_Duration st = BuildStatus_Duration (Build_Status build)"
    and u: "length (trace u) = length (trace s) + (if BuildStatus_BuildID (Build_Status build) = 0 then 1 else 0)"
    using trigger by (cases "BuildStatus_BuildID (Build_Status build) = 0") (simp_all add: run_triggerIfNew i start_time)
  have "answer = build_answer E cl i (length (trace u) + length (abort_calls cl (Build_Spec build) i))"
    by (simp add: answer u abort_calls_def)
  from Build_track_sends [OF triggered st(1) [symmetric] this] obtain b now now' where
    tr: "trace (snd (run_state (Build_track E cl tn pn jn build) s)) =
       trace u @ abort_calls cl (Build_Spec build) i @ refresh_calls cl i @ [Clock, Clock, KStatusUpdate (OBuild b)]"
    and b: "b = build\<lparr>Build_Status := (setDuration (refreshed answer st))
       \<lparr>BuildStatus_ObservedGeneration := Generation (Build_ObjectMeta build),
        BuildStatus_Conditions := set_cond (lib E) now'
          (case complete_of (setDuration (refreshed answer st)) of (stat, reason, msg) \<Rightarrow>
             set_cond (lib E) now (BuildStatus_Conditions (refreshed answer st)) ConditionComplete stat reason msg)
          ConditionReady ConditionTrue ''Tracked'' ''''\<rparr>\<rparr>" by metis
  have shown: "BuildStatus_StartTime (Build_Status b) = t0" "BuildStatus_EndTime (Build_Status b) = t1"
    by (simp_all add: b st end_time split: option.split)
  moreover have "BuildStatus_Duration (Build_Status b) =
      (case (t0, t1) of (Some x, Some y) \<Rightarrow> Some (Sub y x) | _ \<Rightarrow> BuildStatus_Duration (Build_Status build))"
    using shown by (auto simp: b setDuration_def st split: option.splits)
  ultimately show ?thesis
    using tr Sub_bounds by (intro exI [of _ b]) (auto simp: Sub_def split: option.splits)
qed

theorem duration_recorded_witness:
  "\<exists>b. last (trace (snd (run_state (Build_track ex_finished ex_cl ''developers'' ''hello'' ''unit'' ex_build) op_init))) =
     KStatusUpdate (OBuild b) \<and> BuildStatus_StartTime (Build_Status b) = Some (Unix 100) \<and>
     BuildStatus_EndTime (Build_Status b) = Some (Unix 160) \<and> BuildStatus_Duration (Build_Status b) = Some (60 * Second)"
proof -
  from duration_recorded [OF _ refl refl refl refl, of ex_build ex_finished op_init ex_cl "''developers''" "''hello''" "''unit''"
      "ex_atc_build ''pending''"]
  show ?thesis
    by (simp add: ex_finished_def build_answer_def ex_build_def)
       (auto simp: Unix_def minDuration_def maxDuration_def Second_def)
qed

text \<open>
  A build without a job reference is refused, one-off or not: the object gets Ready False with reason
  \<open>NoJobRef\<close>, nothing is read or asked of Concourse, and the request is not scheduled again.
\<close>

lemma build_without_job_refused:
  assumes cond: "condition_laws (lib E)"
    and get: "Get_Build (k8s E) (length (trace s)) req = Inr build"
    and live: "IsZero (lib E) (DeletionTimestamp (Build_ObjectMeta build))"
    and unfinished: "\<not> isTerminal (BuildStatus_ConcourseStatus (Build_Status build))"
    and nojob: "BuildSpec_JobRef (Build_Spec build) = None"
  shows "\<exists>b. run_state (Build_Reconcile E req) s =
      (Done, s\<lparr>trace := trace s @ [KGet KBuild req, Clock, KStatusUpdate (OBuild b)]\<rparr>) \<and>
    reports (BuildStatus_Conditions (Build_Status b)) ConditionReady ConditionFalse ''NoJobRef''
      ''jobRef is required for non-one-off builds''"
  using assms by (simp add: Build_Reconcile_def Build_not_ready_def run_simps laws Let_def)

subsection \<open>The watcher returns\<close>

text \<open>
  C16: a watcher whose stream was opened ends if and only if the stream at some later point fails, is
  exhausted or reports a terminal status (its context is never cancelled, and the event channel has
  room or does not exist). When it ends it has sent its build's key on the channel exactly once, closed
  the stream, and released the sentinel of its build.
\<close>

theorem watcher_ends_iff_stream_ends:
  assumes phase: "watch_phase w = WOpen" and room: "channel_room s"
    and opened: "Client_BuildEvents (atc E) (length (trace s)) (watch_client w) (Itoa (watch_buildID w)) = Inr (Some stream)"
  shows "((\<exists>t. watch_run E (\<lambda>_. False) w s = Some t) \<longleftrightarrow> (\<exists>n > length (trace s). stream_ends E stream n)) \<and>
    (\<forall>t. watch_run E (\<lambda>_. False) w s = Some t \<longrightarrow>
       (\<exists>k. t = watch_finish E w (CBuildEvents (watch_client w) (Itoa (watch_buildID w)) #
                  replicate (Suc k) (CNextEvent stream) @ [CCloseEvents stream]) s))"
proof -
  let ?d = "\<lambda>_::nat. False"
  let ?s = "s\<lparr>trace := trace s @ [CBuildEvents (watch_client w) (Itoa (watch_buildID w))]\<rparr>"
  have run: "watch_run E ?d w s = watch_run E ?d (w\<lparr>watch_phase := WLoop stream\<rparr>) ?s"
    by (rule watch_run_open [OF phase opened])
  have returns: "\<exists>k. watch_run E ?d w s = Some (watch_finish E w
      (CBuildEvents (watch_client w) (Itoa (watch_buildID w)) # replicate (Suc k) (CNextEvent stream) @ [CCloseEvents stream]) s)"
    if "\<exists>n > length (trace s). stream_ends E stream n"
  proof -
    from that have "\<exists>n \<ge> length (trace ?s). stream_ends E stream n" by (auto simp: Suc_le_eq)
    then obtain k where "stream_ends E stream (length (trace ?s) + k)"
      and "\<And>l. l < k \<Longrightarrow> \<not> stream_ends E stream (length (trace ?s) + l)"
      using first_end [of "length (trace ?s)" E stream] by metis
    from watch_run_loop [of ?d ?s E stream k w, OF _ _ this] room
    have "watch_run E ?d (w\<lparr>watch_phase := WLoop stream\<rparr>) ?s =
        Some (watch_finish E w (replicate (Suc k) (CNextEvent stream) @ [CCloseEvents stream]) ?s)"
      by (simp add: channel_room_def)
    then show ?thesis by (intro exI [of _ k]) (simp add: run watch_finish_def)
  qed
  have ends: "\<exists>n > length (trace s). stream_ends E stream n" if "watch_run E ?d w s = Some t" for t
    using watch_run_returns_ends [OF that [unfolded run], of stream] by (auto simp: Suc_le_eq)
  show ?thesis using returns ends by (metis option.inject)
qed

lemma ex_events [simp]:
  "Client_BuildEvents ex_atc n cl i = Inr (Some 9)"
  "Events_NextEvent ex_atc n st = (if n < 3 then Inr (OtherEvent ''log'') else Inr (StatusEvent ''failed''))"
  by (simp_all add: ex_atc_def)

definition ex_watcher :: "ex_client watcher" where
  "ex_watcher = \<lparr>watch_client = ex_cl, watch_buildID = 42, watch_key = ex_req, watch_phase = WOpen\<rparr>"

theorem watcher_ends_iff_stream_ends_witness:
  "\<exists>t. watch_run ex_env (\<lambda>_. False) ex_watcher op_init = Some t"
proof -
  have "stream_ends ex_env 9 3" by (simp add: stream_ends_def terminal_event_def isTerminal_def build_phases)
  then have "\<exists>n > length (trace op_init). stream_ends ex_env 9 n" by (intro exI [of _ 3]) simp
  with watcher_ends_iff_stream_ends [of ex_watcher op_init ex_env 9] show ?thesis
    by (simp add: ex_watcher_def channel_room_def)
qed

subsection \<open>A lost status\<close>

text \<open>A build object that is waiting to be started: live, not finished, of a job, and without an id.\<close>

definition waiting :: "'cl env \<Rightarrow> Build \<Rightarrow> LocalObjectReference \<Rightarrow> bool" where
  "waiting E b ref \<longleftrightarrow> IsZero (lib E) (DeletionTimestamp (Build_ObjectMeta b)) \<and>
     BuildStatus_ConcourseStatus (Build_Status b) \<notin> {''succeeded'', ''failed'', ''errored'', ''aborted''} \<and>
     BuildSpec_JobRef (Build_Spec b) = Some ref \<and> BuildStatus_BuildID (Build_Status b) = 0"

lemma lost_status_once:
  assumes get: "Get_Build (k8s E) (length (trace s)) req = Inr b" "waiting E b ref"
    and job: "Get_Job (k8s E) (Suc (length (trace s)))
        \<lparr>key_Namespace = Namespace (Build_ObjectMeta b), key_Name = LocalObjectReference_Name ref\<rparr> = Inr job"
    and resolved: "run_state (resolveClientForJob E job) (s\<lparr>trace := trace s @ [KGet KBuild req,
        KGet KJob \<lparr>key_Namespace = Namespace (Build_ObjectMeta b), key_Name = LocalObjectReference_Name ref\<rparr>]\<rparr>) = (Inr (cl, tn, pn), u)"
    and accepted: "\<And>jn. \<exists>a. Team_CreateJobBuild (atc E) (length (trace u)) cl tn \<lparr>PipelineRef_Name = pn\<rparr> jn = Inr a"
    and lost: "\<And>n x. \<exists>err. Status_Build (k8s E) n x = Inl err"
  shows "length (filter is_trigger (calls (Build_Reconcile E req) s)) = 1 \<and>
    snd (fst (run_state (Build_Reconcile E req) s)) \<noteq> None"
proof -
  define jn where "jn = default_name (JobSpec_JobName (Job_Spec job)) (Job_ObjectMeta job)"
  have fresh: "BuildStatus_BuildID (Build_Status b) = 0" and live: "\<not> isTerminal (BuildStatus_ConcourseStatus (Build_Status b))"
    using get(2) by (auto simp: waiting_def isTerminal_def build_phases)
  have run: "run_state (Build_Reconcile E req) s = run_state (Build_track E cl tn pn jn b) u"
    using get job resolved live
    by (simp add: Build_Reconcile_def waiting_def run_simps Let_def jn_def default_name_def)
  obtain a where a: "Team_CreateJobBuild (atc E) (length (trace u)) cl tn \<lparr>PipelineRef_Name = pn\<rparr> jn = Inr a"
    using accepted by blast
  let ?c = "TCreateJobBuild cl tn \<lparr>PipelineRef_Name = pn\<rparr> jn"
  obtain st v where triggered: "run_state (triggerIfNew E cl tn pn jn (Build_Status b)) u = (Inr st, v)" and v: "trace v = trace u @ [?c]"
    using run_triggerIfNew(2) [OF fresh a] by auto
  obtain x where tr: "trace (snd (run_state (Build_track E cl tn pn jn b) u)) = trace v @
      abort_calls cl (Build_Spec b) (BuildStatus_BuildID st) @ refresh_calls cl (BuildStatus_BuildID st) @ [Clock, Clock, KStatusUpdate (OBuild x)]"
    and res: "snd (fst (run_state (Build_track E cl tn pn jn b) u)) \<noteq> None"
  proof (rule Build_track_sends [OF triggered refl refl], goal_cases)
    case (1 x now now')
    obtain err where "Status_Build (k8s E) (length (trace v) + length (abort_calls cl (Build_Spec b) (BuildStatus_BuildID st) @
        refresh_calls cl (BuildStatus_BuildID st)) + 2) x = Inl err" using lost by blast
    with 1 show ?case by simp
  qed
  have "state_io_rel (emits (\<lambda>c. \<not> is_trigger c)) (resolveClientForJob E job)" by (intro emits_resolvers_if) simp_all
  from emits_run [OF this resolved] obtain cs where
    "trace u = trace s @ [KGet KBuild req, KGet KJob \<lparr>key_Namespace = Namespace (Build_ObjectMeta b), key_Name = LocalObjectReference_Name ref\<rparr>] @ cs"
    "filter is_trigger cs = []" by (auto simp: emits_def list_all_iff filter_empty_conv)
  with tr res v show ?thesis
    by (simp add: run calls_def abort_calls_def refresh_calls_def)
qed

text \<open>
  C40: the build id is remembered in the object's status only. As long as the API server refuses every update
  of that status and goes on showing the object as one that waits to be started, while its job is found and
  resolves and Concourse accepts triggers, each reconciliation fails, so that it is retried, and starts
  another build: \<open>k\<close> of them leave \<open>k\<close> builds of the job for the one object.
\<close>

theorem lost_status_triggers_again:
  assumes lost: "\<And>n x. \<exists>err. Status_Build (k8s E) n x = Inl err"
    and get: "\<And>n. \<exists>b ref. Get_Build (k8s E) n req = Inr b \<and> waiting E b ref"
    and job: "\<And>n key. \<exists>job. Get_Job (k8s E) n key = Inr job"
    and resolved: "\<And>n key job s. Get_Job (k8s E) n key = Inr job \<Longrightarrow> \<exists>x u. run_state (resolveClientForJob E job) s = (Inr x, u)"
    and accepted: "\<And>n cl tn p jn. \<exists>a. Team_CreateJobBuild (atc E) n cl tn p jn = Inr a"
    and t: "t = run_requests (Build_Reconcile E) (replicate k req) s"
  shows "length (filter is_trigger (trace t)) = length (filter is_trigger (trace s)) + k \<and>
    snd (fst (run_state (Build_Reconcile E req) s)) \<noteq> None"
proof -
  have once: "length (filter is_trigger (calls (Build_Reconcile E req) s)) = 1 \<and>
      snd (fst (run_state (Build_Reconcile E req) s)) \<noteq> None" for s
  proof -
    obtain b ref where b: "Get_Build (k8s E) (length (trace s)) req = Inr b" "waiting E b ref" using get by blast
    let ?key = "\<lparr>key_Namespace = Namespace (Build_ObjectMeta b), key_Name = LocalObjectReference_Name ref\<rparr>"
    obtain j where j: "Get_Job (k8s E) (Suc (length (trace s))) ?key = Inr j" using job by blast
    obtain cl tn pn u where
      "run_state (resolveClientForJob E j) (s\<lparr>trace := trace s @ [KGet KBuild req, KGet KJob ?key]\<rparr>) = (Inr (cl, tn, pn), u)"
      using resolved [OF j] by (metis prod_cases3)
    from lost_status_once [OF b j this accepted lost] show ?thesis .
  qed
  have grows: "length (filter is_trigger (trace (snd (run_state (Build_Reconcile E req) s)))) =
      Suc (length (filter is_trigger (trace s)))" for s
  proof -
    obtain cs where "trace (snd (run_state (Build_Reconcile E req) s)) = trace s @ cs" using br.run_trace [of E "[req]" s] by auto
    with once [of s] show ?thesis by (simp add: calls_def)
  qed
  have "length (filter is_trigger (trace (run_requests (Build_Reconcile E) (replicate k req) s))) = length (filter is_trigger (trace s)) + k"
    by (induction k arbitrary: s) (simp_all add: grows)
  with once t show ?thesis by blast
qed

definition ex_lost :: "ex_client env" where
  "ex_lost = ex_env\<lparr>k8s := ex_k8s\<lparr>Status_Build := (\<lambda>_ _. Inl (ApiError False ''conflict''))\<rparr>\<rparr>"

lemma ex_lost_resolves: "\<exists>x u. run_state (resolveClientForJob ex_lost ex_job) s = (Inr x, u)"
  (is "\<exists>x u. ?run = (Inr x, u)")
proof (cases "Cache_Get (store s) ex_instance")
  case None
  then have "\<exists>u. ?run = (Inr (ex_cl, ''developers'', ''hello''), u)" by (subst ex_resolveClientForJob) (simp_all add: ex_lost_def)
  then show ?thesis by blast
next
  case (Some cl)
  then have "\<exists>u. ?run = (Inr (cl, ''developers'', ''hello''), u)" by (subst ex_resolveClientForJob_hit) (simp_all add: ex_lost_def)
  then show ?thesis by blast
qed

theorem lost_status_triggers_again_witness:
  "length (filter is_trigger (trace (run_requests (Build_Reconcile ex_lost) [ex_req, ex_req, ex_req] op_init))) = 3"
proof -
  have "\<exists>b ref. Get_Build (k8s ex_lost) n ex_req = Inr b \<and> waiting ex_lost b ref" for n
    by (simp add: ex_lost_def waiting_def)
  moreover have "\<exists>x u. run_state (resolveClientForJob ex_lost job) s = (Inr x, u)" if "Get_Job (k8s ex_lost) n key = Inr job" for n key job s
    using that ex_lost_resolves by (simp add: ex_lost_def)
  ultimately show ?thesis
    using lost_status_triggers_again [of ex_lost ex_req _ 3 op_init, OF _ _ _ _ _ refl]
    by (simp add: ex_lost_def numeral_3_eq_3)
qed

end
