(* ===== verification/Resource_Controller.thy ===== *)
theory Resource_Controller
  imports Example_Env
begin

section \<open>The resource controller (resource_controller.go)\<close>

text \<open>
  \<open>ResourceReconciler\<close> of \<open>internal/controller/resource_controller.go\<close>: periodic checks of a
  resource and the latest version seen.
\<close>

text \<open>\<open>shouldCheck\<close> reads the clock (\<open>time.Since\<close>) only when there is a previous check to compare with.\<close>

definition shouldCheck :: "'cl env \<Rightarrow> Resource \<Rightarrow> ('cl, bool) op" where
  "shouldCheck E resource =
     (case ResourceSpec_CheckInterval (Resource_Spec resource) of
        None \<Rightarrow> State_Monad.return False
      | Some interval \<Rightarrow>
          (case ResourceStatus_LastChecked (Resource_Status resource) of
             None \<Rightarrow> State_Monad.return True
           | Some lastChecked \<Rightarrow> do {
               now \<leftarrow> Now E;
               State_Monad.return (Sub now lastChecked \<ge> interval)
             }))"

definition fetchLatestVersion ::
  "'cl env \<Rightarrow> 'cl \<Rightarrow> string \<Rightarrow> string \<Rightarrow> string \<Rightarrow> ResourceStatus \<Rightarrow> ('cl, ResourceStatus \<times> go_error option) op" where
  "fetchLatestVersion E cl teamName pipelineName resourceName st = do {
     let ref = \<lparr>PipelineRef_Name = pipelineName\<rparr>;
     r \<leftarrow> ask (TResourceVersions cl teamName ref resourceName 1)
            (\<lambda>n. Team_ResourceVersions (atc E) n cl teamName ref resourceName 1);
     case r of
       Inl err \<Rightarrow> State_Monad.return (st, Some err)
     | Inr (versions, found) \<Rightarrow>
         (case versions of
            latest # _ \<Rightarrow>
              if \<not> found then State_Monad.return (st, None)
              else State_Monad.return (st\<lparr>ResourceStatus_LatestVersion := latest\<rparr>, None)
          | [] \<Rightarrow> State_Monad.return (st, None))
   }"

definition Resource_not_ready :: "'cl env \<Rightarrow> Resource \<Rightarrow> string \<Rightarrow> string \<Rightarrow> ('cl, reconcile_result) op" where
  "Resource_not_ready E resource reason message = do {
     cs \<leftarrow> setCondition E (ResourceStatus_Conditions (Resource_Status resource)) ConditionReady ConditionFalse
             reason message;
     let resource = resource\<lparr>Resource_Status := (Resource_Status resource)\<lparr>ResourceStatus_Conditions := cs\<rparr>\<rparr>;
     _ \<leftarrow> ask (KStatusUpdate (OResource resource)) (\<lambda>n. Status_Resource (k8s E) n resource);
     State_Monad.return (Requeue (30 * Second))
   }"

definition checkResource ::
  "'cl env \<Rightarrow> 'cl \<Rightarrow> string \<Rightarrow> string \<Rightarrow> string \<Rightarrow> Resource \<Rightarrow> ('cl, ResourceStatus) op" where
  "checkResource E cl teamName pipelineName resourceName resource = do {
     let st = Resource_Status resource;
     due \<leftarrow> shouldCheck E resource;
     if due then do {
       let version = (if length (ResourceSpec_PinnedVersion (Resource_Spec resource)) > 0
                      then ResourceSpec_PinnedVersion (Resource_Spec resource) else []);
       let ref = \<lparr>PipelineRef_Name = pipelineName\<rparr>;
       e \<leftarrow> ask (TCheckResource cl teamName ref resourceName version False)
              (\<lambda>n. Team_CheckResource (atc E) n cl teamName ref resourceName version False);
       case e of
         Some err \<Rightarrow> do {
           cs \<leftarrow> setCondition E (ResourceStatus_Conditions st) ConditionCheckHealthy ConditionFalse
                   ''CheckFailed'' (Error err);
           State_Monad.return (st\<lparr>ResourceStatus_Conditions := cs\<rparr>)
         }
       | None \<Rightarrow> do {
           now \<leftarrow> Now E;
           cs \<leftarrow> setCondition E (ResourceStatus_Conditions st) ConditionCheckHealthy ConditionTrue
                   ''CheckSucceeded'' '''';
           State_Monad.return (st\<lparr>ResourceStatus_LastChecked := Some now, ResourceStatus_Conditions := cs\<rparr>)
         }
     }
     else if ResourceStatus_LastChecked st = None then do {
       cs \<leftarrow> setCondition E (ResourceStatus_Conditions st) ConditionCheckHealthy ConditionUnknown
               ''CheckPending'' ''check not yet triggered'';
       State_Monad.return (st\<lparr>ResourceStatus_Conditions := cs\<rparr>)
     }
     else State_Monad.return st
   }"

text \<open>The part of \<open>Reconcile\<close> that follows a successful resolution.\<close>

definition Resource_track ::
  "'cl env \<Rightarrow> 'cl \<Rightarrow> string \<Rightarrow> Pipeline \<Rightarrow> Resource \<Rightarrow> ('cl, reconcile_result) op" where
  "Resource_track E cl teamName pipeline resource = do {
     let pipelineName = PipelineSpec_PipelineName (Pipeline_Spec pipeline);
     let pipelineName = (if pipelineName = '''' then Name (Pipeline_ObjectMeta pipeline) else pipelineName);
     let resourceName = ResourceSpec_ResourceName (Resource_Spec resource);
     let resourceName = (if resourceName = '''' then Name (Resource_ObjectMeta resource) else resourceName);
     st \<leftarrow> checkResource E cl teamName pipelineName resourceName resource;
     (st, err) \<leftarrow> fetchLatestVersion E cl teamName pipelineName resourceName st;
     let st = st\<lparr>ResourceStatus_ObservedGeneration := Generation (Resource_ObjectMeta resource)\<rparr>;
     cs \<leftarrow> setCondition E (ResourceStatus_Conditions st) ConditionReady ConditionTrue ''Ready'' '''';
     let resource = resource\<lparr>Resource_Status := st\<lparr>ResourceStatus_Conditions := cs\<rparr>\<rparr>;
     u \<leftarrow> ask (KStatusUpdate (OResource resource)) (\<lambda>n. Status_Resource (k8s E) n resource);
     case u of
       Inl err \<Rightarrow> State_Monad.return (Failed (Wrapf ''update status'' err))
     | Inr resource \<Rightarrow>
         State_Monad.return (Requeue
           (case ResourceSpec_CheckInterval (Resource_Spec resource) of
              None \<Rightarrow> 5 * Minute
            | Some interval \<Rightarrow> interval))
   }"

definition Resource_Reconcile :: "'cl env \<Rightarrow> ObjectKey \<Rightarrow> ('cl, reconcile_result) op" where
  "Resource_Reconcile E req = do {
     r \<leftarrow> ask (KGet KResource req) (\<lambda>n. Get_Resource (k8s E) n req);
     case r of
       Inl err \<Rightarrow> State_Monad.return (Result0, IgnoreNotFound (lib E) err)
     | Inr resource \<Rightarrow>
         if \<not> IsZero (lib E) (DeletionTimestamp (Resource_ObjectMeta resource)) then State_Monad.return Done
         else do {
           let key = \<lparr>key_Namespace = Namespace (Resource_ObjectMeta resource),
                      key_Name = LocalObjectReference_Name (ResourceSpec_PipelineRef (Resource_Spec resource))\<rparr>;
           p \<leftarrow> ask (KGet KPipeline key) (\<lambda>n. Get_Pipeline (k8s E) n key);
           case p of
             Inl err \<Rightarrow> State_Monad.return (Result0, IgnoreNotFound (lib E) err)
           | Inr pipeline \<Rightarrow>
               if \<not> isReady E (PipelineStatus_Conditions (Pipeline_Status pipeline))
               then Resource_not_ready E resource ''PipelineNotReady'' ''pipeline is not ready''
               else do {
                 c \<leftarrow> resolveClientForPipeline E pipeline;
                 case c of
                   Inl err \<Rightarrow> Resource_not_ready E resource ''ChainNotReady'' (Error err)
                 | Inr (cl, teamName) \<Rightarrow> Resource_track E cl teamName pipeline resource
               }
         }
   }"

subsection \<open>Interface\<close>

interpretation rr: passive_reconciler E KResource "Resource_Reconcile E" for E :: "'cl env"
proof
  fix req :: ObjectKey
  note defs = Resource_Reconcile_def Resource_track_def shouldCheck_def fetchLatestVersion_def Resource_not_ready_def checkResource_def
  show "reads_first KResource req (Resource_Reconcile E req)"
    unfolding defs by (intro reads_firstI appends_rules) simp_all
  show "state_io_rel (keeps goroutines) (Resource_Reconcile E req)"
    unfolding defs by (intro goroutine_rules) simp_all
  assume "valid_names E"
  then show "state_io_rel (preserves (cache_ok E)) (Resource_Reconcile E req)"
    unfolding defs by (intro cache_rules) (simp_all)
qed

subsection \<open>Checks\<close>

text \<open>A check is due at a given time: there is an interval, and it has passed since the last check.\<close>

definition check_due :: "Resource \<Rightarrow> go_time \<Rightarrow> bool" where
  "check_due r now \<longleftrightarrow>
     (case ResourceSpec_CheckInterval (Resource_Spec r) of
        None \<Rightarrow> False
      | Some i \<Rightarrow> (case ResourceStatus_LastChecked (Resource_Status r) of
          None \<Rightarrow> True
        | Some t \<Rightarrow> i \<le> now - t))"

text \<open>Durations are 64-bit integers; the smallest one cannot be told from an underflow.\<close>

definition valid_interval :: "Resource \<Rightarrow> bool" where
  "valid_interval r \<longleftrightarrow>
     (case ResourceSpec_CheckInterval (Resource_Spec r) of
        None \<Rightarrow> True | Some i \<Rightarrow> minDuration < i \<and> i \<le> maxDuration)"

lemma shouldCheck_due:
  "valid_interval r \<Longrightarrow> fst (run_state (shouldCheck E r) s) = check_due r (clock E (length (trace s)))"
  by (auto simp: shouldCheck_def check_due_def valid_interval_def run_simps Sub_ge_iff split: option.splits)

fun is_check :: "'cl call \<Rightarrow> bool" where
  "is_check (TCheckResource cl t r n v b) = True"
| "is_check _ = False"

lemma appends_shouldCheck: "state_io_rel (emits (\<lambda>c. \<not> is_check c)) (shouldCheck E r)"
  unfolding shouldCheck_def by (intro em.effect_rules emits_Now; simp)

lemma check_calls:
  assumes "valid_interval r"
  shows "filter is_check (calls (checkResource E cl tn pn rn r) s) =
    (if check_due r (clock E (length (trace s)))
     then [TCheckResource cl tn \<lparr>PipelineRef_Name = pn\<rparr> rn (ResourceSpec_PinnedVersion (Resource_Spec r)) False] else [])"
proof -
  obtain due u where run: "run_state (shouldCheck E r) s = (due, u)" by (meson prod.exhaust)
  have due: "due = check_due r (clock E (length (trace s)))"
    using shouldCheck_due [OF assms, of E s] run by simp
  have pinned: "(if length v > 0 then v else []) = v" for v :: version_map by simp
  have nochecks: "filter is_check (calls (shouldCheck E r) s) = []"
    by (rule filter_calls_none [OF appends_shouldCheck])
  show ?thesis
    unfolding checkResource_def Let_def pinned
    apply (subst filter_calls_bind [OF appends_emits [OF appends_shouldCheck] _ run])
     apply (intro appends_rules; simp)
    apply (cases due)
     apply (simp add: nochecks due [symmetric])
     apply (subst filter_calls_ask_first)
      apply (intro em.effect_rules emits_Now emits_setCondition; simp)
     apply simp
    apply (simp add: nochecks due [symmetric])
    apply (intro impI filter_calls_none em.effect_rules emits_setCondition)
    apply simp
    done
qed

text \<open>
  C31: Concourse is asked to check a resource exactly when a check is due: never without an interval, at
  once when the resource was never checked, and otherwise when at least the interval has passed since
  the last successful check; then once, from the pinned version if the spec has one.
\<close>

theorem check_iff_interval_elapsed:
  assumes "valid_interval r"
  shows "filter is_check (calls (Resource_track E cl tn p r) s) =
    (if check_due r (clock E (length (trace s)))
     then [TCheckResource cl tn
             \<lparr>PipelineRef_Name = default_name (PipelineSpec_PipelineName (Pipeline_Spec p)) (Pipeline_ObjectMeta p)\<rparr>
             (default_name (ResourceSpec_ResourceName (Resource_Spec r)) (Resource_ObjectMeta r))
             (ResourceSpec_PinnedVersion (Resource_Spec r)) False]
     else [])"
proof -
  let ?pn = "default_name (PipelineSpec_PipelineName (Pipeline_Spec p)) (Pipeline_ObjectMeta p)"
  let ?rn = "default_name (ResourceSpec_ResourceName (Resource_Spec r)) (Resource_ObjectMeta r)"
  have app: "appends (checkResource E cl tn pn rn r)" for pn rn
    unfolding checkResource_def shouldCheck_def by (intro appends_rules; simp)
  have "filter is_check (calls (Resource_track E cl tn p r) s) = filter is_check (calls (checkResource E cl tn ?pn ?rn r) s)"
    unfolding Resource_track_def Let_def default_name_def fetchLatestVersion_def
    by (rule filter_calls_first [OF app]) (intro em.effect_rules emits_setCondition emits_ask; simp)
  then show ?thesis by (simp only: check_calls [OF assms])
qed

theorem check_iff_interval_elapsed_witness:
  "filter is_check (calls (Resource_track ex_env ex_cl ''developers'' ex_pipeline ex_resource) op_init) =
     [TCheckResource ex_cl ''developers'' \<lparr>PipelineRef_Name = ''hello''\<rparr> ''repo'' [(''ref'', ''c0ffee'')] False]"
  using check_iff_interval_elapsed [of ex_resource ex_env ex_cl "''developers''" ex_pipeline op_init]
  by (simp add: valid_interval_def check_due_def ex_resource_def default_name_def minDuration_def maxDuration_def
      Minute_def Second_def)

text \<open>What the stages leave of the pin fields.\<close>

definition same_pin :: "ResourceStatus \<Rightarrow> ResourceStatus \<Rightarrow> bool" where
  "same_pin st st' \<longleftrightarrow> ResourceStatus_Pinned st' = ResourceStatus_Pinned st \<and>
     ResourceStatus_PinnedVersionID st' = ResourceStatus_PinnedVersionID st"

lemma pin_checkResource:
  assumes "st' \<in> set_state (checkResource E cl tn pn rn r)"
  shows "same_pin (Resource_Status r) st'"
proof -
  have "returns (same_pin (Resource_Status r)) (checkResource E cl tn pn rn r)"
    unfolding checkResource_def by (intro returns_rules) (simp_all add: same_pin_def)
  from returns_set_state [OF this assms] show ?thesis .
qed

lemma pin_fetchLatestVersion:
  assumes "(st', e) \<in> set_state (fetchLatestVersion E cl tn pn rn st)"
  shows "same_pin st st'"
proof -
  have "returns (\<lambda>x. same_pin st (fst x)) (fetchLatestVersion E cl tn pn rn st)"
    unfolding fetchLatestVersion_def
    by (intro returns_rules) (auto simp: same_pin_def returns_def split: list.split)
  from returns_set_state [OF this assms] show ?thesis by simp
qed

fun pin_kept :: "Resource \<Rightarrow> 'cl call \<Rightarrow> bool" where
  "pin_kept r (KStatusUpdate (OResource r')) = same_pin (Resource_Status r) (Resource_Status r')"
| "pin_kept r _ = True"

text \<open>
  Pinning a version has no effect beyond the version a check starts from: whatever the spec pins and
  whatever Concourse answers, no status the reconciler sends ever changes \<open>Pinned\<close> or \<open>PinnedVersionID\<close>.
\<close>

lemma pin_never_reported:
  assumes "KStatusUpdate (OResource r') \<in> set (calls (Resource_track E cl tn p r) s)"
  shows "ResourceStatus_Pinned (Resource_Status r') = ResourceStatus_Pinned (Resource_Status r) \<and>
    ResourceStatus_PinnedVersionID (Resource_Status r') = ResourceStatus_PinnedVersionID (Resource_Status r)"
proof -
  have stages: "state_io_rel (emits (pin_kept r)) (checkResource E cl tn pn rn r)"
    "state_io_rel (emits (pin_kept r)) (fetchLatestVersion E cl tn pn rn st)" for pn rn st
    unfolding checkResource_def shouldCheck_def fetchLatestVersion_def
    by (intro em.effect_rules emits_Now emits_setCondition emits_ask; simp)+
  have "state_io_rel (emits (pin_kept r)) (Resource_track E cl tn p r)"
    unfolding Resource_track_def
    by (intro em.effect_rules emits_setCondition emits_ask stages)
       (auto simp: same_pin_def dest!: pin_checkResource pin_fetchLatestVersion)
  from emits_calls [OF this assms] show ?thesis by (simp add: same_pin_def)
qed

end
