(* ===== verification/Worker_Controller.thy ===== *)
theory Worker_Controller
  imports Example_Env
begin

section \<open>The worker controller (worker_controller.go)\<close>

text \<open>
  \<open>WorkerReconciler.Reconcile\<close> of \<open>internal/controller/worker_controller.go\<close>: the lifecycle action
  asked for and the state Concourse reports.
\<close>

definition applyDesiredState :: "'cl env \<Rightarrow> 'cl \<Rightarrow> WorkerSpec \<Rightarrow> ('cl, unit) op" where
  "applyDesiredState E cl spec =
     (let workerName = WorkerSpec_WorkerName spec in
      if WorkerSpec_DesiredState spec = WorkerDesiredStateLand \<or> WorkerSpec_DesiredState spec = WorkerDesiredStateRetire
      then do {
        _ \<leftarrow> ask (CLandWorker cl workerName) (\<lambda>n. Client_LandWorker (atc E) n cl workerName);
        State_Monad.return ()
      }
      else if WorkerSpec_DesiredState spec = WorkerDesiredStatePrune
      then do {
        _ \<leftarrow> ask (CPruneWorker cl workerName) (\<lambda>n. Client_PruneWorker (atc E) n cl workerName);
        State_Monad.return ()
      }
      else State_Monad.return ())"

text \<open>The body of the loop at the worker that matches.\<close>

definition copyWorker :: "'cl env \<Rightarrow> WorkerSpec \<Rightarrow> atc_Worker \<Rightarrow> WorkerStatus \<Rightarrow> ('cl, WorkerStatus) op" where
  "copyWorker E spec w st = do {
     let st = st
       \<lparr>WorkerStatus_ActualState := atcWorker_State w,
        WorkerStatus_Platform := atcWorker_Platform w,
        WorkerStatus_Tags := atcWorker_Tags w,
        WorkerStatus_ActiveContainers := atcWorker_ActiveContainers w,
        WorkerStatus_ActiveVolumes := atcWorker_ActiveVolumes w,
        WorkerStatus_Version := atcWorker_Version w,
        WorkerStatus_Ephemeral := atcWorker_Ephemeral w,
        WorkerStatus_Team := atcWorker_Team w\<rparr>;
     let st = (if atcWorker_StartTime w > 0
               then st\<lparr>WorkerStatus_StartTime := Some (Unix (atcWorker_StartTime w))\<rparr> else st);
     cs \<leftarrow> (if atcWorker_State w = ''stalled''
           then setCondition E (WorkerStatus_Conditions st) ConditionStalled ConditionTrue ''Stalled'' ''worker is stalled''
           else setCondition E (WorkerStatus_Conditions st) ConditionStalled ConditionFalse ''NotStalled'' '''');
     let desiredState = WorkerSpec_DesiredState spec;
     let desiredState = (if desiredState = '''' then WorkerDesiredStateActive else desiredState);
     cs \<leftarrow> (if atcWorker_State w \<noteq> desiredState
           then setCondition E cs ConditionStateTransitioning ConditionTrue ''TransitionPending''
                  (''actual '' @ Quote (lib E) (atcWorker_State w) @ '', desired '' @ Quote (lib E) desiredState)
           else setCondition E cs ConditionStateTransitioning ConditionFalse ''Converged'' '''');
     State_Monad.return (st\<lparr>WorkerStatus_Conditions := cs\<rparr>)
   }"

fun copyFirstWorker :: "'cl env \<Rightarrow> WorkerSpec \<Rightarrow> atc_Worker list \<Rightarrow> WorkerStatus \<Rightarrow> ('cl, WorkerStatus) op" where
  "copyFirstWorker E spec [] st = State_Monad.return st"
| "copyFirstWorker E spec (w # ws) st =
     (if atcWorker_Name w = WorkerSpec_WorkerName spec then copyWorker E spec w st
      else copyFirstWorker E spec ws st)"

definition Worker_not_ready :: "'cl env \<Rightarrow> Worker \<Rightarrow> string \<Rightarrow> string \<Rightarrow> ('cl, reconcile_result) op" where
  "Worker_not_ready E worker reason message = do {
     cs \<leftarrow> setCondition E (WorkerStatus_Conditions (Worker_Status worker)) ConditionReady ConditionFalse reason message;
     let worker = worker\<lparr>Worker_Status := (Worker_Status worker)\<lparr>WorkerStatus_Conditions := cs\<rparr>\<rparr>;
     _ \<leftarrow> ask (KStatusUpdate (OWorker worker)) (\<lambda>n. Status_Worker (k8s E) n worker);
     State_Monad.return (Requeue (30 * Second))
   }"

text \<open>The part of \<open>Reconcile\<close> that follows the client.\<close>

definition Worker_track :: "'cl env \<Rightarrow> 'cl \<Rightarrow> Worker \<Rightarrow> ('cl, reconcile_result) op" where
  "Worker_track E cl worker = do {
     _ \<leftarrow> applyDesiredState E cl (Worker_Spec worker);
     (workers, err) \<leftarrow> ask (CListWorkers cl) (\<lambda>n. Client_ListWorkers (atc E) n cl);
     st \<leftarrow> (case err of
             Some e \<Rightarrow> State_Monad.return (Worker_Status worker)
           | None \<Rightarrow> copyFirstWorker E (Worker_Spec worker) workers (Worker_Status worker));
     let st = st\<lparr>WorkerStatus_ObservedGeneration := Generation (Worker_ObjectMeta worker)\<rparr>;
     cs \<leftarrow> setCondition E (WorkerStatus_Conditions st) ConditionReady ConditionTrue ''Ready'' '''';
     let worker = worker\<lparr>Worker_Status := st\<lparr>WorkerStatus_Conditions := cs\<rparr>\<rparr>;
     u \<leftarrow> ask (KStatusUpdate (OWorker worker)) (\<lambda>n. Status_Worker (k8s E) n worker);
     case u of
       Inl err \<Rightarrow> State_Monad.return (Failed (Wrapf ''update status'' err))
     | Inr _ \<Rightarrow> State_Monad.return (Requeue (5 * Minute))
   }"

definition Worker_Reconcile :: "'cl env \<Rightarrow> ObjectKey \<Rightarrow> ('cl, reconcile_result) op" where
  "Worker_Reconcile E req = do {
     r \<leftarrow> ask (KGet KWorker req) (\<lambda>n. Get_Worker (k8s E) n req);
     case r of
       Inl err \<Rightarrow> State_Monad.return (Result0, IgnoreNotFound (lib E) err)
     | Inr worker \<Rightarrow>
         if \<not> IsZero (lib E) (DeletionTimestamp (Worker_ObjectMeta worker)) then State_Monad.return Done
         else do {
           let key = \<lparr>key_Namespace = Namespace (Worker_ObjectMeta worker),
                      key_Name = LocalObjectReference_Name (WorkerSpec_InstanceRef (Worker_Spec worker))\<rparr>;
           i \<leftarrow> ask (KGet KInstance key) (\<lambda>n. Get_Instance (k8s E) n key);
           case i of
             Inl err \<Rightarrow> State_Monad.return (Result0, IgnoreNotFound (lib E) err)
           | Inr instance \<Rightarrow>
               if \<not> isReady E (InstanceStatus_Conditions (Instance_Status instance))
               then Worker_not_ready E worker ''InstanceNotReady'' ''instance is not ready''
               else do {
                 c \<leftarrow> GetOrBuild E instance;
                 case c of
                   Inl err \<Rightarrow> Worker_not_ready E worker ''ClientFailed'' (Error err)
                 | Inr cl \<Rightarrow> Worker_track E cl worker
               }
         }
   }"

subsection \<open>Interface\<close>

lemma copyWorker_effects:
  shows "appends (copyWorker E spec w st)"
    and "state_io_rel (keeps goroutines) (copyWorker E spec w st)"
    and "state_io_rel (preserves (cache_ok E)) (copyWorker E spec w st)"
  unfolding copyWorker_def
    apply (intro appends_rules; simp)
   apply (intro goroutine_rules; simp)
  apply (intro cache_rules; simp)
  done

lemma copyFirstWorker_effects:
  shows "appends (copyFirstWorker E spec ws st)"
    and "state_io_rel (keeps goroutines) (copyFirstWorker E spec ws st)"
    and "state_io_rel (preserves (cache_ok E)) (copyFirstWorker E spec ws st)"
  by (induction ws) (simp_all add: copyWorker_effects em.effect_return kp.effect_return pr.effect_return)

interpretation wr: passive_reconciler E KWorker "Worker_Reconcile E" for E :: "'cl env"
proof
  fix req :: ObjectKey
  note defs = Worker_Reconcile_def Worker_track_def Worker_not_ready_def applyDesiredState_def
  show "reads_first KWorker req (Worker_Reconcile E req)"
    unfolding defs by (intro reads_firstI appends_rules copyFirstWorker_effects) simp_all
  show "state_io_rel (keeps goroutines) (Worker_Reconcile E req)"
    unfolding defs by (intro goroutine_rules copyFirstWorker_effects) simp_all
  assume v: "valid_names E"
  show "state_io_rel (preserves (cache_ok E)) (Worker_Reconcile E req)"
    unfolding defs
    by (intro cache_rules copyFirstWorker_effects preserves_cache_ok_GetOrBuild)
       (use v in \<open>auto simp: valid_names_def dest!: seen_Get\<close>)
qed

subsection \<open>Lifecycle actions\<close>

lemma no_write_copyWorker: "state_io_rel (emits (\<lambda>c. \<not> concourse_write c)) (copyWorker E spec w st)"
  unfolding copyWorker_def by (intro em.effect_rules emits_setCondition; simp)

lemma no_write_copyFirstWorker: "state_io_rel (emits (\<lambda>c. \<not> concourse_write c)) (copyFirstWorker E spec ws st)"
  by (induction ws) (simp_all add: no_write_copyWorker em.effect_return)

text \<open>The write a desired state stands for.\<close>

definition worker_action :: "'cl \<Rightarrow> WorkerSpec \<Rightarrow> 'cl call list" where
  "worker_action cl spec =
     (if WorkerSpec_DesiredState spec \<in> {''land'', ''retire''} then [CLandWorker cl (WorkerSpec_WorkerName spec)]
      else if WorkerSpec_DesiredState spec = ''prune'' then [CPruneWorker cl (WorkerSpec_WorkerName spec)]
      else [])"

lemma write_applyDesiredState: "calls (applyDesiredState E cl spec) s = worker_action cl spec"
  by (simp add: applyDesiredState_def worker_action_def worker_desired_states Let_def calls_def run_simps)

text \<open>
  C32: the only change a worker's reconciliation makes in Concourse is the one its desired state asks
  for, once, on the worker the spec names: \<open>land\<close> and \<open>retire\<close> both land the worker, \<open>prune\<close> prunes it, and
  \<open>active\<close>, an empty or an unknown state change nothing. The result of the call does not matter.
\<close>

theorem worker_write_is_desired:
  "filter concourse_write (calls (Worker_track E cl worker) s) = worker_action cl (Worker_Spec worker)"
proof -
  have app: "appends (applyDesiredState E cl (Worker_Spec worker))"
    unfolding applyDesiredState_def by (intro appends_rules; simp)
  have "filter concourse_write (calls (Worker_track E cl worker) s) =
      filter concourse_write (calls (applyDesiredState E cl (Worker_Spec worker)) s)"
    unfolding Worker_track_def
    by (rule filter_calls_first [OF app])
       (intro em.effect_rules emits_setCondition emits_ask no_write_copyFirstWorker; simp)
  then show ?thesis by (simp add: write_applyDesiredState worker_action_def)
qed

subsection \<open>The reported state\<close>

lemma copyFirstWorker_find:
  "copyFirstWorker E spec ws st =
     (case List.find (\<lambda>w. atcWorker_Name w = WorkerSpec_WorkerName spec) ws of
        None \<Rightarrow> State_Monad.return st
      | Some w \<Rightarrow> copyWorker E spec w st)"
  by (induction ws) auto

text \<open>The states Concourse gives its workers, and the states a spec may ask for.\<close>

definition concourse_states :: "string set" where
  "concourse_states = {''running'', ''stalled'', ''landing'', ''landed'', ''retiring''}"

definition spec_states :: "string set" where
  "spec_states = {'''', ''active'', ''land'', ''retire'', ''prune''}"

text \<open>
  C37: the loop over Concourse's workers copies the first worker with the spec's name and no other: its
  state and platform go into the status, Stalled is True exactly when it is stalled, and if no worker
  has the name the status stays as it was. For every state Concourse gives a worker and every state a
  spec may ask for, StateTransitioning comes out True: the two vocabularies never meet, so that no
  worker is ever reported converged.
\<close>

theorem worker_state_copied:
  assumes cond: "condition_laws (lib E)" and run: "run_state (copyFirstWorker E spec ws st) s = (st', t)"
  shows "case List.find (\<lambda>w. atcWorker_Name w = WorkerSpec_WorkerName spec) ws of
      None \<Rightarrow> st' = st
    | Some w \<Rightarrow> WorkerStatus_ActualState st' = atcWorker_State w \<and> WorkerStatus_Platform st' = atcWorker_Platform w \<and>
        (IsStatusConditionTrue (lib E) (WorkerStatus_Conditions st') ConditionStalled \<longleftrightarrow> atcWorker_State w = ''stalled'') \<and>
        (atcWorker_State w \<in> concourse_states \<and> WorkerSpec_DesiredState spec \<in> spec_states \<longrightarrow>
           IsStatusConditionTrue (lib E) (WorkerStatus_Conditions st') ConditionStateTransitioning)"
proof (cases "List.find (\<lambda>w. atcWorker_Name w = WorkerSpec_WorkerName spec) ws")
  case None
  with run show ?thesis by (simp add: copyFirstWorker_find)
next
  case (Some w)
  have "atcWorker_State w \<noteq> (if WorkerSpec_DesiredState spec = '''' then WorkerDesiredStateActive else WorkerSpec_DesiredState spec)"
    if "atcWorker_State w \<in> concourse_states" "WorkerSpec_DesiredState spec \<in> spec_states"
    using that by (auto simp: concourse_states_def spec_states_def worker_desired_states)
  with Some run cond show ?thesis
    by (auto simp: copyFirstWorker_find copyWorker_def run_simps laws Let_def split: if_splits)
qed

theorem worker_state_copied_witness:
  "IsStatusConditionTrue ex_lib (WorkerStatus_Conditions (fst (run_state (copyFirstWorker ex_env (Worker_Spec ex_worker)
       [ex_atc_worker ''worker-0'' ''stalled'', ex_atc_worker ''worker-1'' ''retiring''] (Worker_Status ex_worker)) op_init)))
     ConditionStateTransitioning"
proof -
  let ?ws = "[ex_atc_worker ''worker-0'' ''stalled'', ex_atc_worker ''worker-1'' ''retiring'']"
  obtain st' t where run: "run_state (copyFirstWorker ex_env (Worker_Spec ex_worker) ?ws (Worker_Status ex_worker)) op_init = (st', t)"
    by (meson prod.exhaust)
  have find: "List.find (\<lambda>w. atcWorker_Name w = WorkerSpec_WorkerName (Worker_Spec ex_worker)) ?ws =
      Some (ex_atc_worker ''worker-1'' ''retiring'')"
    by (simp add: ex_worker_def ex_atc_worker_def)
  have "atcWorker_State (ex_atc_worker ''worker-1'' ''retiring'') \<in> concourse_states"
    and "WorkerSpec_DesiredState (Worker_Spec ex_worker) \<in> spec_states"
    by (simp_all add: ex_atc_worker_def concourse_states_def spec_states_def ex_worker_def worker_desired_states)
  with worker_state_copied [OF _ run] show ?thesis by (simp only: run find) (simp only: ex_env_sel ex_condition_laws option.case fst_conv simp_thms)
qed

end
