(* ===== verification/Cache_Concurrency.thy ===== *)
theory Cache_Concurrency
  imports Example_Env
begin

section \<open>Concurrent callers of the client cache\<close>

text \<open>
  All reconcilers share one \<open>Cache\<close> and run concurrently. Its mutex makes \<open>Get\<close>, \<open>Set\<close> and \<open>Evict\<close>
  atomic, but \<open>GetOrBuild\<close> releases it between the lookup that misses and the store, while the client is
  built. Here a caller of \<open>GetOrBuild\<close> or \<open>Evict\<close> is a little state machine whose steps are those critical
  sections and the build, and \<open>cache_step\<close> interleaves any number of callers in every possible way.
\<close>

datatype 'cl caller =
    Looking Instance
  | Building Instance
  | Storing Instance 'cl
  | Evicting Instance
  | Returned Instance "'cl go_result"
  | Evicted Instance

record 'cl shared_cache =
  mem :: "'cl cache_store"
  callers :: "nat \<rightharpoonup> 'cl caller"

inductive cache_step :: "'cl env \<Rightarrow> 'cl shared_cache \<Rightarrow> 'cl shared_cache \<Rightarrow> bool" for E where
  call_GetOrBuild: "callers c n = None \<Longrightarrow> valid_instance i \<Longrightarrow>
    cache_step E c (c\<lparr>callers := (callers c)(n \<mapsto> Looking i)\<rparr>)"
| call_Evict: "callers c n = None \<Longrightarrow> valid_instance i \<Longrightarrow>
    cache_step E c (c\<lparr>callers := (callers c)(n \<mapsto> Evicting i)\<rparr>)"
| hit: "callers c n = Some (Looking i) \<Longrightarrow> Cache_Get (mem c) i = Some cl \<Longrightarrow>
    cache_step E c (c\<lparr>callers := (callers c)(n \<mapsto> Returned i (Inr cl))\<rparr>)"
| miss: "callers c n = Some (Looking i) \<Longrightarrow> Cache_Get (mem c) i = None \<Longrightarrow>
    cache_step E c (c\<lparr>callers := (callers c)(n \<mapsto> Building i)\<rparr>)"
| build_failed: "callers c n = Some (Building i) \<Longrightarrow>
    run_state (BuildHTTPClient E (Namespace (Instance_ObjectMeta i)) (Instance_Spec i)) s = (Inl e, t) \<Longrightarrow>
    cache_step E c (c\<lparr>callers := (callers c)(n \<mapsto> Returned i (Inl e))\<rparr>)"
| build_done: "callers c n = Some (Building i) \<Longrightarrow>
    run_state (BuildHTTPClient E (Namespace (Instance_ObjectMeta i)) (Instance_Spec i)) s = (Inr h, t) \<Longrightarrow>
    cache_step E c (c\<lparr>callers := (callers c)
      (n \<mapsto> Storing i (NewConcourseClient E (InstanceSpec_URL (Instance_Spec i)) h))\<rparr>)"
| store: "callers c n = Some (Storing i cl) \<Longrightarrow>
    cache_step E c (c\<lparr>mem := Cache_Set (mem c) i cl, callers := (callers c)(n \<mapsto> Returned i (Inr cl))\<rparr>)"
| evict: "callers c n = Some (Evicting i) \<Longrightarrow>
    cache_step E c (c\<lparr>mem := Cache_Evict (mem c) i, callers := (callers c)(n \<mapsto> Evicted i)\<rparr>)"

inductive cache_reachable :: "'cl env \<Rightarrow> 'cl shared_cache \<Rightarrow> bool" for E where
  start: "cache_reachable E \<lparr>mem = NewCache, callers = Map.empty\<rparr>"
| step: "cache_reachable E c \<Longrightarrow> cache_step E c d \<Longrightarrow> cache_reachable E d"

inductive_cases cache_stepE: "cache_step E c d"

subsection \<open>The invariant\<close>

definition entry_ok :: "'cl env \<Rightarrow> Instance \<Rightarrow> 'cl \<Rightarrow> bool" where
  "entry_ok E i cl \<longleftrightarrow> (\<exists>j. valid_instance j \<and> same_version j i \<and> built_for E j cl)"

fun caller_ok :: "'cl env \<Rightarrow> 'cl caller \<Rightarrow> bool" where
  "caller_ok E (Looking i) = valid_instance i"
| "caller_ok E (Building i) = valid_instance i"
| "caller_ok E (Storing i cl) = (valid_instance i \<and> built_for E i cl)"
| "caller_ok E (Evicting i) = valid_instance i"
| "caller_ok E (Returned i (Inr cl)) = entry_ok E i cl"
| "caller_ok E (Returned i (Inl e)) = True"
| "caller_ok E (Evicted i) = True"

definition shared_ok :: "'cl env \<Rightarrow> 'cl shared_cache \<Rightarrow> bool" where
  "shared_ok E c \<longleftrightarrow> cc.single_version (mem c) \<and>
     (\<forall>i cl. valid_instance i \<longrightarrow> Cache_Get (mem c) i = Some cl \<longrightarrow> entry_ok E i cl) \<and>
     (\<forall>n p. callers c n = Some p \<longrightarrow> caller_ok E p)"

lemma shared_ok_caller: "shared_ok E c \<Longrightarrow> callers c n = Some p \<Longrightarrow> caller_ok E p"
  by (simp add: shared_ok_def)

lemma shared_ok_advance: "shared_ok E c \<Longrightarrow> caller_ok E p \<Longrightarrow> shared_ok E (c\<lparr>callers := (callers c)(n \<mapsto> p)\<rparr>)"
  by (simp add: shared_ok_def)

lemma entry_ok_own: "valid_instance i \<Longrightarrow> built_for E i cl \<Longrightarrow> entry_ok E i cl"
  by (auto simp: entry_ok_def same_version_def same_instance_def)

lemma entry_ok_version: "entry_ok E i cl \<Longrightarrow> same_version i j \<Longrightarrow> entry_ok E j cl"
  by (auto simp: entry_ok_def same_version_def same_instance_def)

lemma shared_ok_store:
  assumes "shared_ok E c" and "valid_instance i" and "built_for E i cl"
  shows "shared_ok E (c\<lparr>mem := Cache_Set (mem c) i cl\<rparr>)"
  using assms cc.single_version_put [of "mem c" i cl] entry_ok_version [OF entry_ok_own [OF assms(2,3)]]
  by (auto simp: shared_ok_def cache_simps split: if_splits)

lemma shared_ok_evict:
  assumes "shared_ok E c" and "valid_instance i"
  shows "shared_ok E (c\<lparr>mem := Cache_Evict (mem c) i\<rparr>)"
  using assms cc.single_version_drop [of "mem c" i]
  by (auto simp: shared_ok_def cache_simps split: if_splits)

lemma shared_ok_step: "cache_step E c d \<Longrightarrow> shared_ok E c \<Longrightarrow> shared_ok E d"
proof (induction rule: cache_step.induct)
  case (hit c n i cl)
  then have "caller_ok E (Returned i (Inr cl))"
    using shared_ok_caller [OF hit.prems hit.hyps(1)] by (auto simp: shared_ok_def)
  with hit.prems show ?case by (rule shared_ok_advance)
next
  case (build_done c n i s h t)
  then have "caller_ok E (Storing i (NewConcourseClient E (InstanceSpec_URL (Instance_Spec i)) h))"
    using shared_ok_caller [OF build_done.prems build_done.hyps(1)] by (auto simp: built_for_def)
  with build_done.prems show ?case by (rule shared_ok_advance)
next
  case (store c n i cl)
  have "valid_instance i" "built_for E i cl"
    using shared_ok_caller [OF store.prems store.hyps] by simp_all
  with shared_ok_advance [OF shared_ok_store [OF store.prems], of i cl "Returned i (Inr cl)" n]
  show ?case by (simp add: entry_ok_own)
next
  case (evict c n i)
  have "valid_instance i" using shared_ok_caller [OF evict.prems evict.hyps] by simp
  with shared_ok_advance [OF shared_ok_evict [OF evict.prems], of i "Evicted i" n] show ?case by simp
qed (auto intro!: shared_ok_advance dest: shared_ok_caller)

lemma shared_ok_reachable: "cache_reachable E c \<Longrightarrow> shared_ok E c"
proof (induction rule: cache_reachable.induct)
  case start
  show ?case using cc.single_version_empty by (simp add: shared_ok_def cache_simps)
next
  case (step c d)
  then show ?case by (blast intro: shared_ok_step)
qed

text \<open>
  C18: however calls of \<open>GetOrBuild\<close> and \<open>Evict\<close> interleave, the cache never holds clients for two
  versions of an instance, and every client a call returned was built from the spec of an instance with
  the namespace, name and resource version it was called with, by that call or by another.
\<close>

theorem concurrent_callers_safe:
  assumes "cache_reachable E c"
  shows "(\<forall>i j. valid_instance i \<and> valid_instance j \<and> same_instance i j \<and>
        Cache_Get (mem c) i \<noteq> None \<and> Cache_Get (mem c) j \<noteq> None \<longrightarrow> same_version i j) \<and>
    (\<forall>n i cl. callers c n = Some (Returned i (Inr cl)) \<longrightarrow>
       (\<exists>j. valid_instance j \<and> same_version j i \<and> built_for E j cl))"
proof -
  from shared_ok_reachable [OF assms] have ok: "shared_ok E c" .
  then have "cc.single_version (mem c)" by (simp add: shared_ok_def)
  moreover have "caller_ok E (Returned i (Inr cl))" if "callers c n = Some (Returned i (Inr cl))" for n i cl
    by (rule shared_ok_caller [OF ok that])
  ultimately show ?thesis unfolding cc.single_version_def entry_ok_def by (auto simp: entry_ok_def)
qed

subsection \<open>A stale entry\<close>

text \<open>A caller misses, an eviction of the same instance runs to its end, and then the caller stores.\<close>

definition race1 :: "ex_client shared_cache" where
  "race1 = \<lparr>mem = NewCache, callers = [0 \<mapsto> Building ex_instance, 1 \<mapsto> Evicting ex_instance]\<rparr>"

definition race2 :: "ex_client shared_cache" where
  "race2 = \<lparr>mem = Cache_Set (Cache_Evict NewCache ex_instance) ex_instance ex_cl,
     callers = [0 \<mapsto> Returned ex_instance (Inr ex_cl), 1 \<mapsto> Evicted ex_instance]\<rparr>"

lemma ex_valid_instance: "valid_instance ex_instance"
  by (simp add: valid_meta_def)

lemma race1_reachable: "cache_reachable ex_env race1"
proof -
  let ?c0 = "\<lparr>mem = NewCache, callers = Map.empty\<rparr> :: ex_client shared_cache"
  let ?c1 = "?c0\<lparr>callers := [0 \<mapsto> Looking ex_instance]\<rparr>"
  let ?c2 = "?c0\<lparr>callers := [0 \<mapsto> Building ex_instance]\<rparr>"
  have "cache_step ex_env ?c0 ?c1"
    using call_GetOrBuild [of ?c0 0 ex_instance ex_env] ex_valid_instance by simp
  moreover have "cache_step ex_env ?c1 ?c2"
    using miss [of ?c1 0 ex_instance ex_env] by simp
  moreover have "cache_step ex_env ?c2 race1"
    using call_Evict [of ?c2 1 ex_instance ex_env] ex_valid_instance by (simp add: race1_def)
  ultimately show ?thesis using cache_reachable.start [of ex_env] by (meson cache_reachable.step)
qed

lemma race2_reachable: "cache_reachable ex_env race2"
proof -
  let ?m = "Cache_Evict NewCache ex_instance :: ex_client cache_store"
  let ?c1 = "\<lparr>mem = ?m, callers = [0 \<mapsto> Building ex_instance, 1 \<mapsto> Evicted ex_instance]\<rparr>"
  let ?c2 = "\<lparr>mem = ?m, callers = [0 \<mapsto> Storing ex_instance ex_cl, 1 \<mapsto> Evicted ex_instance]\<rparr>"
  have "cache_step ex_env race1 ?c1"
    using evict [of race1 1 ex_instance ex_env] by (simp add: race1_def)
  moreover have "run_state (BuildHTTPClient ex_env ''ns'' (Instance_Spec ex_instance)) op_init =
      (Inr (fst (snd ex_cl)), op_init\<lparr>trace := [ex_get KSecret ''cred'']\<rparr>)"
    by (simp add: BuildHTTPClient_def buildTLSConfig_def readSecretKey_def run_simps Let_def ex_cl_def ex_get_def)
  then have "cache_step ex_env ?c1 ?c2"
    using build_done [of ?c1 0 ex_instance ex_env op_init "fst (snd ex_cl)"]
    by (simp add: NewConcourseClient_def ex_cl_def fun_upd_twist)
  moreover have "cache_step ex_env ?c2 race2"
    using store [of ?c2 0 ex_instance ex_cl ex_env] by (simp add: race2_def fun_upd_twist)
  ultimately show ?thesis using race1_reachable by (meson cache_reachable.step)
qed

text \<open>
  An eviction does not stick against a concurrent build: there is a run in which a call of
  \<open>GetOrBuild\<close> misses, \<open>Evict\<close> for the same instance starts and returns, and the call then stores its
  client, so that with no call in progress the cache still holds a client for the evicted instance.
\<close>

lemma evicted_client_may_return:
  "\<exists>c. cache_reachable ex_env c \<and>
     callers c = [0 \<mapsto> Returned ex_instance (Inr ex_cl), 1 \<mapsto> Evicted ex_instance] \<and>
     Cache_Get (mem c) ex_instance = Some ex_cl"
  by (rule exI [of _ race2]) (simp add: race2_reachable, simp add: race2_def Cache_Get_def Cache_Set_def)

theorem concurrent_callers_safe_witness:
  "\<exists>j. valid_instance j \<and> same_version j ex_instance \<and> built_for ex_env j ex_cl"
proof -
  have "callers race2 0 = Some (Returned ex_instance (Inr ex_cl))" by (simp add: race2_def)
  with concurrent_callers_safe [OF race2_reachable] show ?thesis by blast
qed

end
