(* ===== verification/Controllers.thy ===== *)
theory Controllers
  imports Instance_Controller Team_Controller Pipeline_Controller Job_Controller Build_Controller
    Resource_Controller Worker_Controller
begin

section \<open>The seven controllers together\<close>

text \<open>
  What \<open>cmd/main.go\<close> hands to the manager: the seven reconcilers as one function \<open>dispatch\<close>, which
  interprets the locale \<open>reconciler\<close>, and the discipline all of them keep when they touch what they share in
  the process: at most one client is stored or one instance evicted, and at most one watcher is started, last.
\<close>

datatype controller =
  Ctl_Instance | Ctl_Team | Ctl_Pipeline | Ctl_Job | Ctl_Build | Ctl_Resource | Ctl_Worker

fun dispatch :: "'cl env \<Rightarrow> controller \<Rightarrow> ObjectKey \<Rightarrow> ('cl, reconcile_result) op" where
  "dispatch E Ctl_Instance = Instance_Reconcile E"
| "dispatch E Ctl_Team = Team_Reconcile E"
| "dispatch E Ctl_Pipeline = Pipeline_Reconcile E"
| "dispatch E Ctl_Job = Job_Reconcile E"
| "dispatch E Ctl_Build = Build_Reconcile E"
| "dispatch E Ctl_Resource = Resource_Reconcile E"
| "dispatch E Ctl_Worker = Worker_Reconcile E"

fun kind_of :: "controller \<Rightarrow> object_kind" where
  "kind_of Ctl_Instance = KInstance"
| "kind_of Ctl_Team = KTeam"
| "kind_of Ctl_Pipeline = KPipeline"
| "kind_of Ctl_Job = KJob"
| "kind_of Ctl_Build = KBuild"
| "kind_of Ctl_Resource = KResource"
| "kind_of Ctl_Worker = KWorker"

text \<open>Every controller keeps the contract, so the manager may treat them alike.\<close>

interpretation mgr: reconciler E "kind_of ctl" "dispatch E ctl" for E :: "'cl env" and ctl :: controller
  by (cases ctl)
     (simp_all add: ir.reconciler_axioms tr.reconciler_axioms pl.reconciler_axioms jr.reconciler_axioms
       br.reconciler_axioms rr.reconciler_axioms wr.reconciler_axioms)

subsection \<open>What a reconciliation does to the cache\<close>

text \<open>
  The instance reconciler evicts when the object it reads is being deleted and still has the finalizer.
  Otherwise every controller stores at most one client, and for an instance whose lookup missed.
\<close>

definition evicting :: "'cl env \<Rightarrow> controller \<Rightarrow> ObjectKey \<Rightarrow> nat \<Rightarrow> Instance \<Rightarrow> bool" where
  "evicting E ctl req n i \<longleftrightarrow> ctl = Ctl_Instance \<and> Get_Instance (k8s E) n req = Inr i \<and>
     \<not> IsZero (lib E) (DeletionTimestamp (Instance_ObjectMeta i)) \<and>
     ContainsFinalizer (lib E) (Instance_ObjectMeta i) instanceFinalizer"

definition after :: "'cl env \<Rightarrow> controller \<Rightarrow> ObjectKey \<Rightarrow> 'cl op_state \<Rightarrow> 'cl op_state" where
  "after E ctl req s = snd (run_state (dispatch E ctl req) s)"


lemmas keeps_store_shared = keeps_ask keeps_Now keeps_setCondition

lemmas keeps_store_rules = kp.effect_rules keeps_store_shared

lemma keeps_store_copyFirstWorker: "keeps_store (copyFirstWorker E spec ws st)"
  by (induction ws) (auto simp: copyWorker_def intro!: keeps_store_rules)

lemma keeps_store_tails:
  "keeps_store (Team_not_ready E team reason e)" "keeps_store (Team_applied E team res ws)"
  "keeps_store (Pipeline_not_ready E p reason e)" "keeps_store (Pipeline_sync E cl tn pn y p)"
  "keeps_store (loadPipelineConfig E p)" "keeps_store (Job_track E cl tn pn j)"
  "keeps_store (Build_not_ready E b reason msg r)" "keeps_store (Build_track E cl tn pn jn b)"
  "keeps_store (Resource_not_ready E x reason msg)" "keeps_store (Resource_track E cl tn p x)"
  "keeps_store (Worker_not_ready E w reason msg)" "keeps_store (Worker_track E cl w)"
  "keeps_store (Instance_failed E i reason e)" "keeps_store (Instance_status E i info workers)"
  unfolding Team_not_ready_def Team_applied_def Pipeline_not_ready_def Pipeline_sync_def loadPipelineConfig_def
    applyConfig_def Pipeline_upload_failed_def syncPause_def syncExpose_def fetchMetadata_def
    Job_track_def syncJobPause_def triggerBuild_def reportLastBuild_def
    Build_not_ready_def Build_track_def triggerIfNew_def abortIfAsked_def refreshStatus_def setComplete_def
    Resource_not_ready_def Resource_track_def shouldCheck_def checkResource_def fetchLatestVersion_def
    Worker_not_ready_def Worker_track_def applyDesiredState_def Instance_failed_def Instance_status_def
  by (intro keeps_store_rules keeps_store_startWatcher keeps_store_copyFirstWorker; simp)+

lemma keeps_store_ask: "keeps_store (ask c f)"
  by (rule keeps_ask) simp

lemma stores_once_resolvers:
  "stores_once E (resolveInstanceForTeam E team)" "stores_once E (resolveClientForPipeline E p)"
  "stores_once E (resolveClientForJob E j)"
proof -
  show team: "stores_once E (resolveInstanceForTeam E team)" for team
    unfolding resolveInstanceForTeam_def Let_def
    by (intro stores_once_bind_last stores_once_branches stores_once_bind_first stores_once_GetOrBuild
        stores_once_keeps keeps_store_ask kp.effect_rules) (auto dest: seen_Get)
  show pipeline: "stores_once E (resolveClientForPipeline E p)" for p
    unfolding resolveClientForPipeline_def Let_def
    by (intro stores_once_bind_last stores_once_branches stores_once_bind_first team
        stores_once_keeps keeps_store_ask kp.effect_rules)
  show "stores_once E (resolveClientForJob E j)"
    unfolding resolveClientForJob_def Let_def
    by (intro stores_once_bind_last stores_once_branches stores_once_bind_first pipeline
        stores_once_keeps keeps_store_ask kp.effect_rules)
qed

lemmas stores_once_rules =
  stores_once_bind_last [OF keeps_store_ask] stores_once_bind_first [OF stores_once_resolvers(1)]
  stores_once_bind_first [OF stores_once_resolvers(2)] stores_once_bind_first [OF stores_once_resolvers(3)]
  stores_once_bind_first [OF stores_once_GetOrBuild] stores_once_branches

lemmas keeps_store_stages = keeps_store_tails [THEN stores_once_keeps]

lemma stores_once_finalizer:
  assumes "\<And>a. stores_once E (g a)"
  shows "stores_once E (State_Monad.bind (if b then ask c f else State_Monad.return x) g)"
  using assms by (intro stores_once_bind_last keeps_store_rules) simp_all

lemma stores_once_return: "stores_once E (State_Monad.return a)"
  by (simp add: stores_once_keeps kp.effect_return)

lemma stores_once_controllers:
  "stores_once E (Team_Reconcile E req)" "stores_once E (Pipeline_Reconcile E req)"
  "stores_once E (Job_Reconcile E req)" "stores_once E (Build_Reconcile E req)"
  "stores_once E (Resource_Reconcile E req)" "stores_once E (Worker_Reconcile E req)"
proof -
  have delete: "stores_once E (deleteTeam E team)" "stores_once E (deletePipeline E p)" for team p
    unfolding deleteTeam_def deletePipeline_def Let_def
    by (intro stores_once_rules stores_once_return keeps_store_rules; simp)+
  have apply_team: "stores_once E (Team_apply E team)" for team
    unfolding Team_apply_def Let_def
    by (intro stores_once_rules keeps_store_rules keeps_store_tails) simp_all
  show "stores_once E (Team_Reconcile E req)"
    unfolding Team_Reconcile_def Let_def
    by (intro stores_once_rules stores_once_finalizer stores_once_bind_first [OF delete(1)] stores_once_return
        apply_team keeps_store_rules) simp_all
  have apply_pipeline: "stores_once E (Pipeline_apply E p)" for p
    unfolding Pipeline_apply_def Let_def
    by (intro stores_once_rules keeps_store_rules keeps_store_tails)
  show "stores_once E (Pipeline_Reconcile E req)"
    unfolding Pipeline_Reconcile_def Let_def
    by (intro stores_once_rules stores_once_finalizer stores_once_bind_first [OF delete(2)] stores_once_return
        apply_pipeline keeps_store_rules) simp_all
  show "stores_once E (Job_Reconcile E req)"
    unfolding Job_Reconcile_def Let_def
    by (intro stores_once_rules stores_once_return keeps_store_rules keeps_store_tails) simp_all
  show "stores_once E (Build_Reconcile E req)"
    unfolding Build_Reconcile_def Let_def
    by (intro stores_once_rules stores_once_return keeps_store_stages keeps_store_rules keeps_store_tails)
  show "stores_once E (Resource_Reconcile E req)"
    unfolding Resource_Reconcile_def Let_def
    by (intro stores_once_rules stores_once_return keeps_store_stages keeps_store_rules keeps_store_tails)
  show "stores_once E (Worker_Reconcile E req)"
    unfolding Worker_Reconcile_def Let_def
    by (intro stores_once_rules stores_once_return keeps_store_stages keeps_store_rules keeps_store_tails)
       (auto dest: seen_Get)
qed

lemma stores_once_Instance_apply: "seen E i \<Longrightarrow> stores_once E (Instance_apply E i)"
  unfolding Instance_apply_def
  by (intro stores_once_rules keeps_store_rules keeps_store_tails) simp_all

lemma Instance_store:
  assumes "\<nexists>i. evicting E Ctl_Instance req (length (trace s)) i"
  shows "stored_once E s (snd (run_state (Instance_Reconcile E req) s))"
proof (cases "Get_Instance (k8s E) (length (trace s)) req")
  case (Inl err)
  then show ?thesis by (simp add: Instance_Reconcile_def run_simps stored_once_def)
next
  case (Inr i)
  let ?s = "s\<lparr>trace := trace s @ [KGet KInstance req]\<rparr>"
  have seen: "seen E i" using Inr by (auto simp: seen_def)
  let ?fin = "(if \<not> ContainsFinalizer (lib E) (Instance_ObjectMeta i) instanceFinalizer then
                 (let instance = i\<lparr>Instance_ObjectMeta :=
                        AddFinalizer (lib E) (Instance_ObjectMeta i) instanceFinalizer\<rparr>
                  in ask (KUpdate (OInstance instance)) (\<lambda>n. Update_Instance (k8s E) n instance))
                else State_Monad.return (Inr i)) :: ('a, Instance go_result) op"
  have "stores_once E (State_Monad.bind ?fin (\<lambda>f. case f of
      Inl err \<Rightarrow> State_Monad.return (Failed (Wrapf ''add finalizer'' err)) | Inr i \<Rightarrow> Instance_apply E i))"
    by (intro stores_once_bind_last stores_once_branches stores_once_return stores_once_Instance_apply)
       (auto simp: Let_def keeps_store_ask kp.effect_return seen set_state_iff [of _ "State_Monad.return x" for x]
        dest: seen_Update split: if_splits)
  then have "stored_once E ?s (snd (run_state (State_Monad.bind ?fin (\<lambda>f. case f of
      Inl err \<Rightarrow> State_Monad.return (Failed (Wrapf ''add finalizer'' err)) | Inr i \<Rightarrow> Instance_apply E i)) ?s))"
    unfolding stores_once_def by blast
  with Inr assms show ?thesis
    by (auto simp: Instance_Reconcile_def run_simps stored_once_def evicting_def)
qed

lemma after_store:
  "\<nexists>i. evicting E ctl req (length (trace s)) i \<Longrightarrow> stored_once E s (after E ctl req s)"
  using stores_once_controllers [of E req] Instance_store [of E req s]
  by (cases ctl) (simp_all add: after_def stores_once_def)

lemma after_evicting:
  "evicting E ctl req (length (trace s)) i \<Longrightarrow> store (after E ctl req s) = Cache_Evict (store s) i"
  by (auto simp: evicting_def after_def Instance_Reconcile_def run_simps Let_def split: sum.split)

subsection \<open>What a reconciliation does to the watchers\<close>

text \<open>
  Nothing a reconciliation does before it tries to start a watcher depends on the sentinels, and it tries at
  most once.
\<close>

definition oblivious :: "('cl, 'a) op \<Rightarrow> bool" where
  "oblivious m \<longleftrightarrow> (\<forall>s. \<exists>a t. \<forall>W P.
     run_state m (s\<lparr>watchers := W, spawned := P\<rparr>) = (a, t\<lparr>watchers := W, spawned := P\<rparr>))"

definition one_claim :: "'cl env \<Rightarrow> ('cl, 'a) op \<Rightarrow> bool" where
  "one_claim E m \<longleftrightarrow> (\<forall>s. \<exists>a t ws. length ws \<le> 1 \<and> (\<forall>W P.
     run_state m (s\<lparr>watchers := W, spawned := P\<rparr>) = (a, foldr (claimWatcher E) ws (t\<lparr>watchers := W, spawned := P\<rparr>))))"

lemma oblivious_return: "oblivious (State_Monad.return a)"
  by (auto simp: oblivious_def)

lemma oblivious_ask: "oblivious (ask c f)"
  unfolding oblivious_def
proof
  fix s :: "'a op_state"
  show "\<exists>a t. \<forall>W P. run_state (ask c f) (s\<lparr>watchers := W, spawned := P\<rparr>) = (a, t\<lparr>watchers := W, spawned := P\<rparr>)"
    by (rule exI [of _ "f (length (trace s))"], rule exI [of _ "s\<lparr>trace := trace s @ [c]\<rparr>"]) (simp add: run_simps)
qed

lemma oblivious_bind:
  assumes "oblivious m" and "\<And>a. oblivious (f a)"
  shows "oblivious (State_Monad.bind m f)"
  unfolding oblivious_def
proof
  fix s
  from assms(1) obtain a t where m: "run_state m (s\<lparr>watchers := W, spawned := P\<rparr>) = (a, t\<lparr>watchers := W, spawned := P\<rparr>)" for W P
    unfolding oblivious_def by blast
  from assms(2) [of a] obtain b u where f: "run_state (f a) (t\<lparr>watchers := W, spawned := P\<rparr>) = (b, u\<lparr>watchers := W, spawned := P\<rparr>)" for W P
    unfolding oblivious_def by blast
  show "\<exists>b u. \<forall>W P. run_state (State_Monad.bind m f) (s\<lparr>watchers := W, spawned := P\<rparr>) = (b, u\<lparr>watchers := W, spawned := P\<rparr>)"
    by (rule exI [of _ b], rule exI [of _ u]) (simp add: m f)
qed

lemma one_claim_bind:
  assumes "oblivious m" and "\<And>a. one_claim E (f a)"
  shows "one_claim E (State_Monad.bind m f)"
  unfolding one_claim_def
proof
  fix s
  from assms(1) obtain a t where m: "run_state m (s\<lparr>watchers := W, spawned := P\<rparr>) = (a, t\<lparr>watchers := W, spawned := P\<rparr>)" for W P
    unfolding oblivious_def by blast
  from assms(2) [of a] obtain b u ws where "length ws \<le> 1" and
    f: "run_state (f a) (t\<lparr>watchers := W, spawned := P\<rparr>) = (b, foldr (claimWatcher E) ws (u\<lparr>watchers := W, spawned := P\<rparr>))" for W P
    unfolding one_claim_def by blast
  then show "\<exists>b u ws. length ws \<le> 1 \<and> (\<forall>W P. run_state (State_Monad.bind m f) (s\<lparr>watchers := W, spawned := P\<rparr>) =
      (b, foldr (claimWatcher E) ws (u\<lparr>watchers := W, spawned := P\<rparr>)))"
    by (intro exI [of _ b] exI [of _ u] exI [of _ ws]) (simp add: m f)
qed

lemma one_claim_oblivious: "oblivious m \<Longrightarrow> one_claim E m"
  unfolding oblivious_def one_claim_def by (metis foldr_Nil id_apply le0 list.size(3))

lemma oblivious_branches:
  "(b \<Longrightarrow> oblivious m) \<Longrightarrow> (\<not> b \<Longrightarrow> oblivious n) \<Longrightarrow> oblivious (if b then m else n)"
  "(\<And>e. x = Inl e \<Longrightarrow> oblivious (f e)) \<Longrightarrow> (\<And>a. x = Inr a \<Longrightarrow> oblivious (g a)) \<Longrightarrow>
     oblivious (case x of Inl e \<Rightarrow> f e | Inr a \<Rightarrow> g a)"
  "(y = None \<Longrightarrow> oblivious k) \<Longrightarrow> (\<And>a. y = Some a \<Longrightarrow> oblivious (h a)) \<Longrightarrow>
     oblivious (case y of None \<Rightarrow> k | Some a \<Rightarrow> h a)"
  "(\<And>u v. z = (u, v) \<Longrightarrow> oblivious (q u v)) \<Longrightarrow> oblivious (case z of (u, v) \<Rightarrow> q u v)"
  by (cases x; cases y; cases z; simp)+

lemma one_claim_branches:
  "(b \<Longrightarrow> one_claim E m) \<Longrightarrow> (\<not> b \<Longrightarrow> one_claim E n) \<Longrightarrow> one_claim E (if b then m else n)"
  "(\<And>e. x = Inl e \<Longrightarrow> one_claim E (f e)) \<Longrightarrow> (\<And>a. x = Inr a \<Longrightarrow> one_claim E (g a)) \<Longrightarrow>
     one_claim E (case x of Inl e \<Rightarrow> f e | Inr a \<Rightarrow> g a)"
  "(y = None \<Longrightarrow> one_claim E k) \<Longrightarrow> (\<And>a. y = Some a \<Longrightarrow> one_claim E (h a)) \<Longrightarrow>
     one_claim E (case y of None \<Rightarrow> k | Some a \<Rightarrow> h a)"
  "(\<And>u v. z = (u, v) \<Longrightarrow> one_claim E (q u v)) \<Longrightarrow> one_claim E (case z of (u, v) \<Rightarrow> q u v)"
  by (cases x; cases y; cases z; simp)+

lemma oblivious_setCondition: "oblivious (setCondition E cs t st r m)"
  unfolding setCondition_def Now_def Let_def by (intro oblivious_bind oblivious_ask oblivious_return)

lemmas oblivious_rules =
  oblivious_return oblivious_ask oblivious_bind oblivious_branches oblivious_setCondition

lemma oblivious_BuildHTTPClient: "oblivious (BuildHTTPClient E ns spec)"
  unfolding BuildHTTPClient_def buildTLSConfig_def readSecretKey_def Let_def by (intro oblivious_rules)

lemma oblivious_GetOrBuild: "oblivious (GetOrBuild E i)"
  unfolding oblivious_def
proof
  fix s
  let ?build = "BuildHTTPClient E (Namespace (Instance_ObjectMeta i)) (Instance_Spec i)"
  obtain r t where run: "run_state ?build (s\<lparr>watchers := W, spawned := P\<rparr>) = (r, t\<lparr>watchers := W, spawned := P\<rparr>)" for W P
    using oblivious_BuildHTTPClient [of E "Namespace (Instance_ObjectMeta i)" "Instance_Spec i"]
    unfolding oblivious_def by blast
  show "\<exists>a t. \<forall>W P. run_state (GetOrBuild E i) (s\<lparr>watchers := W, spawned := P\<rparr>) = (a, t\<lparr>watchers := W, spawned := P\<rparr>)"
  proof (cases "Cache_Get (store s) i")
    case (Some cl)
    then show ?thesis by (intro exI [of _ "Inr cl"] exI [of _ s]) (simp add: GetOrBuild_def)
  next
    case None
    show ?thesis
    proof (cases r)
      case (Inl e)
      with None run show ?thesis by (intro exI [of _ "Inl e"] exI [of _ t]) (simp add: GetOrBuild_def)
    next
      case (Inr h)
      let ?cl = "NewConcourseClient E (InstanceSpec_URL (Instance_Spec i)) h"
      from None run Inr show ?thesis
        by (intro exI [of _ "Inr ?cl"] exI [of _ "t\<lparr>store := Cache_Set (store t) i ?cl\<rparr>"])
           (simp add: GetOrBuild_def run_simps Let_def)
    qed
  qed
qed

lemma oblivious_resolveClientForJob: "oblivious (resolveClientForJob E j)"
  unfolding resolveClientForJob_def resolveClientForPipeline_def resolveInstanceForTeam_def Let_def
  by (intro oblivious_rules oblivious_GetOrBuild)

lemma one_claim_startWatcher:
  "one_claim E (State_Monad.bind (startWatcher E cl build) (\<lambda>_. State_Monad.return r))"
proof (cases "BuildStatus_BuildID (Build_Status build) = 0")
  case True
  then show ?thesis by (simp add: startWatcher_def one_claim_oblivious oblivious_return)
next
  case False
  let ?w = "\<lparr>watch_client = cl, watch_buildID = BuildStatus_BuildID (Build_Status build),
    watch_key = \<lparr>key_Namespace = Namespace (Build_ObjectMeta build), key_Name = Name (Build_ObjectMeta build)\<rparr>,
    watch_phase = WOpen\<rparr>"
  show ?thesis unfolding one_claim_def
  proof
    fix s
    show "\<exists>a t ws. length ws \<le> 1 \<and> (\<forall>W P. run_state (State_Monad.bind (startWatcher E cl build) (\<lambda>_. State_Monad.return r))
        (s\<lparr>watchers := W, spawned := P\<rparr>) = (a, foldr (claimWatcher E) ws (t\<lparr>watchers := W, spawned := P\<rparr>)))"
      using False by (intro exI [of _ r] exI [of _ s] exI [of _ "[?w]"]) (simp add: startWatcher_def run_simps Let_def)
  qed
qed

lemma one_claim_Build_Reconcile: "one_claim E (Build_Reconcile E req)"
  unfolding Build_Reconcile_def Build_track_def triggerIfNew_def abortIfAsked_def refreshStatus_def setComplete_def
    Build_not_ready_def Let_def
  by (intro one_claim_startWatcher one_claim_bind one_claim_branches oblivious_rules oblivious_resolveClientForJob
      oblivious_return [THEN one_claim_oblivious])

lemma keeps_goroutines_controllers:
  "ctl \<noteq> Ctl_Build \<Longrightarrow> state_io_rel (keeps goroutines) (dispatch E ctl req)"
  by (cases ctl) (simp_all add: ir.passive_goroutines tr.passive_goroutines pl.passive_goroutines
      jr.passive_goroutines rr.passive_goroutines wr.passive_goroutines)

lemma after_claims:
  "length (spawned (after E ctl req (s\<lparr>watchers := {}, spawned := []\<rparr>))) \<le> 1 \<and>
   (\<exists>t. after E ctl req s =
     foldr (claimWatcher E) (spawned (after E ctl req (s\<lparr>watchers := {}, spawned := []\<rparr>)))
       (t\<lparr>watchers := watchers s, spawned := spawned s\<rparr>))"
proof (cases "ctl = Ctl_Build")
  case True
  from one_claim_Build_Reconcile obtain a t ws where "length ws \<le> 1" and
    run: "run_state (Build_Reconcile E req) (s\<lparr>watchers := W, spawned := P\<rparr>) =
      (a, foldr (claimWatcher E) ws (t\<lparr>watchers := W, spawned := P\<rparr>))" for W P
    unfolding one_claim_def by blast
  from \<open>length ws \<le> 1\<close> have "spawned (foldr (claimWatcher E) ws (t\<lparr>watchers := {}, spawned := []\<rparr>)) = ws"
    by (cases ws) (auto simp: claimWatcher_def Let_def)
  with run [where W = "watchers s" and P = "spawned s"] run [where W = "{}" and P = "[]"] True \<open>length ws \<le> 1\<close>
  show ?thesis by (auto simp: after_def)
next
  case False
  have "goroutines (after E ctl req u) = goroutines u" for u
    using kp.effect_run [OF keeps_goroutines_controllers [OF False]] unfolding after_def keeps_def by (metis prod.collapse)
  from this [of s] this [of "s\<lparr>watchers := {}, spawned := []\<rparr>"] show ?thesis
    by (intro conjI exI [of _ "after E ctl req s"]) (simp_all add: goroutines_def)
qed

end
