(* ===== verification/Operator.thy ===== *)
theory Operator
  imports Controllers
begin

section \<open>The running operator\<close>

text \<open>
  \<open>cmd/main.go\<close> creates one client cache, gives it to the seven reconcilers and starts the manager, which
  from then on runs reconciliations as objects change, several at a time. The operator as a whole is a
  transition system. What concurrent reconciliations share in the process is the cache and the watcher
  sentinels, and they touch them in critical sections only: the lookup and the store of \<open>GetOrBuild\<close>, \<open>Evict\<close>,
  and \<open>LoadOrStore\<close> of a sentinel. So a reconciliation in progress is what it still has to do to that memory:
  it begins with the lookup (and all its remote calls, whose answers are arbitrary anyhow), which fixes its
  remaining accesses, and performs those one at a time, with steps of other reconciliations, of watcher
  goroutines and of the manager in between.
\<close>

subsection \<open>Accesses to the process's memory\<close>

datatype 'cl access = Put Instance 'cl | Drop Instance | Claim "'cl watcher"

fun perform :: "'cl env \<Rightarrow> 'cl access \<Rightarrow> 'cl op_state \<Rightarrow> 'cl op_state" where
  "perform E (Put i cl) s = s\<lparr>store := Cache_Set (store s) i cl\<rparr>"
| "perform E (Drop i) s = s\<lparr>store := Cache_Evict (store s) i\<rparr>"
| "perform E (Claim w) s = claimWatcher E w s"

text \<open>
  The accesses of a reconciliation that begins in state \<open>s\<close>: an eviction, or a store when its lookup found no
  client and it built one; and the claim of the watcher it starts when no sentinel is in the way.
\<close>

definition claims :: "'cl env \<Rightarrow> controller \<Rightarrow> ObjectKey \<Rightarrow> 'cl op_state \<Rightarrow> 'cl access list" where
  "claims E ctl req s = map Claim (spawned (after E ctl req (s\<lparr>watchers := {}, spawned := []\<rparr>)))"

inductive accesses :: "'cl env \<Rightarrow> controller \<Rightarrow> ObjectKey \<Rightarrow> 'cl op_state \<Rightarrow> 'cl access list \<Rightarrow> bool" for E ctl req s where
  evicts: "evicting E ctl req (length (trace s)) i \<Longrightarrow> accesses E ctl req s (Drop i # claims E ctl req s)"
| looks: "\<nexists>i. evicting E ctl req (length (trace s)) i \<Longrightarrow> store (after E ctl req s) = store s \<Longrightarrow>
    accesses E ctl req s (claims E ctl req s)"
| stores: "\<nexists>i. evicting E ctl req (length (trace s)) i \<Longrightarrow> seen E i \<Longrightarrow> Cache_Get (store s) i = None \<Longrightarrow>
    store (after E ctl req s) = Cache_Set (store s) i cl \<Longrightarrow>
    accesses E ctl req s (Put i cl # claims E ctl req s)"

subsection \<open>The steps\<close>

text \<open>A goroutine's step in the list of running watchers: it is replaced, or removed when it ended.\<close>

definition watcher_moved :: "nat \<Rightarrow> 'cl watcher option \<Rightarrow> 'cl watcher list \<Rightarrow> 'cl watcher list" where
  "watcher_moved i w ws = (case w of None \<Rightarrow> take i ws @ drop (Suc i) ws | Some w' \<Rightarrow> ws[i := w'])"

text \<open>The process's memory and, for every reconciliation in progress, the accesses it has still to do.\<close>

record 'cl process =
  memory :: "'cl op_state"
  inflight :: "'cl access list list"

inductive operator_step :: "'cl env \<Rightarrow> 'cl process \<Rightarrow> 'cl process \<Rightarrow> bool" for E where
  begins: "accesses E ctl req (memory p) es \<Longrightarrow>
    operator_step E p (p\<lparr>memory := (memory p)\<lparr>trace := trace (after E ctl req (memory p))\<rparr>,
      inflight := inflight p @ [es]\<rparr>)"
| performs: "r < length (inflight p) \<Longrightarrow> inflight p ! r = e # es \<Longrightarrow>
    operator_step E p (p\<lparr>memory := perform E e (memory p), inflight := (inflight p)[r := es]\<rparr>)"
| watches: "i < length (spawned (memory p)) \<Longrightarrow>
    watchBuildEvents_step E (\<lambda>_. False) (spawned (memory p) ! i) (memory p) = Some (w, t) \<Longrightarrow>
    operator_step E p (p\<lparr>memory := t\<lparr>spawned := watcher_moved i w (spawned t)\<rparr>\<rparr>)"
| receives: "eventCh (memory p) = Some (k # q) \<Longrightarrow>
    operator_step E p (p\<lparr>memory := (memory p)\<lparr>eventCh := Some q\<rparr>\<rparr>)"

inductive operator_reachable :: "'cl env \<Rightarrow> 'cl process \<Rightarrow> bool" for E where
  start: "operator_reachable E \<lparr>memory = SetupWithManager_eventCh op_init, inflight = []\<rparr>"
| step: "operator_reachable E p \<Longrightarrow> operator_step E p q \<Longrightarrow> operator_reachable E q"

inductive_cases operator_stepE: "operator_step E p q"


subsection \<open>A reconciliation left alone\<close>

text \<open>Every reconciliation can begin, and if nothing interferes its accesses do what the handler does.\<close>

lemma accesses_exist: "\<exists>es. accesses E ctl req s es"
proof (cases "\<exists>i. evicting E ctl req (length (trace s)) i")
  case True
  then show ?thesis by (blast intro: accesses.intros)
next
  case False
  from after_store [OF False] show ?thesis
    unfolding stored_once_def by (metis False accesses.looks accesses.stores)
qed

abbreviation perform_all :: "'cl env \<Rightarrow> 'cl access list \<Rightarrow> 'cl op_state \<Rightarrow> 'cl op_state" where
  "perform_all E es s \<equiv> fold (perform E) es s"

lemma trace_foldr_claim [simp]:
  "trace (foldr (claimWatcher E) ws s) = trace s" "store (foldr (claimWatcher E) ws s) = store s"
  "eventCh (foldr (claimWatcher E) ws s) = eventCh s"
  by (induction ws) simp_all

lemma perform_claims:
  "perform_all E (claims E ctl req s) (s\<lparr>trace := trace (after E ctl req s), store := store (after E ctl req s)\<rparr>) =
   after E ctl req s"
proof -
  let ?ws = "spawned (after E ctl req (s\<lparr>watchers := {}, spawned := []\<rparr>))"
  from after_claims [of E ctl req s] obtain t where short: "length ?ws \<le> 1"
    and t: "after E ctl req s = foldr (claimWatcher E) ?ws (t\<lparr>watchers := watchers s, spawned := spawned s\<rparr>)" by blast
  have "t\<lparr>watchers := watchers s, spawned := spawned s\<rparr> =
      s\<lparr>trace := trace (after E ctl req s), store := store (after E ctl req s)\<rparr>"
    using mgr.step_channel [of E ctl req s] by (simp add: t [unfolded after_def] after_def)
  with t short show ?thesis by (cases ?ws) (auto simp: claims_def)
qed

lemma accesses_alone:
  assumes "accesses E ctl req s es"
  shows "perform_all E es (s\<lparr>trace := trace (after E ctl req s)\<rparr>) = after E ctl req s"
  using assms
proof cases
  case (evicts i)
  with perform_claims [of E ctl req s] after_evicting [of E ctl req s i] show ?thesis by simp
next
  case looks
  with perform_claims [of E ctl req s] show ?thesis by simp
next
  case (stores i cl)
  with perform_claims [of E ctl req s] show ?thesis by simp
qed

subsection \<open>Invariants\<close>

definition channel_ok :: "'cl op_state \<Rightarrow> bool" where
  "channel_ok s \<longleftrightarrow> (\<exists>q. eventCh s = Some q \<and> length q \<le> eventCh_capacity)"

text \<open>What a watcher's own step does to the rest of the state.\<close>

lemma watcher_step_effect:
  assumes "watchBuildEvents_step E d w s = Some (w', t)"
  shows "store t = store s \<and> spawned t = spawned s \<and>
    (case w' of None \<Rightarrow> watchers t = watchers s - {watch_name E w} \<and> eventCh t = eventCh s
     | Some v \<Rightarrow> watch_name E v = watch_name E w \<and> watchers t = watchers s \<and> (channel_ok s \<longrightarrow> channel_ok t))"
proof (cases "watch_phase w")
  case WOpen
  with assms show ?thesis
    by (auto simp: watchBuildEvents_step_def run_simps Let_def channel_ok_def split: sum.splits option.splits)
next
  case (WLoop st)
  with assms show ?thesis
    by (auto simp: watchBuildEvents_step_def run_simps channel_ok_def split: sum.splits if_splits)
next
  case (WSend st)
  with assms show ?thesis
    by (auto simp: watchBuildEvents_step_def enqueue_def channel_ok_def split: option.splits if_splits)
next
  case (WClose st)
  with assms show ?thesis
    by (auto simp: watchBuildEvents_step_def watch_name_def Let_def split: option.splits)
qed

lemma distinct_remove_nth:
  assumes "distinct (map f ws)" and "i < length ws"
  shows "distinct (map f (take i ws @ drop (Suc i) ws)) \<and>
    f ` set (take i ws @ drop (Suc i) ws) = f ` set ws - {f (ws ! i)}"
proof -
  have ws: "ws = take i ws @ ws ! i # drop (Suc i) ws" using assms(2) by (rule id_take_nth_drop)
  from assms(1) have "distinct (map f (take i ws @ ws ! i # drop (Suc i) ws))" by (simp flip: ws)
  moreover have "f ` set ws = f ` set (take i ws @ ws ! i # drop (Suc i) ws)" by (simp flip: ws)
  ultimately show ?thesis by (simp add: image_Un insert_Diff_if Un_Diff)
qed

lemma watch_ok_moved:
  assumes ok: "watch_ok E s" and i: "i < length (spawned s)"
    and step: "watchBuildEvents_step E d (spawned s ! i) s = Some (w, t)"
  shows "watch_ok E (t\<lparr>spawned := watcher_moved i w (spawned t)\<rparr>)"
proof (cases w)
  case None
  with watcher_step_effect [OF step] ok distinct_remove_nth [of "watch_name E" "spawned s" i] i
  show ?thesis by (simp add: watch_ok_def watcher_moved_def image_Un)
next
  case (Some v)
  with watcher_step_effect [OF step] have "map (watch_name E) ((spawned s)[i := v]) = map (watch_name E) (spawned s)"
    using i by (simp add: map_update list_update_same_conv)
  with Some watcher_step_effect [OF step] ok show ?thesis
    by (simp add: watch_ok_def watcher_moved_def)
qed

fun access_ok :: "'cl env \<Rightarrow> 'cl access \<Rightarrow> bool" where
  "access_ok E (Put i cl) = (seen E i \<and> (\<exists>j. seen E j \<and> cacheKey j = cacheKey i \<and> built_for E j cl))"
| "access_ok E (Drop i) = seen E i"
| "access_ok E (Claim w) = True"

definition process_ok :: "'cl env \<Rightarrow> 'cl process \<Rightarrow> bool" where
  "process_ok E p \<longleftrightarrow> watch_ok E (memory p) \<and> channel_ok (memory p) \<and>
     (valid_names E \<longrightarrow> cache_ok E (memory p) \<and> (\<forall>es \<in> set (inflight p). list_all (access_ok E) es))"

lemma cache_ok_perform:
  assumes "valid_names E" and "cache_ok E s" and "access_ok E e"
  shows "cache_ok E (perform E e s)"
proof (cases e)
  case (Put i cl)
  with assms obtain j where j: "seen E j" "built_for E j cl" "cacheKey j = cacheKey i" and "seen E i" by auto
  with assms(1) have valid: "valid_instance i" "valid_instance j" by (auto simp: valid_names_def)
  with j have "same_instance j i" by (auto simp: cacheKey_eq_iff same_version_def)
  then have "cache_prefix j = cache_prefix i" by (simp add: cache_prefix_def same_instance_def)
  with j(3) have "Cache_Set (store s) i cl = Cache_Set (store s) j cl" by (simp add: Cache_Set_def)
  with Put cache_ok_Cache_Set [OF assms(2) j(1) valid(2) j(2)] show ?thesis by simp
next
  case (Drop i)
  with assms show ?thesis by (simp add: cache_ok_Cache_Evict valid_names_def)
next
  case (Claim w)
  with assms show ?thesis by simp
qed

lemma goroutines_perform: "watch_ok E s \<and> channel_ok s \<Longrightarrow> watch_ok E (perform E e s) \<and> channel_ok (perform E e s)"
  by (cases e) (auto simp: watch_ok_claimWatcher channel_ok_def, auto simp: watch_ok_def)

lemma access_ok_claims: "list_all (access_ok E) (claims E ctl req s)"
  by (simp add: claims_def list.pred_map comp_def list_all_iff)

lemma access_ok_accesses:
  assumes "accesses E ctl req s es" and "valid_names E" and "cache_ok E s"
  shows "list_all (access_ok E) es"
  using assms(1)
proof cases
  case (evicts i)
  then show ?thesis by (auto simp: access_ok_claims evicting_def seen_def)
next
  case looks
  then show ?thesis by (simp add: access_ok_claims)
next
  case (stores i cl)
  have "store (after E ctl req s) (cacheKey i) = Some cl" using stores by (simp add: Cache_Set_def)
  moreover have "cache_ok E (after E ctl req s)" using mgr.step_cache [OF assms(2,3)] by (simp add: after_def)
  ultimately have "\<exists>j. seen E j \<and> cacheKey j = cacheKey i \<and> built_for E j cl" by (rule cache_okD [rotated])
  with stores show ?thesis by (simp add: access_ok_claims)
qed

lemma list_all_update_tail:
  "\<forall>es \<in> set xs. list_all P es \<Longrightarrow> r < length xs \<Longrightarrow> xs ! r = e # es \<Longrightarrow>
   P e \<and> (\<forall>ys \<in> set (xs[r := es]). list_all P ys)"
  by (metis in_set_conv_nth insertE list.pred_inject(2) set_update_subset_insert subsetD)

lemma operator_step_keeps: "operator_step E p q \<Longrightarrow> process_ok E p \<Longrightarrow> process_ok E q"
proof (induction rule: operator_step.induct)
  case (begins ctl req p es)
  then show ?case
    by (auto simp: process_ok_def watch_ok_def channel_ok_def dest: access_ok_accesses [OF begins.hyps])
next
  case (performs r p e es)
  then have "valid_names E \<Longrightarrow> access_ok E e \<and> (\<forall>ys \<in> set ((inflight p)[r := es]). list_all (access_ok E) ys)"
    by (intro list_all_update_tail) (auto simp: process_ok_def)
  with performs goroutines_perform [of E "memory p" e] cache_ok_perform [of E "memory p" e] show ?case
    by (auto simp: process_ok_def)
next
  case (watches i p w t)
  then have "watch_ok E (t\<lparr>spawned := watcher_moved i w (spawned t)\<rparr>)"
    by (auto simp: process_ok_def intro: watch_ok_moved)
  with watches watcher_step_effect [OF watches.hyps(2)] show ?case
    by (auto simp: process_ok_def channel_ok_def cache_ok_def split: option.splits)
next
  case (receives p k q)
  then show ?case by (auto simp: process_ok_def channel_ok_def watch_ok_def cache_ok_def)
qed

lemma operator_invariant: "operator_reachable E p \<Longrightarrow> process_ok E p"
proof (induction rule: operator_reachable.induct)
  case start
  have "cache_ok E (SetupWithManager_eventCh op_init)"
    using cache_ok_op_init by (simp add: SetupWithManager_eventCh_def cache_ok_def)
  then show ?case
    by (simp add: SetupWithManager_eventCh_def process_ok_def watch_ok_def channel_ok_def)
next
  case (step p q)
  then show ?case by (blast dest: operator_step_keeps)
qed

text \<open>
  C1: whatever the cluster and Concourse answer and however reconciliations interleave, in every state the
  running operator can reach the client cache is sound: each stored client was built from the spec of an
  instance the API server showed, under whose namespace, name and version it is stored, and two keys that
  agree up to the version are the same key.
\<close>

theorem operator_cache_sound:
  assumes "operator_reachable E p" and "valid_names E"
  shows "(\<forall>k cl. store (memory p) k = Some cl \<longrightarrow> (\<exists>i. seen E i \<and> cacheKey i = k \<and> built_for E i cl)) \<and>
    (\<forall>k k'. store (memory p) k \<noteq> None \<and> store (memory p) k' \<noteq> None \<and>
       takeWhile (\<lambda>c. c \<noteq> CHR ''@'') k = takeWhile (\<lambda>c. c \<noteq> CHR ''@'') k' \<longrightarrow> k = k')"
proof -
  from operator_invariant [OF assms(1)] assms(2) have ok: "cache_ok E (memory p)" by (simp add: process_ok_def)
  then show ?thesis using cache_okD [OF ok] cache_ok_one_key [OF ok assms(2)] by blast
qed

text \<open>
  C2: in every reachable state, with any number of reconciliations in progress, there is at most one watcher
  goroutine per build, the sentinels are exactly those of the running watchers (none is leaked, none is
  missing), and the event channel exists and never holds more than its 64 requests.
\<close>

theorem operator_watchers_unique:
  assumes "operator_reachable E p" and s: "s = memory p"
  shows "(\<forall>i j. i < length (spawned s) \<and> j < length (spawned s) \<and>
        watch_key (spawned s ! i) = watch_key (spawned s ! j) \<longrightarrow> i = j) \<and>
    watchers s = (\<lambda>w. NamespacedName_String (lib E) (watch_key w)) ` set (spawned s) \<and>
    (\<exists>q. eventCh s = Some q \<and> length q \<le> 64)"
proof -
  from operator_invariant [OF assms(1)] have ok: "watch_ok E s" and ch: "channel_ok s" by (simp_all add: process_ok_def s)
  have "i = j" if "i < length (spawned s)" "j < length (spawned s)" "watch_key (spawned s ! i) = watch_key (spawned s ! j)" for i j
  proof -
    have "map (watch_name E) (spawned s) ! i = map (watch_name E) (spawned s) ! j"
      using that by (simp add: watch_name_def)
    with ok that show ?thesis by (simp add: watch_ok_def nth_eq_iff_index_eq del: nth_map)
  qed
  with ok ch show ?thesis
    by (auto simp: watch_ok_def watch_name_def channel_ok_def eventCh_capacity_def)
qed

lemma perform_steps:
  "(operator_step E)\<^sup>*\<^sup>* \<lparr>memory = s, inflight = xs @ [es]\<rparr> \<lparr>memory = perform_all E es s, inflight = xs @ [[]]\<rparr>"
proof (induction es arbitrary: s)
  case Nil
  then show ?case by simp
next
  case (Cons e es)
  have "operator_step E \<lparr>memory = s, inflight = xs @ [e # es]\<rparr> \<lparr>memory = perform E e s, inflight = xs @ [es]\<rparr>"
    using operator_step.performs [of "length xs" "\<lparr>memory = s, inflight = xs @ [e # es]\<rparr>" e es E] by simp
  with Cons.IH [of "perform E e s"] show ?case by (simp add: converse_rtranclp_into_rtranclp)
qed

text \<open>
  The interleaved operator contains the handlers as they are written: from every state, with whatever else is
  in progress, any controller's reconciliation of any request can begin, and if nothing interferes it ends in
  the memory that running \<open>Reconcile\<close> from start to end leaves.
\<close>

lemma alone_steps:
  "\<exists>q. (operator_step E)\<^sup>*\<^sup>* p q \<and> memory q = snd (run_state (dispatch E ctl req) (memory p)) \<and>
     inflight q = inflight p @ [[]]"
proof -
  obtain es where es: "accesses E ctl req (memory p) es" using accesses_exist by blast
  let ?s = "(memory p)\<lparr>trace := trace (after E ctl req (memory p))\<rparr>"
  have "operator_step E p \<lparr>memory = ?s, inflight = inflight p @ [es]\<rparr>"
    using operator_step.begins [OF es] by (cases p) simp
  moreover have "perform_all E es ?s = snd (run_state (dispatch E ctl req) (memory p))"
    using accesses_alone [OF es] by (simp add: after_def)
  ultimately show ?thesis
    using perform_steps [of E ?s "inflight p" es]
    by (metis converse_rtranclp_into_rtranclp process.select_convs)
qed

subsection \<open>A reachable state with a watcher\<close>

definition ex_started :: "ex_client op_state" where
  "ex_started = snd (run_state (dispatch ex_env Ctl_Build ex_req) (SetupWithManager_eventCh op_init))"

definition ex_process :: "ex_client process" where
  "ex_process = \<lparr>memory = ex_started, inflight = [[]]\<rparr>"

lemma ex_process_sel [simp]: "memory ex_process = ex_started"
  by (simp add: ex_process_def)

lemma steps_reachable: "(operator_step E)\<^sup>*\<^sup>* p q \<Longrightarrow> operator_reachable E p \<Longrightarrow> operator_reachable E q"
  by (induction rule: rtranclp_induct) (blast intro: operator_reachable.step)+

lemma ex_process_steps:
  "(operator_step ex_env)\<^sup>*\<^sup>* \<lparr>memory = SetupWithManager_eventCh op_init, inflight = []\<rparr> ex_process"
proof -
  let ?p = "\<lparr>memory = SetupWithManager_eventCh op_init, inflight = []\<rparr> :: ex_client process"
  obtain q where "(operator_step ex_env)\<^sup>*\<^sup>* ?p q" and "memory q = ex_started" and "inflight q = [[]]"
    using alone_steps [of ex_env ?p Ctl_Build ex_req] by (auto simp: ex_started_def)
  moreover from this have "q = ex_process" by (cases q) (simp add: ex_process_def)
  ultimately show ?thesis by simp
qed

lemma ex_process_reachable: "operator_reachable ex_env ex_process"
  by (rule steps_reachable [OF ex_process_steps operator_reachable.start])

lemma ex_track_started:
  "spawned s = [] \<Longrightarrow> watchers s = {} \<Longrightarrow>
   spawned (snd (run_state (Build_track ex_env cl tn pn jn ex_build) s)) =
     [\<lparr>watch_client = cl, watch_buildID = 42,
       watch_key = \<lparr>key_Namespace = ''ns'', key_Name = ''unit-build-1''\<rparr>, watch_phase = WOpen\<rparr>] \<and>
   store (snd (run_state (Build_track ex_env cl tn pn jn ex_build) s)) = store s"
  by (simp add: Build_track_def triggerIfNew_def refreshStatus_def abort_calls_def startWatcher_def claimWatcher_def run_simps
      run_setComplete isTerminal_def build_phases Let_def ex_atc_build_def)

lemma ex_started_contents:
  "spawned ex_started = [\<lparr>watch_client = ex_cl, watch_buildID = 42,
     watch_key = \<lparr>key_Namespace = ''ns'', key_Name = ''unit-build-1''\<rparr>, watch_phase = WOpen\<rparr>]"
  "store ex_started (cacheKey ex_instance) = Some ex_cl"
  by (simp_all add: ex_started_def Build_Reconcile_def run_simps isTerminal_def build_phases
      SetupWithManager_eventCh_def ex_track_started Let_def Cache_Get_ex_cached [unfolded Cache_Get_def])

theorem operator_cache_sound_witness:
  "store ex_started (cacheKey ex_instance) = Some ex_cl \<and>
   (\<exists>i. seen ex_env i \<and> cacheKey i = cacheKey ex_instance \<and> built_for ex_env i ex_cl)"
  using operator_cache_sound [OF ex_process_reachable ex_valid_names [OF ex_env_sel(2)], unfolded ex_process_sel]
    ex_started_contents(2) by blast

theorem operator_watchers_unique_witness:
  "watchers ex_started = {''ns/unit-build-1''} \<and> (\<exists>q. eventCh ex_started = Some q \<and> length q \<le> 64)"
  using operator_watchers_unique [OF ex_process_reachable refl] by (simp add: ex_started_contents)

lemma ex_started_channel: "eventCh ex_started = Some []"
  by (simp add: ex_started_def mgr.step_channel SetupWithManager_eventCh_def del: dispatch.simps)

end
