(* ===== verification/Watcher_Liveness.thy ===== *)
theory Watcher_Liveness
  imports Operator
begin

section \<open>Watchers deliver\<close>

text \<open>
  What becomes of a watcher goroutine in the running operator, with reconciliations, other watchers and the
  manager in between: infinite runs of the transition system of \<open>Operator\<close>, the fairness of Go's scheduler and
  of the manager's reading of the channel as hypotheses on a run, and the liveness they give.
\<close>

subsection \<open>Runs\<close>

text \<open>A run starts where the process starts; a position at which nothing happens is allowed.\<close>

definition operator_run :: "'cl env \<Rightarrow> (nat \<Rightarrow> 'cl process) \<Rightarrow> bool" where
  "operator_run E \<sigma> \<longleftrightarrow> \<sigma> 0 = \<lparr>memory = SetupWithManager_eventCh op_init, inflight = []\<rparr> \<and>
     (\<forall>n. \<sigma> (Suc n) = \<sigma> n \<or> operator_step E (\<sigma> n) (\<sigma> (Suc n)))"

definition watching :: "ObjectKey \<Rightarrow> 'cl process \<Rightarrow> 'cl watcher \<Rightarrow> bool" where
  "watching k p w \<longleftrightarrow> w \<in> set (spawned (memory p)) \<and> watch_key w = k"

text \<open>The watcher of \<open>k\<close> takes its next step between \<open>p\<close> and \<open>q\<close>; the manager takes a request for \<open>k\<close> out.\<close>

definition watcher_moves :: "'cl env \<Rightarrow> ObjectKey \<Rightarrow> 'cl process \<Rightarrow> 'cl process \<Rightarrow> bool" where
  "watcher_moves E k p q \<longleftrightarrow>
     (\<exists>i w t. i < length (spawned (memory p)) \<and> watch_key (spawned (memory p) ! i) = k \<and>
        watchBuildEvents_step E (\<lambda>_. False) (spawned (memory p) ! i) (memory p) = Some (w, t) \<and>
        q = p\<lparr>memory := t\<lparr>spawned := watcher_moved i w (spawned t)\<rparr>\<rparr>)"

definition received :: "ObjectKey \<Rightarrow> 'cl process \<Rightarrow> 'cl process \<Rightarrow> bool" where
  "received k p q \<longleftrightarrow>
     (\<exists>c. eventCh (memory p) = Some (k # c) \<and> q = p\<lparr>memory := (memory p)\<lparr>eventCh := Some c\<rparr>\<rparr>)"

text \<open>
  Fairness. Go runs every goroutine that can run, and a blocked sender gets its turn when the channel has room
  again and again: a watcher that can take a step at infinitely many positions takes one at infinitely many. The
  manager reads the channel as long as it holds a request.
\<close>

definition can_move :: "'cl env \<Rightarrow> ObjectKey \<Rightarrow> 'cl process \<Rightarrow> bool" where
  "can_move E k p \<longleftrightarrow> (\<exists>w. watching k p w \<and> watchBuildEvents_step E (\<lambda>_. False) w (memory p) \<noteq> None)"

definition fair_scheduler :: "'cl env \<Rightarrow> (nat \<Rightarrow> 'cl process) \<Rightarrow> bool" where
  "fair_scheduler E \<sigma> \<longleftrightarrow>
     (\<forall>k. (\<forall>n. \<exists>m \<ge> n. can_move E k (\<sigma> m)) \<longrightarrow> (\<forall>n. \<exists>m \<ge> n. watcher_moves E k (\<sigma> m) (\<sigma> (Suc m))))"

definition fair_manager :: "(nat \<Rightarrow> 'cl process) \<Rightarrow> bool" where
  "fair_manager \<sigma> \<longleftrightarrow>
     (\<forall>n k c. eventCh (memory (\<sigma> n)) = Some (k # c) \<longrightarrow> (\<exists>m \<ge> n. \<exists>k. received k (\<sigma> m) (\<sigma> (Suc m))))"

text \<open>Concourse has nothing more to say on a stream: reading it fails, at its end too, or gives a final status.\<close>

definition stream_over :: "'cl env \<Rightarrow> event_stream \<Rightarrow> nat \<Rightarrow> bool" where
  "stream_over E stream m \<longleftrightarrow>
     (case Events_NextEvent (atc E) m stream of
        Inl err \<Rightarrow> True
      | Inr (StatusEvent ph) \<Rightarrow> ph \<in> {''succeeded'', ''failed'', ''errored'', ''aborted''}
      | Inr (OtherEvent x) \<Rightarrow> False)"

lemma stream_over_ends: "stream_over E stream m \<longleftrightarrow> stream_ends E stream m"
  by (simp add: stream_over_def stream_ends_def terminal_event_def isTerminal_def build_phases
      split: sum.split atc_Event.split)

lemma run_reachable: "operator_run E \<sigma> \<Longrightarrow> operator_reachable E (\<sigma> n)"
proof (induction n)
  case 0
  then show ?case by (simp add: operator_run_def operator_reachable.start)
next
  case (Suc n)
  then have "\<sigma> (Suc n) = \<sigma> n \<or> operator_step E (\<sigma> n) (\<sigma> (Suc n))" by (simp add: operator_run_def)
  with Suc show ?case by (auto intro: operator_reachable.step)
qed

subsection \<open>One step\<close>

lemma operator_step_channel:
  assumes "operator_step E p q" and "eventCh (memory p) = Some c"
  shows "(\<exists>k. received k p q) \<or> (\<exists>ds. eventCh (memory q) = Some (c @ ds))"
  using assms
proof cases
  case (begins ctl req es)
  then show ?thesis using assms(2) by simp
next
  case (performs r e es)
  then show ?thesis using assms(2) by (cases e) simp_all
next
  case (watches i w t)
  then have "eventCh t = Some c \<or> (\<exists>k. eventCh t = Some (c @ [k]))"
    using assms(2) unfolding watchBuildEvents_step_def
    by (auto simp: run_simps enqueue_def Let_def split: watch_phase.splits sum.splits option.splits if_splits)
  then show ?thesis using watches by auto
next
  case (receives k c')
  then show ?thesis by (auto simp: received_def)
qed

lemma step_trace: "operator_step E p q \<Longrightarrow> length (trace (memory p)) \<le> length (trace (memory q))"
proof (induction rule: operator_step.induct)
  case (begins ctl req p es)
  from mgr.run_trace [of E ctl "[req]" "memory p"] show ?case by (auto simp: after_def)
next
  case (performs r p e es)
  then show ?case by (cases e) simp_all
next
  case (watches i p w t)
  then show ?case unfolding watchBuildEvents_step_def
    by (auto simp: run_simps enqueue_def Let_def split: watch_phase.splits sum.splits option.splits if_splits)
qed simp

text \<open>A step of anything else leaves a running watcher as it is.\<close>

lemma stays_or_moves:
  assumes "operator_step E p q" and "watching k p w"
  shows "watching k q w \<or> watcher_moves E k p q"
  using assms(1)
proof cases
  case (performs r e es)
  then show ?thesis using assms(2) by (cases e) (auto simp: watching_def claimWatcher_def Let_def)
next
  case (watches i v t)
  show ?thesis
  proof (cases "watch_key (spawned (memory p) ! i) = k")
    case True
    with watches show ?thesis unfolding watcher_moves_def by blast
  next
    case False
    let ?ws = "spawned (memory p)"
    from watcher_step_effect [OF watches(3)] have same: "spawned t = ?ws" by simp
    from assms(2) obtain j where j: "j < length ?ws" "?ws ! j = w" "watch_key w = k"
      by (auto simp: watching_def in_set_conv_nth)
    with False have "j \<noteq> i" by auto
    have "w \<in> set (watcher_moved i v ?ws)"
    proof (cases v)
      case None
      have "?ws = take i ?ws @ ?ws ! i # drop (Suc i) ?ws" using watches(2) by (rule id_take_nth_drop)
      moreover have "w \<noteq> ?ws ! i" using j(3) False by auto
      moreover have "w \<in> set ?ws" using j by auto
      ultimately have "w \<in> set (take i ?ws) \<or> w \<in> set (drop (Suc i) ?ws)" by (metis Un_iff set_ConsD set_append)
      with None show ?thesis by (auto simp: watcher_moved_def)
    next
      case (Some x)
      with j \<open>j \<noteq> i\<close> show ?thesis by (auto simp: watcher_moved_def in_set_conv_nth intro!: exI [of _ j])
    qed
    with watches same j show ?thesis by (simp add: watching_def)
  qed
qed (use assms(2) in \<open>auto simp: watching_def\<close>)

text \<open>A watcher cannot take its next step only while the channel is full.\<close>

lemma step_blocked:
  "watchBuildEvents_step E d w s = None \<longleftrightarrow>
   (\<exists>st. watch_phase w = WSend st) \<and> (\<exists>c. eventCh s = Some c \<and> eventCh_capacity \<le> length c)"
  unfolding watchBuildEvents_step_def
  by (auto simp: run_simps enqueue_def Let_def split: watch_phase.splits sum.splits option.splits if_splits)

text \<open>When the watcher of \<open>k\<close> moves it is the one that is running (\<open>w\<close>): what it leaves.\<close>

lemma moves_cases:
  assumes reach: "operator_reachable E p" and w: "watching k p w" and moves: "watcher_moves E k p q"
  obtains v t where "watchBuildEvents_step E (\<lambda>_. False) w (memory p) = Some (v, t)"
    "trace (memory q) = trace t" "eventCh (memory q) = eventCh t" "watchers (memory q) = watchers t"
    "case v of None \<Rightarrow> \<not> (\<exists>x. watching k q x) | Some x \<Rightarrow> watching k q x"
proof -
  let ?ws = "spawned (memory p)"
  from moves obtain i v t where i: "i < length ?ws" "watch_key (?ws ! i) = k"
    and step: "watchBuildEvents_step E (\<lambda>_. False) (?ws ! i) (memory p) = Some (v, t)"
    and q: "q = p\<lparr>memory := t\<lparr>spawned := watcher_moved i v (spawned t)\<rparr>\<rparr>"
    unfolding watcher_moves_def by blast
  from operator_invariant [OF reach] have ok: "watch_ok E (memory p)" by (simp add: process_ok_def)
  then have dist: "distinct (map (watch_name E) ?ws)" by (simp add: watch_ok_def)
  have unique: "x = ?ws ! i" if "x \<in> set ?ws" "watch_key x = k" for x
    using that i dist by (metis distinct_map inj_onD nth_mem watch_name_def)
  from w unique have wi: "w = ?ws ! i" by (auto simp: watching_def)
  have same: "spawned t = ?ws" using watcher_step_effect [OF step] by simp
  have "case v of None \<Rightarrow> \<not> (\<exists>x. watching k q x) | Some x \<Rightarrow> watching k q x"
  proof (cases v)
    case None
    from distinct_remove_nth [OF dist i(1)] None
    have "watch_name E ` set (watcher_moved i v ?ws) = watch_name E ` set ?ws - {watch_name E (?ws ! i)}"
      by (simp add: watcher_moved_def)
    then have gone: "watch_name E (?ws ! i) \<notin> watch_name E ` set (watcher_moved i v ?ws)" by simp
    have "\<not> watching k q x" for x
    proof
      assume "watching k q x"
      then have "x \<in> set (watcher_moved i v ?ws)" and "watch_name E x = watch_name E (?ws ! i)"
        using i(2) by (simp_all add: watching_def q same watch_name_def)
      with gone show False by (metis imageI)
    qed
    with None show ?thesis by simp
  next
    case (Some x)
    have "watch_key x = watch_key (?ws ! i)"
      using step Some unfolding watchBuildEvents_step_def
      by (auto simp: run_simps Let_def split: watch_phase.splits sum.splits option.splits if_splits)
    with Some i same show ?thesis by (auto simp: watching_def q watcher_moved_def intro: set_update_memI)
  qed
  with step wi q show thesis by (intro that [of v t]) simp_all
qed

subsection \<open>Runs go on\<close>

lemma queue_until_received:
  assumes run: "operator_run E \<sigma>" and c: "eventCh (memory (\<sigma> a)) = Some c" and "a \<le> b"
    and none: "\<And>m k. a \<le> m \<Longrightarrow> m < b \<Longrightarrow> \<not> received k (\<sigma> m) (\<sigma> (Suc m))"
  shows "\<exists>ds. eventCh (memory (\<sigma> b)) = Some (c @ ds)"
  using assms(3) none
proof (induction b rule: dec_induct)
  case base
  with c show ?case by simp
next
  case (step b)
  then obtain ds where ds: "eventCh (memory (\<sigma> b)) = Some (c @ ds)" by auto
  have "\<sigma> (Suc b) = \<sigma> b \<or> operator_step E (\<sigma> b) (\<sigma> (Suc b))" using run by (simp add: operator_run_def)
  with operator_step_channel [OF _ ds] step ds show ?case by (metis append.assoc le_less_Suc_eq lessI less_or_eq_imp_le)
qed

text \<open>A request in the channel is received, after those before it.\<close>

lemma request_received:
  assumes run: "operator_run E \<sigma>" and fair: "fair_manager \<sigma>"
    and c: "eventCh (memory (\<sigma> a)) = Some (xs @ k # ys)"
  shows "\<exists>r \<ge> a. received k (\<sigma> r) (\<sigma> (Suc r))"
  using c
proof (induction xs arbitrary: a ys)
  case (Nil a ys)
  then have "\<exists>m. a \<le> m \<and> (\<exists>k. received k (\<sigma> m) (\<sigma> (Suc m)))" using fair by (auto simp: fair_manager_def)
  then obtain r where r: "a \<le> r" "\<exists>k. received k (\<sigma> r) (\<sigma> (Suc r))"
    and first: "\<And>m. m < r \<Longrightarrow> \<not> (a \<le> m \<and> (\<exists>k. received k (\<sigma> m) (\<sigma> (Suc m))))"
    using exists_least_iff [of "\<lambda>m. a \<le> m \<and> (\<exists>k. received k (\<sigma> m) (\<sigma> (Suc m)))"] by blast
  from queue_until_received [OF run Nil r(1)] first obtain ds where "eventCh (memory (\<sigma> r)) = Some ([] @ k # ys @ ds)" by auto
  with r show ?case by (auto simp: received_def)
next
  case (Cons x xs a ys)
  then have "\<exists>m. a \<le> m \<and> (\<exists>k. received k (\<sigma> m) (\<sigma> (Suc m)))" using fair by (auto simp: fair_manager_def)
  then obtain r where r: "a \<le> r" "\<exists>k. received k (\<sigma> r) (\<sigma> (Suc r))"
    and first: "\<And>m. m < r \<Longrightarrow> \<not> (a \<le> m \<and> (\<exists>k. received k (\<sigma> m) (\<sigma> (Suc m))))"
    using exists_least_iff [of "\<lambda>m. a \<le> m \<and> (\<exists>k. received k (\<sigma> m) (\<sigma> (Suc m)))"] by blast
  from queue_until_received [OF run Cons.prems r(1)] first obtain ds where
    "eventCh (memory (\<sigma> r)) = Some (x # xs @ k # ys @ ds)" by auto
  with r(2) have "eventCh (memory (\<sigma> (Suc r))) = Some (xs @ k # ys @ ds)" by (auto simp: received_def)
  from Cons.IH [OF this] r(1) show ?case by (meson Suc_leD le_trans)
qed

text \<open>A running watcher takes its next step, and is what it was when it does.\<close>

lemma eventually_moves:
  assumes run: "operator_run E \<sigma>" and fair: "fair_scheduler E \<sigma>" "fair_manager \<sigma>" and w: "watching k (\<sigma> n) w"
  obtains m where "n \<le> m" "watching k (\<sigma> m) w" "watcher_moves E k (\<sigma> m) (\<sigma> (Suc m))"
proof (rule ccontr)
  assume "\<not> thesis"
  with that have still: "\<not> watcher_moves E k (\<sigma> m) (\<sigma> (Suc m))" if "n \<le> m" "watching k (\<sigma> m) w" for m
    using that by blast
  have stays: "watching k (\<sigma> m) w" if "n \<le> m" for m
    using that
  proof (induction m rule: dec_induct)
    case base
    show ?case by (rule w)
  next
    case (step m)
    have "\<sigma> (Suc m) = \<sigma> m \<or> operator_step E (\<sigma> m) (\<sigma> (Suc m))" using run by (simp add: operator_run_def)
    with stays_or_moves [OF _ step.IH] still [OF step(1,3)] step.IH show ?case by metis
  qed
  have "\<exists>m \<ge> l. can_move E k (\<sigma> m)" for l
  proof (cases "watchBuildEvents_step E (\<lambda>_. False) w (memory (\<sigma> (max l n))) = None")
    case False
    with stays [of "max l n"] show ?thesis unfolding can_move_def by (intro exI [of _ "max l n"]) auto
  next
    case True
    then obtain st c where blocked: "watch_phase w = WSend st" "eventCh (memory (\<sigma> (max l n))) = Some c" "eventCh_capacity \<le> length c"
      by (auto simp: step_blocked)
    then obtain k1 c1 where "eventCh (memory (\<sigma> (max l n))) = Some (k1 # c1)" by (cases c) (auto simp: eventCh_capacity_def)
    with fair(2) obtain m k' where m: "max l n \<le> m" "received k' (\<sigma> m) (\<sigma> (Suc m))" unfolding fair_manager_def by metis
    then obtain d where d: "eventCh (memory (\<sigma> m)) = Some (k' # d)" "eventCh (memory (\<sigma> (Suc m))) = Some d"
      by (auto simp: received_def)
    from operator_invariant [OF run_reachable [OF run, of m]] d(1) have "length d < eventCh_capacity"
      by (auto simp: process_ok_def channel_ok_def)
    with d(2) have "watchBuildEvents_step E (\<lambda>_. False) w (memory (\<sigma> (Suc m))) \<noteq> None" by (auto simp: step_blocked)
    with stays [of "Suc m"] m(1) show ?thesis unfolding can_move_def by (intro exI [of _ "Suc m"]) auto
  qed
  with fair(1) obtain m where "n \<le> m" "watcher_moves E k (\<sigma> m) (\<sigma> (Suc m))" unfolding fair_scheduler_def by blast
  with still stays show False by blast
qed

lemma run_trace_mono:
  assumes "operator_run E \<sigma>" and "a \<le> b"
  shows "length (trace (memory (\<sigma> a))) \<le> length (trace (memory (\<sigma> b)))"
  using assms(2)
proof (induction b rule: dec_induct)
  case (step b)
  have "\<sigma> (Suc b) = \<sigma> b \<or> operator_step E (\<sigma> b) (\<sigma> (Suc b))" using assms(1) by (simp add: operator_run_def)
  with step.IH show ?case by (auto dest: step_trace)
qed simp

subsection \<open>From phase to phase\<close>

text \<open>The next position at which a running watcher has moved, with what its step left.\<close>

lemma next_move:
  assumes run: "operator_run E \<sigma>" "fair_scheduler E \<sigma>" "fair_manager \<sigma>" and w: "watching k (\<sigma> n) w"
  obtains m v t where "n \<le> m" "watchBuildEvents_step E (\<lambda>_. False) w (memory (\<sigma> m)) = Some (v, t)"
    "trace (memory (\<sigma> (Suc m))) = trace t" "eventCh (memory (\<sigma> (Suc m))) = eventCh t" "watchers (memory (\<sigma> (Suc m))) = watchers t"
    "case v of None \<Rightarrow> \<not> (\<exists>x. watching k (\<sigma> (Suc m)) x) | Some x \<Rightarrow> watching k (\<sigma> (Suc m)) x"
proof -
  from eventually_moves [OF run w] obtain m where m: "n \<le> m" "watching k (\<sigma> m) w" "watcher_moves E k (\<sigma> m) (\<sigma> (Suc m))" .
  from moves_cases [OF run_reachable [OF run(1)] m(2,3)] that [OF m(1)] show thesis by metis
qed

text \<open>A watcher in its loop gets to the send once the stream is over.\<close>

lemma loop_sends:
  assumes run: "operator_run E \<sigma>" "fair_scheduler E \<sigma>" "fair_manager \<sigma>"
    and "watching k (\<sigma> n) w" "watch_phase w = WLoop stream" and over: "\<And>m. N \<le> m \<Longrightarrow> stream_over E stream m"
  shows "\<exists>m \<ge> n. watching k (\<sigma> m) (w\<lparr>watch_phase := WSend (Some stream)\<rparr>)"
  using assms(4,5)
proof (induction "N - length (trace (memory (\<sigma> n)))" arbitrary: n rule: less_induct)
  case less
  from next_move [OF run less.prems(1)] obtain m v t where m: "n \<le> m"
    and step: "watchBuildEvents_step E (\<lambda>_. False) w (memory (\<sigma> m)) = Some (v, t)"
    and after: "trace (memory (\<sigma> (Suc m))) = trace t"
      "case v of None \<Rightarrow> \<not> (\<exists>x. watching k (\<sigma> (Suc m)) x) | Some x \<Rightarrow> watching k (\<sigma> (Suc m)) x" .
  let ?n = "length (trace (memory (\<sigma> m)))"
  show ?case
  proof (cases "stream_over E stream ?n")
    case True
    with step less.prems(2) have "v = Some (w\<lparr>watch_phase := WSend (Some stream)\<rparr>)"
      by (auto simp: watchBuildEvents_step_def run_simps stream_over_ends stream_ends_def split: sum.splits)
    with after m show ?thesis by (intro exI [of _ "Suc m"]) simp
  next
    case False
    with step less.prems(2) have "v = Some w" "length (trace t) = Suc ?n"
      by (auto simp: watchBuildEvents_step_def run_simps stream_over_ends stream_ends_def split: sum.splits if_splits)
    moreover have "?n < N" using False over by (meson not_le)
    ultimately have "N - length (trace (memory (\<sigma> (Suc m)))) < N - length (trace (memory (\<sigma> n)))"
      using after(1) run_trace_mono [OF run(1) m] by simp
    from less.hyps [OF this] after(2) \<open>v = Some w\<close> less.prems(2) m show ?thesis by (auto intro: Suc_leD le_trans)
  qed
qed

text \<open>From the send on: the request is in the channel, then the sentinel is gone.\<close>

lemma send_delivers:
  assumes run: "operator_run E \<sigma>" "fair_scheduler E \<sigma>" "fair_manager \<sigma>"
    and w: "watching k (\<sigma> n) w" "watch_phase w = WSend stream"
  shows "\<exists>m \<ge> n. (\<exists>c. eventCh (memory (\<sigma> m)) = Some c \<and> eventCh (memory (\<sigma> (Suc m))) = Some (c @ [k])) \<and>
    (\<exists>l > m. NamespacedName_String (lib E) k \<notin> watchers (memory (\<sigma> l)) \<and> \<not> (\<exists>x. watching k (\<sigma> l) x))"
proof -
  from next_move [OF run w(1)] obtain m v t where m: "n \<le> m"
    and step: "watchBuildEvents_step E (\<lambda>_. False) w (memory (\<sigma> m)) = Some (v, t)"
    and after: "eventCh (memory (\<sigma> (Suc m))) = eventCh t"
      "case v of None \<Rightarrow> \<not> (\<exists>x. watching k (\<sigma> (Suc m)) x) | Some x \<Rightarrow> watching k (\<sigma> (Suc m)) x" .
  obtain c where c: "eventCh (memory (\<sigma> m)) = Some c"
    using operator_invariant [OF run_reachable [OF run(1), of m]] by (auto simp: process_ok_def channel_ok_def)
  let ?w = "w\<lparr>watch_phase := WClose stream\<rparr>"
  have k: "watch_key w = k" using w(1) by (simp add: watching_def)
  from step w(2) c k have "v = Some ?w" "eventCh t = Some (c @ [k])"
    by (auto simp: watchBuildEvents_step_def enqueue_def split: if_splits)
  with after have sent: "eventCh (memory (\<sigma> (Suc m))) = Some (c @ [k])" "watching k (\<sigma> (Suc m)) ?w" by simp_all
  from next_move [OF run sent(2)] obtain l v' t' where l: "Suc m \<le> l"
    and step': "watchBuildEvents_step E (\<lambda>_. False) ?w (memory (\<sigma> l)) = Some (v', t')"
    and after': "watchers (memory (\<sigma> (Suc l))) = watchers t'"
      "case v' of None \<Rightarrow> \<not> (\<exists>x. watching k (\<sigma> (Suc l)) x) | Some x \<Rightarrow> watching k (\<sigma> (Suc l)) x" .
  from step' k have "v' = None" "NamespacedName_String (lib E) k \<notin> watchers t'"
    by (auto simp: watchBuildEvents_step_def Let_def)
  with after' l m c sent(1) show ?thesis by (intro exI [of _ m] conjI exI [of _ "Suc l"]) auto
qed

text \<open>A watcher that has not sent gets to where it sends, if its streams end.\<close>

lemma reaches_send:
  assumes run: "operator_run E \<sigma>" "fair_scheduler E \<sigma>" "fair_manager \<sigma>"
    and watching: "watching k (\<sigma> n) w" and unsent: "\<And>st. watch_phase w \<noteq> WClose st"
    and over: "\<And>stream. watch_phase w = WLoop stream \<or>
        (\<exists>m. Client_BuildEvents (atc E) m (watch_client w) (Itoa (watch_buildID w)) = Inr (Some stream)) \<Longrightarrow>
      \<exists>N. \<forall>m \<ge> N. stream_over E stream m"
  shows "\<exists>m \<ge> n. \<exists>v st. watching k (\<sigma> m) v \<and> watch_phase v = WSend st"
proof -
  have sends: "\<exists>m \<ge> a. \<exists>v st. watching k (\<sigma> m) v \<and> watch_phase v = WSend st"
    if "watching k (\<sigma> a) v" "watch_phase v = WLoop stream" "\<exists>N. \<forall>m \<ge> N. stream_over E stream m" for a v stream
  proof -
    from that(3) obtain N where "\<And>m. N \<le> m \<Longrightarrow> stream_over E stream m" by blast
    from loop_sends [OF run that(1,2) this] obtain m where "a \<le> m" "watching k (\<sigma> m) (v\<lparr>watch_phase := WSend (Some stream)\<rparr>)"
      by blast
    then show ?thesis by (intro exI [of _ m] conjI exI [of _ "v\<lparr>watch_phase := WSend (Some stream)\<rparr>"] exI [of _ "Some stream"]) auto
  qed
  show ?thesis
  proof (cases "watch_phase w")
    case WOpen
    from next_move [OF run watching] obtain m v t where m: "n \<le> m"
      and step: "watchBuildEvents_step E (\<lambda>_. False) w (memory (\<sigma> m)) = Some (v, t)"
      and after: "case v of None \<Rightarrow> \<not> (\<exists>x. watching k (\<sigma> (Suc m)) x) | Some x \<Rightarrow> watching k (\<sigma> (Suc m)) x" .
    from step WOpen consider "v = Some (w\<lparr>watch_phase := WSend None\<rparr>)"
      | stream where "v = Some (w\<lparr>watch_phase := WLoop stream\<rparr>)"
        "Client_BuildEvents (atc E) (length (trace (memory (\<sigma> m)))) (watch_client w) (Itoa (watch_buildID w)) = Inr (Some stream)"
      by (auto simp: watchBuildEvents_step_def run_simps Let_def split: sum.splits option.splits)
    then show ?thesis
    proof cases
      case 1
      with after m show ?thesis
        by (intro exI [of _ "Suc m"] conjI exI [of _ "w\<lparr>watch_phase := WSend None\<rparr>"] exI [of _ None]) auto
    next
      case 2
      with after have at_loop: "watching k (\<sigma> (Suc m)) (w\<lparr>watch_phase := WLoop stream\<rparr>)" by simp
      have "\<exists>N. \<forall>m \<ge> N. stream_over E stream m" using 2(2) over by blast
      with sends [OF at_loop] obtain a v st where "Suc m \<le> a" "watching k (\<sigma> a) v" "watch_phase v = WSend st" by auto
      with m show ?thesis by (intro exI [of _ a]) auto
    qed
  next
    case (WLoop stream)
    with sends [OF watching WLoop over] show ?thesis by blast
  next
    case (WSend st)
    with watching show ?thesis by blast
  next
    case (WClose st)
    with unsent show ?thesis by blast
  qed
qed

text \<open>
  C27: watchers deliver. In every run of the operator in which Go's scheduler and the manager are fair, whatever
  the cluster and Concourse answer and whatever else runs in between: a watcher that is running and has not sent
  yet gets to put its build's key into the event channel, provided every stream it may read is over from some
  interaction on (a failure, the end of the stream, or a final status); the manager receives a request for that
  key afterwards; and the watcher ends and leaves no sentinel, so that the build can be watched again. Until then it is
  held up only while the channel holds 64 requests.
\<close>

theorem operator_watchers_deliver:
  assumes run: "operator_run E \<sigma>" and fair: "fair_scheduler E \<sigma>" "fair_manager \<sigma>"
    and w: "w \<in> set (spawned (memory (\<sigma> n)))" "watch_key w = k" "\<And>st. watch_phase w \<noteq> WClose st"
    and over: "\<And>stream. watch_phase w = WLoop stream \<or>
        (\<exists>m. Client_BuildEvents (atc E) m (watch_client w) (Itoa (watch_buildID w)) = Inr (Some stream)) \<Longrightarrow>
      \<exists>N. \<forall>m \<ge> N. stream_over E stream m"
  shows "(\<exists>m \<ge> n. (\<exists>c. eventCh (memory (\<sigma> m)) = Some c \<and> eventCh (memory (\<sigma> (Suc m))) = Some (c @ [k])) \<and>
      (\<exists>r > m. received k (\<sigma> r) (\<sigma> (Suc r))) \<and>
      (\<exists>l > m. NamespacedName_String (lib E) k \<notin> watchers (memory (\<sigma> l)) \<and>
         (\<forall>v \<in> set (spawned (memory (\<sigma> l))). watch_key v \<noteq> k))) \<and>
    (\<forall>m v. v \<in> set (spawned (memory (\<sigma> m))) \<and> watchBuildEvents_step E (\<lambda>_. False) v (memory (\<sigma> m)) = None \<longrightarrow>
       (\<exists>c. eventCh (memory (\<sigma> m)) = Some c \<and> length c = 64))"
proof
  note run = run fair
  have "watching k (\<sigma> n) w" using w by (simp add: watching_def)
  from reaches_send [OF run this w(3) over] obtain a v st where
    a: "n \<le> a" "watching k (\<sigma> a) v" "watch_phase v = WSend st" by blast
  from send_delivers [OF run a(2,3)] obtain m c where m: "a \<le> m" "eventCh (memory (\<sigma> (Suc m))) = Some (c @ [k])"
    "eventCh (memory (\<sigma> m)) = Some c"
    "\<exists>l > m. NamespacedName_String (lib E) k \<notin> watchers (memory (\<sigma> l)) \<and> \<not> (\<exists>x. watching k (\<sigma> l) x)" by blast
  from request_received [OF run(1,3) m(2)] obtain r where "Suc m \<le> r" "received k (\<sigma> r) (\<sigma> (Suc r))" by blast
  with m a(1) show "\<exists>m \<ge> n. (\<exists>c. eventCh (memory (\<sigma> m)) = Some c \<and> eventCh (memory (\<sigma> (Suc m))) = Some (c @ [k])) \<and>
      (\<exists>r > m. received k (\<sigma> r) (\<sigma> (Suc r))) \<and>
      (\<exists>l > m. NamespacedName_String (lib E) k \<notin> watchers (memory (\<sigma> l)) \<and>
         (\<forall>v \<in> set (spawned (memory (\<sigma> l))). watch_key v \<noteq> k))"
    by (intro exI [of _ m]) (auto simp: watching_def Suc_le_eq)
next
  show "\<forall>m v. v \<in> set (spawned (memory (\<sigma> m))) \<and> watchBuildEvents_step E (\<lambda>_. False) v (memory (\<sigma> m)) = None \<longrightarrow>
       (\<exists>c. eventCh (memory (\<sigma> m)) = Some c \<and> length c = 64)"
    using operator_invariant [OF run_reachable [OF run]]
    by (fastforce simp: step_blocked process_ok_def channel_ok_def eventCh_capacity_def)
qed

subsection \<open>A fair run\<close>

text \<open>Runs can be extended by any steps; a run that comes to rest with nothing to do is fair.\<close>

lemma run_extended:
  assumes "(operator_step E)\<^sup>*\<^sup>* p q" and "operator_run E \<sigma>" and "\<forall>n \<ge> N. \<sigma> n = p"
  shows "\<exists>\<tau> N'. operator_run E \<tau> \<and> (\<forall>n \<le> N. \<tau> n = \<sigma> n) \<and> (\<forall>n \<ge> N'. \<tau> n = q)"
  using assms(1)
proof (induction rule: rtranclp_induct)
  case base
  with assms(2,3) show ?case by blast
next
  case (step y z)
  then obtain \<tau> N' where \<tau>: "operator_run E \<tau>" "\<forall>n \<le> N. \<tau> n = \<sigma> n" "\<forall>n \<ge> N'. \<tau> n = y" by blast
  let ?M = "max N N'"
  let ?\<rho> = "\<lambda>n. if n \<le> ?M then \<tau> n else z"
  have "?\<rho> (Suc n) = ?\<rho> n \<or> operator_step E (?\<rho> n) (?\<rho> (Suc n))" for n
  proof (cases "n = ?M")
    case True
    with \<tau>(3) step.hyps(2) show ?thesis by simp
  next
    case False
    with \<tau>(1) show ?thesis by (auto simp: operator_run_def)
  qed
  then have "operator_run E ?\<rho>" using \<tau>(1) by (simp add: operator_run_def)
  with \<tau>(2) show ?case by (intro exI [of _ ?\<rho>] exI [of _ "Suc ?M"]) auto
qed

lemma rest_is_fair:
  assumes run: "operator_run E \<sigma>" and rest: "\<forall>n \<ge> N. \<sigma> n = q"
    and idle: "spawned (memory q) = []" "eventCh (memory q) = Some []"
  shows "fair_scheduler E \<sigma>" and "fair_manager \<sigma>"
proof -
  have "\<not> can_move E k (\<sigma> m)" if "N \<le> m" for k m
    using that rest idle(1) by (simp add: can_move_def watching_def)
  then show "fair_scheduler E \<sigma>" unfolding fair_scheduler_def by blast
  show "fair_manager \<sigma>"
    unfolding fair_manager_def
  proof (intro allI impI, rule ccontr)
    fix n k c
    assume c: "eventCh (memory (\<sigma> n)) = Some (k # c)" and none: "\<not> (\<exists>m \<ge> n. \<exists>k. received k (\<sigma> m) (\<sigma> (Suc m)))"
    have "\<exists>ds. eventCh (memory (\<sigma> (max n N))) = Some ((k # c) @ ds)"
      by (rule queue_until_received [OF run c]) (use none in auto)
    with rest idle(2) show False by simp
  qed
qed

lemma watches_alone:
  assumes "watchBuildEvents_step E (\<lambda>_. False) w s = Some (v, t)" and "spawned s = [w]"
    and "s' = t\<lparr>spawned := case v of None \<Rightarrow> [] | Some x \<Rightarrow> [x]\<rparr>"
  shows "operator_step E \<lparr>memory = s, inflight = es\<rparr> \<lparr>memory = s', inflight = es\<rparr>"
proof -
  have "spawned t = [w]" using watcher_step_effect [OF assms(1)] assms(2) by simp
  then have "watcher_moved 0 v (spawned t) = (case v of None \<Rightarrow> [] | Some x \<Rightarrow> [x])"
    by (simp add: watcher_moved_def split: option.split)
  with operator_step.watches [of 0 "\<lparr>memory = s, inflight = es\<rparr>" E v t] assms show ?thesis by simp
qed

lemma ex_started_reads: "2 \<le> length (trace ex_started)"
  by (simp add: ex_started_def Build_Reconcile_def run_simps isTerminal_def build_phases
      SetupWithManager_eventCh_def Let_def Build_track_def triggerIfNew_def refreshStatus_def abort_calls_def
      startWatcher_def claimWatcher_def run_setComplete ex_atc_build_def)

text \<open>Its watcher opens the stream, reads the final status, sends and ends; the manager takes the request.\<close>

lemma ex_watcher_steps: "\<exists>q. (operator_step ex_env)\<^sup>*\<^sup>* ex_process q \<and> spawned (memory q) = [] \<and> eventCh (memory q) = Some []"
proof -
  let ?k = "\<lparr>key_Namespace = ''ns'', key_Name = ''unit-build-1''\<rparr>"
  let ?w = "\<lambda>ph. \<lparr>watch_client = ex_cl, watch_buildID = 42, watch_key = ?k, watch_phase = ph\<rparr> :: ex_client watcher"
  let ?s = "\<lambda>cs c ws. ex_started\<lparr>trace := trace ex_started @ cs, spawned := ws, eventCh := Some c\<rparr>"
  let ?p = "\<lambda>s. \<lparr>memory = s, inflight = [[]]\<rparr> :: ex_client process"
  let ?o = "CBuildEvents ex_cl (Itoa 42)"
  have start: "ex_process = ?p (?s [] [] [?w WOpen])"
    using ex_started_contents(1) ex_started_channel by (simp add: ex_process_def op_state.equality)
  have "operator_step ex_env (?p (?s [] [] [?w WOpen])) (?p (?s [?o] [] [?w (WLoop 9)]))"
    by (rule watches_alone [where w = "?w WOpen" and v = "Some (?w (WLoop 9))" and t = "?s [?o] [] [?w WOpen]"])
       (simp_all add: watchBuildEvents_step_def run_simps Let_def)
  moreover have "operator_step ex_env (?p (?s [?o] [] [?w (WLoop 9)])) (?p (?s [?o, CNextEvent 9] [] [?w (WSend (Some 9))]))"
    by (rule watches_alone [where w = "?w (WLoop 9)" and v = "Some (?w (WSend (Some 9)))" and
          t = "?s [?o, CNextEvent 9] [] [?w (WLoop 9)]"])
       (use ex_started_reads in \<open>simp_all add: watchBuildEvents_step_def run_simps terminal_event_def isTerminal_def build_phases\<close>)
  moreover have "operator_step ex_env (?p (?s [?o, CNextEvent 9] [] [?w (WSend (Some 9))]))
      (?p (?s [?o, CNextEvent 9] [?k] [?w (WClose (Some 9))]))"
    by (rule watches_alone [where w = "?w (WSend (Some 9))" and v = "Some (?w (WClose (Some 9)))" and
          t = "?s [?o, CNextEvent 9] [?k] [?w (WSend (Some 9))]"])
       (simp_all add: watchBuildEvents_step_def enqueue_def eventCh_capacity_def)
  moreover obtain t where t: "operator_step ex_env (?p (?s [?o, CNextEvent 9] [?k] [?w (WClose (Some 9))])) (?p t)"
      "spawned t = []" "eventCh t = Some [?k]"
  proof -
    have "watchBuildEvents_step ex_env (\<lambda>_. False) (?w (WClose (Some 9))) (?s [?o, CNextEvent 9] [?k] [?w (WClose (Some 9))]) =
        Some (None, (?s [?o, CNextEvent 9, CCloseEvents 9] [?k] [?w (WClose (Some 9))])
          \<lparr>watchers := watchers ex_started - {''ns/unit-build-1''}\<rparr>)"
      by (simp add: watchBuildEvents_step_def Let_def)
    from watches_alone [OF this _ refl, of "[[]]"] that show thesis by simp
  qed
  moreover have "operator_step ex_env (?p t) (?p (t\<lparr>eventCh := Some []\<rparr>))"
    using operator_step.receives [of "?p t" ?k "[]"] t(3) by simp
  ultimately have "(operator_step ex_env)\<^sup>*\<^sup>* ex_process (?p (t\<lparr>eventCh := Some []\<rparr>))"
    unfolding start by (meson converse_rtranclp_into_rtranclp rtranclp.rtrancl_refl)
  with t(2) show ?thesis by (intro exI [of _ "?p (t\<lparr>eventCh := Some []\<rparr>)"]) simp
qed

theorem operator_watchers_deliver_witness:
  "\<exists>\<sigma> n. operator_run ex_env \<sigma> \<and> fair_scheduler ex_env \<sigma> \<and> fair_manager \<sigma> \<and> \<sigma> n = ex_process \<and>
     (\<exists>r > n. received \<lparr>key_Namespace = ''ns'', key_Name = ''unit-build-1''\<rparr> (\<sigma> r) (\<sigma> (Suc r))) \<and>
     (\<exists>l > n. ''ns/unit-build-1'' \<notin> watchers (memory (\<sigma> l)))"
proof -
  let ?k = "\<lparr>key_Namespace = ''ns'', key_Name = ''unit-build-1''\<rparr>"
  let ?p = "\<lparr>memory = SetupWithManager_eventCh op_init, inflight = []\<rparr> :: ex_client process"
  obtain q where q: "(operator_step ex_env)\<^sup>*\<^sup>* ex_process q" "spawned (memory q) = []" "eventCh (memory q) = Some []"
    using ex_watcher_steps by blast
  have "operator_run ex_env (\<lambda>_. ?p)" by (simp add: operator_run_def)
  from run_extended [OF ex_process_steps this, of 0] obtain \<rho> n where \<rho>: "operator_run ex_env \<rho>" "\<forall>m \<ge> n. \<rho> m = ex_process" by blast
  from run_extended [OF q(1) \<rho>] obtain \<sigma> N where \<sigma>: "operator_run ex_env \<sigma>" "\<forall>m \<le> n. \<sigma> m = \<rho> m" "\<forall>m \<ge> N. \<sigma> m = q" by blast
  note fair = rest_is_fair [OF \<sigma>(1,3) q(2,3)]
  have n: "\<sigma> n = ex_process" using \<rho>(2) \<sigma>(2) by simp
  have over: "\<exists>N. \<forall>m \<ge> N. stream_over ex_env stream m" for stream
    by (intro exI [of _ 3]) (simp add: stream_over_def)
  from ex_started_contents(1) n have "\<exists>w \<in> set (spawned (memory (\<sigma> n))). watch_key w = ?k \<and> (\<forall>st. watch_phase w \<noteq> WClose st)" by simp
  then obtain w where w: "w \<in> set (spawned (memory (\<sigma> n)))" "watch_key w = ?k" "\<And>st. watch_phase w \<noteq> WClose st" by blast
  from operator_watchers_deliver [OF \<sigma>(1) fair w over] obtain m r l where
    "n \<le> m" "m < r" "received ?k (\<sigma> r) (\<sigma> (Suc r))" "m < l" "NamespacedName_String (lib ex_env) ?k \<notin> watchers (memory (\<sigma> l))" by blast
  with \<sigma>(1) fair n show ?thesis
    by (intro exI [of _ \<sigma>] exI [of _ n] conjI exI [of _ r] exI [of _ l]) simp_all
qed

end
