(* ===== verification/Scheduling.thy ===== *)
theory Scheduling
  imports Controllers
begin

section \<open>Which requests are run again\<close>

text \<open>
  The manager runs a request again on its own only if the reconciliation returned an error or a positive
  delay; otherwise the object waits until it is changed. This theory shows, for all seven controllers, that a
  request is only let go for a reason that the answers of this very reconciliation give, and lists the reasons:
  \<open>settled E ctl req s t\<close> looks at the answers a reconciliation gets that takes the process from \<open>s\<close> to \<open>t\<close>.
\<close>

abbreviation ignored :: "'cl env \<Rightarrow> go_error \<Rightarrow> bool" where
  "ignored E err \<equiv> IgnoreNotFound (lib E) err = None"

definition parent_gone :: "'cl env \<Rightarrow> go_error + 'a \<Rightarrow> bool" where
  "parent_gone E r \<longleftrightarrow> (\<exists>err. r = Inl err \<and> ignored E err)"

text \<open>Between \<open>s\<close> and \<open>t\<close> a status was sent and answered with an object that satisfies \<open>P\<close>.\<close>

definition told ::
  "(nat \<Rightarrow> 'a \<Rightarrow> 'a go_result) \<Rightarrow> ('a \<Rightarrow> k8s_object) \<Rightarrow> ('a \<Rightarrow> bool) \<Rightarrow> 'cl op_state \<Rightarrow> 'cl op_state \<Rightarrow> bool" where
  "told upd obj P s t \<longleftrightarrow> (\<exists>m x c. length (trace s) \<le> m \<and> m < length (trace t) \<and>
     trace t ! m = KStatusUpdate (obj x) \<and> upd m x = Inr c \<and> P c)"

abbreviation told_terminal :: "'cl env \<Rightarrow> 'cl op_state \<Rightarrow> 'cl op_state \<Rightarrow> bool" where
  "told_terminal E \<equiv> told (Status_Build (k8s E)) OBuild (\<lambda>b. isTerminal (BuildStatus_ConcourseStatus (Build_Status b)))"

abbreviation told_no_interval :: "'cl env \<Rightarrow> 'cl op_state \<Rightarrow> 'cl op_state \<Rightarrow> bool" where
  "told_no_interval E \<equiv> told (Status_Resource (k8s E)) OResource
     (\<lambda>r. case ResourceSpec_CheckInterval (Resource_Spec r) of None \<Rightarrow> False | Some d \<Rightarrow> d \<le> 0)"

abbreviation told_negative :: "'cl env \<Rightarrow> 'cl op_state \<Rightarrow> 'cl op_state \<Rightarrow> bool" where
  "told_negative E \<equiv> told (Status_Instance (k8s E)) OInstance (\<lambda>i. InstanceSpec_Interval (Instance_Spec i) < 0)"

definition build_settled :: "'cl env \<Rightarrow> Build \<Rightarrow> 'cl op_state \<Rightarrow> 'cl op_state \<Rightarrow> bool" where
  "build_settled E b s t \<longleftrightarrow>
     isTerminal (BuildStatus_ConcourseStatus (Build_Status b)) \<or>
     (case BuildSpec_JobRef (Build_Spec b) of
        None \<Rightarrow> True
      | Some ref \<Rightarrow> parent_gone E (Get_Job (k8s E) (Suc (length (trace s)))
          \<lparr>key_Namespace = Namespace (Build_ObjectMeta b), key_Name = LocalObjectReference_Name ref\<rparr>)) \<or>
     told_terminal E s t"

definition resource_settled :: "'cl env \<Rightarrow> Resource \<Rightarrow> 'cl op_state \<Rightarrow> 'cl op_state \<Rightarrow> bool" where
  "resource_settled E r s t \<longleftrightarrow>
     parent_gone E (Get_Pipeline (k8s E) (Suc (length (trace s))) \<lparr>key_Namespace = Namespace (Resource_ObjectMeta r),
       key_Name = LocalObjectReference_Name (ResourceSpec_PipelineRef (Resource_Spec r))\<rparr>) \<or>
     told_no_interval E s t"

definition worker_settled :: "'cl env \<Rightarrow> Worker \<Rightarrow> 'cl op_state \<Rightarrow> bool" where
  "worker_settled E w s \<longleftrightarrow>
     parent_gone E (Get_Instance (k8s E) (Suc (length (trace s))) \<lparr>key_Namespace = Namespace (Worker_ObjectMeta w),
       key_Name = LocalObjectReference_Name (WorkerSpec_InstanceRef (Worker_Spec w))\<rparr>)"

definition read_settled ::
  "'cl env \<Rightarrow> (go_error + 'a) \<Rightarrow> ('a \<Rightarrow> ObjectMeta) \<Rightarrow> ('a \<Rightarrow> bool) \<Rightarrow> bool" where
  "read_settled E r meta P \<longleftrightarrow>
     (case r of Inl err \<Rightarrow> ignored E err | Inr x \<Rightarrow> \<not> IsZero (lib E) (DeletionTimestamp (meta x)) \<or> P x)"

fun settled :: "'cl env \<Rightarrow> controller \<Rightarrow> ObjectKey \<Rightarrow> 'cl op_state \<Rightarrow> 'cl op_state \<Rightarrow> bool" where
  "settled E Ctl_Instance req s t =
     read_settled E (Get_Instance (k8s E) (length (trace s)) req) Instance_ObjectMeta (\<lambda>_. told_negative E s t)"
| "settled E Ctl_Team req s t =
     read_settled E (Get_Team (k8s E) (length (trace s)) req) Team_ObjectMeta (\<lambda>_. False)"
| "settled E Ctl_Pipeline req s t =
     read_settled E (Get_Pipeline (k8s E) (length (trace s)) req) Pipeline_ObjectMeta (\<lambda>_. False)"
| "settled E Ctl_Job req s t =
     read_settled E (Get_Job (k8s E) (length (trace s)) req) Job_ObjectMeta (\<lambda>_. False)"
| "settled E Ctl_Build req s t =
     read_settled E (Get_Build (k8s E) (length (trace s)) req) Build_ObjectMeta (\<lambda>b. build_settled E b s t)"
| "settled E Ctl_Resource req s t =
     read_settled E (Get_Resource (k8s E) (length (trace s)) req) Resource_ObjectMeta (\<lambda>r. resource_settled E r s t)"
| "settled E Ctl_Worker req s t =
     read_settled E (Get_Worker (k8s E) (length (trace s)) req) Worker_ObjectMeta (\<lambda>w. worker_settled E w s)"

subsection \<open>The stages\<close>

text \<open>The parts of the handlers that follow the first reads, and always ask to be run again.\<close>

lemma runs_again_simps [simp]:
  "runs_again (Failed e)" "runs_again (Requeue d) \<longleftrightarrow> 0 < d" "runs_again (Result0, err) \<longleftrightarrow> err \<noteq> None"
  "0 < Second" "0 < Minute" "\<not> Minute \<le> 0"
  by (simp_all add: runs_again_def Second_def Minute_def)

lemma again_Team: "returns runs_again (Team_apply E team)"
  unfolding Team_apply_def Team_applied_def Team_not_ready_def by (intro returns_rules) simp_all

lemma again_Pipeline: "returns runs_again (Pipeline_apply E p)"
  unfolding Pipeline_apply_def Pipeline_sync_def Pipeline_upload_failed_def Pipeline_not_ready_def
  by (intro returns_rules) simp_all

lemma again_Job: "returns runs_again (Job_track E cl tn pn job)"
  unfolding Job_track_def by (intro returns_rules) simp_all

lemma again_Worker:
  "returns runs_again (Worker_track E cl w)" "returns runs_again (Worker_not_ready E w reason msg)"
  unfolding Worker_track_def Worker_not_ready_def by (intro returns_rules; simp)+

lemma again_Resource_not_ready: "returns runs_again (Resource_not_ready E r reason msg)"
  unfolding Resource_not_ready_def by (intro returns_rules) simp_all

lemma again_Build_not_ready: "runs_again r \<Longrightarrow> returns runs_again (Build_not_ready E b reason msg r)"
  unfolding Build_not_ready_def by (intro returns_rules)

lemma again_Instance_failed: "returns runs_again (Instance_failed E i reason err)"
  unfolding Instance_failed_def by (intro returns_rules) simp_all

text \<open>The stages that may end without a request to be run again, because of what the server told them.\<close>

definition again_unless :: "('cl op_state \<Rightarrow> 'cl op_state \<Rightarrow> bool) \<Rightarrow> ('cl, reconcile_result) op \<Rightarrow> bool" where
  "again_unless T m \<longleftrightarrow> (\<forall>s. runs_again (fst (run_state m s)) \<or> T s (snd (run_state m s)))"

lemma again_unless_returns: "returns runs_again m \<Longrightarrow> again_unless T m"
  by (simp add: again_unless_def returns_def)

lemma again_unless_bind:
  fixes m :: "('cl, 'b) op"
  assumes "appends m" and "\<And>a. a \<in> set_state m \<Longrightarrow> again_unless (told upd obj P) (f a)"
  shows "again_unless (told upd obj P) (State_Monad.bind m f)"
  unfolding again_unless_def
proof
  fix s
  obtain a t where run: "run_state m s = (a, t)" by (meson prod.exhaust)
  then have "a \<in> set_state m" by (auto simp: set_state_iff)
  from assms(2) [OF this] have "runs_again (fst (run_state (f a) t)) \<or> told upd obj P t (snd (run_state (f a) t))"
    by (simp add: again_unless_def)
  moreover have "length (trace s) \<le> length (trace t)" using run_appends [OF assms(1), of s] run by simp
  ultimately show "runs_again (fst (run_state (State_Monad.bind m f) s)) \<or>
      told upd obj P s (snd (run_state (State_Monad.bind m f) s))"
    unfolding told_def using run by (auto intro: order_trans)
qed

lemma again_unless_told:
  fixes g :: "'a \<Rightarrow> ('cl, reconcile_result) op"
  assumes "\<And>c. appends (g c)" and "\<And>c. \<not> P c \<Longrightarrow> returns runs_again (g c)"
  shows "again_unless (told upd obj P)
    (State_Monad.bind (ask (KStatusUpdate (obj x)) (\<lambda>n. upd n x))
      (\<lambda>u. case u of Inl err \<Rightarrow> State_Monad.return (Failed (w err)) | Inr c \<Rightarrow> g c))"
  unfolding again_unless_def
proof
  fix s :: "'cl op_state"
  let ?m = "State_Monad.bind (ask (KStatusUpdate (obj x)) (\<lambda>n. upd n x))
      (\<lambda>u. case u of Inl err \<Rightarrow> State_Monad.return (Failed (w err)) | Inr c \<Rightarrow> g c)"
  let ?t = "s\<lparr>trace := trace s @ [KStatusUpdate (obj x)]\<rparr>"
  show "runs_again (fst (run_state ?m s)) \<or> told upd obj P s (snd (run_state ?m s))"
  proof (cases "upd (length (trace s)) x")
    case (Inl err)
    then show ?thesis by (simp add: run_simps)
  next
    case (Inr c)
    have "trace (snd (run_state (g c) ?t)) = trace s @ KStatusUpdate (obj x) # calls (g c) ?t"
      using run_appends [OF assms(1), of c ?t] by simp
    with Inr have "P c \<Longrightarrow> told upd obj P s (snd (run_state (g c) ?t))"
      unfolding told_def by (intro exI [of _ "length (trace s)"] exI [of _ x] exI [of _ c]) simp
    with Inr assms(2) [of c] show ?thesis by (auto simp: run_simps returns_def)
  qed
qed

lemma again_unless_branches:
  "(b \<Longrightarrow> again_unless T m) \<Longrightarrow> (\<not> b \<Longrightarrow> again_unless T n) \<Longrightarrow> again_unless T (if b then m else n)"
  "(\<And>e. x = Inl e \<Longrightarrow> again_unless T (f e)) \<Longrightarrow> (\<And>a. x = Inr a \<Longrightarrow> again_unless T (g a)) \<Longrightarrow>
     again_unless T (case x of Inl e \<Rightarrow> f e | Inr a \<Rightarrow> g a)"
  "(\<And>u v. z = (u, v) \<Longrightarrow> again_unless T (q u v)) \<Longrightarrow> again_unless T (case z of (u, v) \<Rightarrow> q u v)"
  by (cases x; cases z; simp)+

lemma again_Resource: "again_unless (told_no_interval E) (Resource_track E cl tn p r)"
  unfolding Resource_track_def Let_def checkResource_def shouldCheck_def fetchLatestVersion_def
  by (intro again_unless_bind again_unless_branches again_unless_told appends_rules)
     (auto split: option.splits)

lemma again_Build: "again_unless (told_terminal E) (Build_track E cl tn pn jn b)"
  unfolding Build_track_def Let_def triggerIfNew_def abortIfAsked_def refreshStatus_def setComplete_def
  by (intro again_unless_bind again_unless_branches again_unless_told appends_rules appends_startWatcher
      again_Build_not_ready [THEN again_unless_returns] returns_rules) simp_all

lemma again_Instance: "again_unless (told_negative E) (Instance_apply E i)"
  unfolding Instance_apply_def Instance_status_def Let_def
  by (intro again_unless_bind again_unless_branches again_unless_told appends_rules
      again_Instance_failed [THEN again_unless_returns] returns_rules) (auto simp: not_less order_le_less)

subsection \<open>Nothing is forgotten\<close>

lemma after_read:
  assumes "\<And>x t. f (length (trace s)) = Inr x \<Longrightarrow> IsZero (lib E) (DeletionTimestamp (meta x)) \<Longrightarrow>
      t = snd (run_state (B x) (s\<lparr>trace := trace s @ [c]\<rparr>)) \<Longrightarrow>
      runs_again (fst (run_state (B x) (s\<lparr>trace := trace s @ [c]\<rparr>))) \<or> P t x"
    and "m = State_Monad.bind (ask c f) (\<lambda>r. case r of
        Inl err \<Rightarrow> State_Monad.return (Result0, IgnoreNotFound (lib E) err)
      | Inr x \<Rightarrow> if \<not> IsZero (lib E) (DeletionTimestamp (meta x)) then A x else B x)"
  shows "runs_again (fst (run_state m s)) \<or> read_settled E (f (length (trace s))) meta (P (snd (run_state m s)))"
  using assms by (cases "f (length (trace s))") (auto simp: run_simps read_settled_def)

lemma runs_returns: "returns Q m \<Longrightarrow> Q (fst (run_state m s))"
  by (simp add: returns_def)

lemma again_run: "again_unless T m \<Longrightarrow> \<not> runs_again (fst (run_state m s)) \<Longrightarrow> T s (snd (run_state m s))"
  by (auto simp: again_unless_def)

lemma told_later: "told upd obj P (s\<lparr>trace := trace s @ cs\<rparr>) t \<Longrightarrow> told upd obj P s t"
  unfolding told_def by (auto dest: add_leD1)

lemma again_bind_run:
  assumes "again_unless (told upd obj P) (State_Monad.bind m f)"
    and "\<not> told upd obj P s (snd (case run_state m (s\<lparr>trace := trace s @ cs\<rparr>) of (a, x) \<Rightarrow> run_state (f a) x))"
  shows "runs_again (fst (case run_state m (s\<lparr>trace := trace s @ cs\<rparr>) of (a, x) \<Rightarrow> run_state (f a) x))"
  using again_run [OF assms(1), of "s\<lparr>trace := trace s @ cs\<rparr>"] assms(2) told_later by (metis run_state_bind)

lemma settled_Instance:
  "runs_again (fst (run_state (Instance_Reconcile E req) s)) \<or>
   settled E Ctl_Instance req s (snd (run_state (Instance_Reconcile E req) s))"
proof -
  let ?s = "s\<lparr>trace := trace s @ [KGet KInstance req]\<rparr>"
  have fin: "again_unless (told_negative E) (State_Monad.bind (if b then (let j = g i in ask (KUpdate (OInstance j)) (\<lambda>n. Update_Instance (k8s E) n j))
      else State_Monad.return (Inr i)) (\<lambda>f. case f of
        Inl err \<Rightarrow> State_Monad.return (Failed (Wrapf ''add finalizer'' err)) | Inr i \<Rightarrow> Instance_apply E i))" for b g i
    unfolding Let_def
    by (intro again_unless_bind again_unless_branches again_Instance appends_rules
        returns_return [THEN again_unless_returns]) simp_all
  show ?thesis
    unfolding settled.simps
  proof (rule after_read [OF _ Instance_Reconcile_def], goal_cases)
    case (1 i t)
    let ?b = "\<not> ContainsFinalizer (lib E) (Instance_ObjectMeta i) instanceFinalizer"
    let ?g = "\<lambda>i. i\<lparr>Instance_ObjectMeta := AddFinalizer (lib E) (Instance_ObjectMeta i) instanceFinalizer\<rparr>"
    from again_run [OF fin [of ?b ?g i], of ?s] show ?case unfolding 1(3) by (blast intro: told_later)
  qed
qed

lemma settled_Team:
  "runs_again (fst (run_state (Team_Reconcile E req) s)) \<or> settled E Ctl_Team req s t"
  unfolding settled.simps Team_Reconcile_def
  by (rule after_read [OF _ refl, where P = "\<lambda>_ _. False"])
     (auto simp: run_simps Let_def split: sum.split intro: runs_returns [OF again_Team])

lemma settled_Pipeline:
  "runs_again (fst (run_state (Pipeline_Reconcile E req) s)) \<or> settled E Ctl_Pipeline req s t"
  unfolding settled.simps Pipeline_Reconcile_def
  by (rule after_read [OF _ refl, where P = "\<lambda>_ _. False"])
     (auto simp: run_simps Let_def split: sum.split intro: runs_returns [OF again_Pipeline])

lemma settled_Job:
  "runs_again (fst (run_state (Job_Reconcile E req) s)) \<or> settled E Ctl_Job req s t"
  unfolding settled.simps Job_Reconcile_def
  by (rule after_read [OF _ refl, where P = "\<lambda>_ _. False"])
     (auto simp: run_simps Let_def split: sum.split prod.split intro: runs_returns [OF again_Job])

lemma settled_Worker:
  "runs_again (fst (run_state (Worker_Reconcile E req) s)) \<or> settled E Ctl_Worker req s t"
  unfolding settled.simps Worker_Reconcile_def
  by (rule after_read [OF _ refl, where P = "\<lambda>_ w. worker_settled E w s"])
     (auto simp: run_simps Let_def worker_settled_def parent_gone_def split: sum.split prod.split
       intro: again_Worker [THEN runs_returns])

lemma settled_Resource:
  "runs_again (fst (run_state (Resource_Reconcile E req) s)) \<or>
   settled E Ctl_Resource req s (snd (run_state (Resource_Reconcile E req) s))"
  unfolding settled.simps
proof (rule after_read [OF _ Resource_Reconcile_def], goal_cases)
  case (1 r t)
  have tail: "again_unless (told_no_interval E) (State_Monad.bind (resolveClientForPipeline E p) (\<lambda>c. case c of
      Inl err \<Rightarrow> Resource_not_ready E r ''ChainNotReady'' (Error err) | Inr (cl, tn) \<Rightarrow> Resource_track E cl tn p r))" for p
    by (intro again_unless_bind again_unless_branches again_Resource appends_rules
        again_Resource_not_ready [THEN again_unless_returns])
  from 1 again_Resource_not_ready [THEN runs_returns] show ?case
    by (auto simp: run_simps Let_def resource_settled_def parent_gone_def split: sum.splits if_splits
        intro: again_bind_run [OF tail])
qed

lemma settled_Build:
  "runs_again (fst (run_state (Build_Reconcile E req) s)) \<or>
   settled E Ctl_Build req s (snd (run_state (Build_Reconcile E req) s))"
  unfolding settled.simps
proof (rule after_read [OF _ Build_Reconcile_def], goal_cases)
  case (1 b t)
  have tail: "again_unless (told_terminal E) (State_Monad.bind (resolveClientForJob E job) (\<lambda>c. case c of
      Inl err \<Rightarrow> Build_not_ready E b ''ChainNotReady'' (Error err) (Requeue (30 * Second))
    | Inr (cl, tn, pn) \<Rightarrow> Build_track E cl tn pn jn b))" for job jn
    by (intro again_unless_bind again_unless_branches again_Build appends_rules
        again_Build_not_ready [THEN again_unless_returns]) simp
  from 1 show ?case
    by (auto simp: run_simps Let_def build_settled_def parent_gone_def split: sum.splits if_splits option.splits
        intro: again_bind_run [OF tail])
qed

text \<open>
  C15: no request is forgotten: whatever the cluster and Concourse answer, a reconciliation by any controller
  either returns an error or asks to be run again, or the answers it got settle the request: the object is
  gone or being deleted; a build is finished when read or in the answer to the status just sent, has no job
  reference or its job is gone; the pipeline of a resource or the instance of a worker is gone; or the answer to
  the status just sent has a check interval that is not positive, or an instance's interval that is negative.
\<close>

theorem nothing_forgotten:
  "runs_again (fst (run_state (dispatch E ctl req) s)) \<or>
   settled E ctl req s (snd (run_state (dispatch E ctl req) s))"
  using settled_Instance settled_Team settled_Pipeline settled_Job settled_Build settled_Resource settled_Worker
  by (cases ctl) (simp_all del: settled.simps)

text \<open>
  C36: a missing parent is not waited for: when the instance of a worker, the pipeline of a resource or the job
  of a build does not exist, the reconciliation ends after the two reads without an error, a delay or a status,
  so that the object stays as it is until it is changed itself. (Teams, pipelines and jobs, whose parents are
  looked up by the resolvers, do retry.)
\<close>

theorem missing_parent_not_retried:
  assumes gone: "ignored E err" and n: "n = length (trace s)"
  shows "(Get_Worker (k8s E) n req = Inr w \<and> IsZero (lib E) (DeletionTimestamp (Worker_ObjectMeta w)) \<and>
      key = \<lparr>key_Namespace = Namespace (Worker_ObjectMeta w),
        key_Name = LocalObjectReference_Name (WorkerSpec_InstanceRef (Worker_Spec w))\<rparr> \<and>
      Get_Instance (k8s E) (Suc n) key = Inl err \<longrightarrow>
      run_state (Worker_Reconcile E req) s = (Done, s\<lparr>trace := trace s @ [KGet KWorker req, KGet KInstance key]\<rparr>)) \<and>
    (Get_Resource (k8s E) n req = Inr r \<and> IsZero (lib E) (DeletionTimestamp (Resource_ObjectMeta r)) \<and>
      key = \<lparr>key_Namespace = Namespace (Resource_ObjectMeta r),
        key_Name = LocalObjectReference_Name (ResourceSpec_PipelineRef (Resource_Spec r))\<rparr> \<and>
      Get_Pipeline (k8s E) (Suc n) key = Inl err \<longrightarrow>
      run_state (Resource_Reconcile E req) s = (Done, s\<lparr>trace := trace s @ [KGet KResource req, KGet KPipeline key]\<rparr>)) \<and>
    (Get_Build (k8s E) n req = Inr b \<and> IsZero (lib E) (DeletionTimestamp (Build_ObjectMeta b)) \<and>
      \<not> isTerminal (BuildStatus_ConcourseStatus (Build_Status b)) \<and> BuildSpec_JobRef (Build_Spec b) = Some ref \<and>
      key = \<lparr>key_Namespace = Namespace (Build_ObjectMeta b), key_Name = LocalObjectReference_Name ref\<rparr> \<and>
      Get_Job (k8s E) (Suc n) key = Inl err \<longrightarrow>
      run_state (Build_Reconcile E req) s = (Done, s\<lparr>trace := trace s @ [KGet KBuild req, KGet KJob key]\<rparr>))"
  using gone
  by (intro conjI impI; elim conjE;
      simp add: n Worker_Reconcile_def Resource_Reconcile_def Build_Reconcile_def run_simps Let_def)

definition ex_no_instance :: "ex_client env" where
  "ex_no_instance = ex_env\<lparr>k8s := ex_k8s\<lparr>Get_Instance := (\<lambda>_ _. Inl (ApiError True ''not found''))\<rparr>\<rparr>"

theorem missing_parent_not_retried_witness:
  "run_state (Worker_Reconcile ex_no_instance ex_req) op_init =
     (Done, op_init\<lparr>trace := [KGet KWorker ex_req, KGet KInstance \<lparr>key_Namespace = ''ns'', key_Name = ''ci''\<rparr>]\<rparr>)"
  using missing_parent_not_retried [of ex_no_instance "ApiError True ''not found''" 0 op_init ex_req ex_worker
      "\<lparr>key_Namespace = ''ns'', key_Name = ''ci''\<rparr>", THEN conjunct1]
  by (simp add: ex_no_instance_def ex_worker_def ex_ref_def)

end
