(* ===== verification/History.thy ===== *)
theory History
  imports Controllers
begin

section \<open>Effects over an object's life\<close>

text \<open>
  What a controller does for an object in one reconciliation is guarded by what the object's status records: a
  build is triggered while it has no id, a job creates a Build while its generation is not observed. This
  theory follows histories of reconciliations, by all controllers and for all requests in any order, and
  shows that over a whole history the guarded effect happens once, if the statuses sent with the record are
  what later reads show (\<open>durable\<close>: updates succeed and reads are not stale). The argument is the locale
  \<open>recorded_effect\<close>, interpreted for builds and for jobs.
\<close>

type_synonym history = "(controller \<times> ObjectKey) list"

fun run_history :: "'cl env \<Rightarrow> history \<Rightarrow> 'cl op_state \<Rightarrow> 'cl op_state" where
  "run_history E [] s = s"
| "run_history E ((c, r) # h) s = run_history E h (after E c r s)"

text \<open>The numbers of the interactions between \<open>s\<close> and \<open>t\<close> that are effects of a given kind.\<close>

definition effects_in :: "(nat \<Rightarrow> 'cl call \<Rightarrow> bool) \<Rightarrow> 'cl op_state \<Rightarrow> 'cl op_state \<Rightarrow> nat list" where
  "effects_in P s t = filter (\<lambda>n. P n (trace t ! n)) [length (trace s)..<length (trace t)]"

text \<open>Those of the reconciliations of one request by one controller that start in a state satisfying \<open>C\<close>.\<close>

fun history_effects :: "'cl env \<Rightarrow> (nat \<Rightarrow> 'cl call \<Rightarrow> bool) \<Rightarrow> controller \<Rightarrow> ObjectKey \<Rightarrow> ('cl op_state \<Rightarrow> bool) \<Rightarrow>
    history \<Rightarrow> 'cl op_state \<Rightarrow> nat list" where
  "history_effects E P ctl req C [] s = []"
| "history_effects E P ctl req C ((c, r) # h) s =
     (if c = ctl \<and> r = req \<and> C s then effects_in P s (after E c r s) else []) @
     history_effects E P ctl req C h (after E c r s)"

text \<open>
  A status for the object \<open>req\<close> that carries the record is in the trace \<open>tr\<close> before a read of \<open>req\<close>: then
  the read shows the record.
\<close>

definition durable ::
  "(nat \<Rightarrow> 'o go_result) \<Rightarrow> ('o \<Rightarrow> k8s_object) \<Rightarrow> ('o \<Rightarrow> ObjectMeta) \<Rightarrow> object_kind \<Rightarrow> ObjectKey \<Rightarrow> ('o \<Rightarrow> bool) \<Rightarrow> ('o \<Rightarrow> bool) \<Rightarrow>
   'cl call list \<Rightarrow> bool" where
  "durable get obj meta kind req relevant marked tr \<longleftrightarrow>
     (\<forall>m n x y. m < n \<and> n < length tr \<and> tr ! m = KStatusUpdate (obj x) \<and> marked x \<and>
        req = \<lparr>key_Namespace = Namespace (meta x), key_Name = Name (meta x)\<rparr> \<and>
        tr ! n = KGet kind req \<and> get n = Inr y \<and> relevant y \<longrightarrow> marked y)"

lemma after_appends: "\<exists>cs. trace (after E c r s) = trace s @ cs"
  using mgr.run_trace [of E c "[r]" s] by (simp add: after_def)

lemma after_reads: "\<exists>cs. trace (after E c r s) = trace s @ KGet (kind_of c) r # cs"
  using mgr.rec_reads [of c r E] unfolding reads_first_def after_def by blast

lemma run_history_appends: "\<exists>cs. trace (run_history E h s) = trace s @ cs"
proof (induction h arbitrary: s)
  case Nil
  then show ?case by simp
next
  case (Cons x h)
  obtain c r where x: "x = (c, r)" by (cases x)
  from after_appends [of E c r s] Cons.IH [of "after E c r s"] show ?case unfolding x by auto
qed

lemma effects_in_calls:
  assumes "trace t = trace s @ cs" and "\<And>n c. P n c \<Longrightarrow> Q c"
  shows "length (effects_in P s t) \<le> length (filter Q cs)"
proof -
  have "effects_in P s t = map (\<lambda>k. length (trace s) + k) (filter (\<lambda>k. P (length (trace s) + k) (cs ! k)) [0..<length cs])"
  proof -
    have "[length (trace s)..<length (trace t)] = map (\<lambda>k. length (trace s) + k) [0..<length cs]"
      using assms(1) by (simp add: map_add_upt add.commute)
    then show ?thesis using assms(1) by (simp add: effects_in_def filter_map comp_def nth_append)
  qed
  also have "length \<dots> \<le> length (filter (\<lambda>k. Q (cs ! k)) [0..<length cs])"
    using assms(2) by (simp add: length_filter_conv_card) (rule card_mono, auto)
  also have "\<dots> = length (filter Q cs)"
    by (metis (no_types, lifting) comp_def filter_cong filter_map length_map map_nth)
  finally show ?thesis .
qed

locale recorded_effect =
  fixes E :: "'cl env"
    and ctl :: controller
    and req :: ObjectKey
    and get :: "nat \<Rightarrow> 'o go_result"
    and obj :: "'o \<Rightarrow> k8s_object"
    and meta :: "'o \<Rightarrow> ObjectMeta"
    and P :: "nat \<Rightarrow> 'cl call \<Rightarrow> bool"
    and relevant :: "'o \<Rightarrow> bool"
    and marked :: "'o \<Rightarrow> bool"
  assumes once: "length (effects_in P s (after E ctl req s)) \<le> 1"
    and guarded: "get (length (trace s)) = Inr x \<Longrightarrow> relevant x \<Longrightarrow> marked x \<Longrightarrow> effects_in P s (after E ctl req s) = []"
    and recorded: "get (length (trace s)) = Inr x \<Longrightarrow> relevant x \<Longrightarrow> effects_in P s (after E ctl req s) \<noteq> [] \<Longrightarrow>
      \<exists>y. KStatusUpdate (obj y) \<in> set (calls (dispatch E ctl req) s) \<and> marked y \<and>
        Namespace (meta y) = Namespace (meta x) \<and> Name (meta y) = Name (meta x)"
begin

abbreviation counted :: "'cl op_state \<Rightarrow> bool" where
  "counted s \<equiv> \<exists>x. get (length (trace s)) = Inr x \<and> relevant x"

definition on_record :: "'cl op_state \<Rightarrow> bool" where
  "on_record s \<longleftrightarrow> (\<exists>y. KStatusUpdate (obj y) \<in> set (trace s) \<and> marked y \<and>
     req = \<lparr>key_Namespace = Namespace (meta y), key_Name = Name (meta y)\<rparr>)"

lemma on_record_after: "on_record s \<Longrightarrow> on_record (after E c r s)"
  using after_appends [of E c r s] by (auto simp: on_record_def)

lemma none_once_recorded:
  assumes "on_record s" and "durable get obj meta (kind_of ctl) req relevant marked (trace (run_history E h s))"
  shows "history_effects E P ctl req counted h s = []"
  using assms
proof (induction h arbitrary: s)
  case Nil
  then show ?case by simp
next
  case (Cons a h)
  obtain c r where a: "a = (c, r)" by (cases a)
  have "effects_in P s (after E ctl req s) = []" if eq: "c = ctl" "r = req" and x: "get (length (trace s)) = Inr x" "relevant x" for x
  proof -
    from Cons.prems(1) obtain y m where m: "m < length (trace s)" "trace s ! m = KStatusUpdate (obj y)" "marked y"
      "req = \<lparr>key_Namespace = Namespace (meta y), key_Name = Name (meta y)\<rparr>"
      unfolding on_record_def in_set_conv_nth by metis
    obtain cs where tr: "trace (run_history E (a # h) s) = trace s @ KGet (kind_of ctl) req # cs"
      using after_reads [of E ctl req s] run_history_appends [of E h "after E ctl req s"] eq a by auto
    have "marked x"
      using Cons.prems(2) [unfolded durable_def, rule_format, of m "length (trace s)" y x] m x tr
      by (simp add: nth_append)
    with x show ?thesis by (rule guarded)
  qed
  with Cons a on_record_after [of s c r] show ?case by auto
qed

lemma once_in_history:
  assumes keys: "\<And>n x. get n = Inr x \<Longrightarrow> req = \<lparr>key_Namespace = Namespace (meta x), key_Name = Name (meta x)\<rparr>"
    and "durable get obj meta (kind_of ctl) req relevant marked (trace (run_history E h s))"
  shows "length (history_effects E P ctl req counted h s) \<le> 1"
  using assms(2)
proof (induction h arbitrary: s)
  case Nil
  then show ?case by simp
next
  case (Cons a h)
  obtain c r where a: "a = (c, r)" by (cases a)
  from Cons.prems a have dur: "durable get obj meta (kind_of ctl) req relevant marked (trace (run_history E h (after E c r s)))"
    by simp
  show ?case
  proof (cases "c = ctl \<and> r = req \<and> counted s \<and> effects_in P s (after E c r s) \<noteq> []")
    case True
    then obtain x where x: "get (length (trace s)) = Inr x" "relevant x" by blast
    from recorded [OF x] True obtain y where y: "KStatusUpdate (obj y) \<in> set (calls (dispatch E ctl req) s)" "marked y"
      "Namespace (meta y) = Namespace (meta x)" "Name (meta y) = Name (meta x)" by blast
    obtain cs where "trace (after E c r s) = trace s @ cs" using after_appends [of E c r s] by blast
    with y(1) True have "KStatusUpdate (obj y) \<in> set (trace (after E c r s))" by (simp add: calls_def after_def)
    with y keys [OF x(1)] have "on_record (after E c r s)" unfolding on_record_def by metis
    from none_once_recorded [OF this dur] True a once [of s] show ?thesis by simp
  next
    case False
    with Cons.IH [OF dur] a show ?thesis by auto
  qed
qed

end

subsection \<open>Builds\<close>

text \<open>Concourse accepted a trigger and gave the build an id (ids are positive).\<close>

fun build_started :: "'cl env \<Rightarrow> nat \<Rightarrow> 'cl call \<Rightarrow> bool" where
  "build_started E n (TCreateJobBuild cl t r j) =
     (case Team_CreateJobBuild (atc E) n cl t r j of Inl _ \<Rightarrow> False | Inr b \<Rightarrow> atcBuild_ID b \<noteq> 0)"
| "build_started E n _ = False"

lemma build_started_trigger: "build_started E n c \<Longrightarrow> is_trigger c"
  by (cases c) auto

lemma emits_none:
  assumes "state_io_rel (emits (\<lambda>c. \<not> Q c)) m" and "run_state m s = (a, t)"
  shows "\<exists>cs. trace t = trace s @ cs \<and> filter Q cs = []"
  using emits_run [OF assms] by (auto simp: emits_def list_all_iff filter_empty_conv)

lemma only_position:
  assumes "trace t = trace u @ c # rest" and "trace u = trace s @ cs" and "filter Q cs = []" and "filter Q rest = []"
    and "Q (trace t ! n)" and "length (trace s) \<le> n" and "n < length (trace t)"
  shows "n = length (trace u)"
proof (rule ccontr)
  assume other: "n \<noteq> length (trace u)"
  show False
  proof (cases "n < length (trace u)")
    case True
    with assms(1,2,6) have "trace t ! n \<in> set cs" by (auto simp: nth_append less_diff_conv2)
    with assms(3,5) show False by (simp add: filter_empty_conv)
  next
    case False
    with other obtain k where "n = Suc (length (trace u) + k)" by (metis less_iff_Suc_add linorder_neqE_nat)
    with assms(1,7) have "trace t ! n \<in> set rest" by (simp add: nth_append)
    with assms(4,5) show False by (simp add: filter_empty_conv)
  qed
qed

lemma not_ready_no_trigger:
  "\<exists>cs. trace (snd (run_state (Build_not_ready E b reason msg r) u)) = trace u @ cs \<and> filter is_trigger cs = []"
  using emits_none [OF later_stages_no_trigger(1)] by (metis prod.collapse)

text \<open>The part of \<open>Reconcile\<close> after the job was read: it comes to \<open>Build_track\<close>, or triggers nothing.\<close>

lemma resolved_reaches:
  assumes "trace v = trace s @ pre" and "filter is_trigger pre = []"
    and m: "m = State_Monad.bind (resolveClientForJob E job) (\<lambda>c. case c of
        Inl err \<Rightarrow> Build_not_ready E b ''ChainNotReady'' (Error err) (Requeue (30 * Second))
      | Inr (cl, tn, pn) \<Rightarrow> Build_track E cl tn pn jn b)"
  shows "(\<exists>cs. trace (snd (run_state m v)) = trace s @ cs \<and> filter is_trigger cs = []) \<or>
    (\<exists>cl tn pn u cs. trace u = trace s @ cs \<and> filter is_trigger cs = [] \<and>
       run_state m v = run_state (Build_track E cl tn pn jn b) u)"
proof -
  obtain r u where res: "run_state (resolveClientForJob E job) v = (r, u)" by (meson prod.exhaust)
  have "state_io_rel (emits (\<lambda>c. \<not> is_trigger c)) (resolveClientForJob E job)" by (rule emits_resolvers_if) simp
  from emits_none [OF this res] obtain cs where u: "trace u = trace s @ pre @ cs" "filter is_trigger cs = []"
    using assms(1) by auto
  show ?thesis
  proof (cases r)
    case (Inl err)
    with res not_ready_no_trigger [of E b "''ChainNotReady''" "Error err" "Requeue (30 * Second)" u] u assms(2)
    show ?thesis by (auto simp: m)
  next
    case (Inr x)
    then obtain cl tn pn where "r = Inr (cl, tn, pn)" by (cases x) auto
    with res u assms(2) show ?thesis unfolding m by (intro disjI2 exI [of _ cl] exI [of _ tn] exI [of _ pn] exI [of _ u]) auto
  qed
qed

lemma Build_Reconcile_reaches:
  "(\<exists>cs. trace (snd (run_state (Build_Reconcile E req) s)) = trace s @ cs \<and> filter is_trigger cs = []) \<or>
   (\<exists>b cl tn pn jn u cs. Get_Build (k8s E) (length (trace s)) req = Inr b \<and> trace u = trace s @ cs \<and>
      filter is_trigger cs = [] \<and> run_state (Build_Reconcile E req) s = run_state (Build_track E cl tn pn jn b) u)"
proof (cases "Get_Build (k8s E) (length (trace s)) req")
  case (Inl err)
  then show ?thesis by (simp add: Build_Reconcile_def run_simps)
next
  case (Inr b)
  note get = this
  let ?s1 = "s\<lparr>trace := trace s @ [KGet KBuild req]\<rparr>"
  show ?thesis
  proof (cases "\<not> IsZero (lib E) (DeletionTimestamp (Build_ObjectMeta b)) \<or>
      isTerminal (BuildStatus_ConcourseStatus (Build_Status b)) \<or> BuildSpec_JobRef (Build_Spec b) = None")
    case True
    with get not_ready_no_trigger [of E b "''NoJobRef''" "''jobRef is required for non-one-off builds''" Done ?s1]
    show ?thesis by (auto simp: Build_Reconcile_def run_simps)
  next
    case False
    then obtain ref where live: "IsZero (lib E) (DeletionTimestamp (Build_ObjectMeta b))"
      "\<not> isTerminal (BuildStatus_ConcourseStatus (Build_Status b))" "BuildSpec_JobRef (Build_Spec b) = Some ref" by auto
    let ?key = "\<lparr>key_Namespace = Namespace (Build_ObjectMeta b), key_Name = LocalObjectReference_Name ref\<rparr>"
    let ?cs = "[KGet KBuild req, KGet KJob ?key]"
    show ?thesis
    proof (cases "Get_Job (k8s E) (Suc (length (trace s))) ?key")
      case (Inl err)
      with get live show ?thesis by (simp add: Build_Reconcile_def run_simps Let_def)
    next
      case (Inr job)
      let ?jn = "if JobSpec_JobName (Job_Spec job) = '''' then Name (Job_ObjectMeta job) else JobSpec_JobName (Job_Spec job)"
      define m where "m = State_Monad.bind (resolveClientForJob E job) (\<lambda>c. case c of
          Inl err \<Rightarrow> Build_not_ready E b ''ChainNotReady'' (Error err) (Requeue (30 * Second))
        | Inr (cl, tn, pn) \<Rightarrow> Build_track E cl tn pn ?jn b)"
      define v where "v = s\<lparr>trace := trace s @ ?cs\<rparr>"
      have run: "run_state (Build_Reconcile E req) s = run_state m v"
        using Inr get live by (simp add: Build_Reconcile_def m_def v_def run_simps Let_def)
      have "trace v = trace s @ ?cs" "filter is_trigger ?cs = []" by (simp_all add: v_def)
      from resolved_reaches [OF this m_def] show ?thesis
      proof (elim disjE exE conjE)
        fix cs assume "trace (snd (run_state m v)) = trace s @ cs" "filter is_trigger cs = []"
        then show ?thesis unfolding run by blast
      next
        fix cl tn pn u cs
        assume "trace u = trace s @ cs" "filter is_trigger cs = []" "run_state m v = run_state (Build_track E cl tn pn ?jn b) u"
        with get show ?thesis unfolding run by blast
      qed
    qed
  qed
qed

lemma Build_track_rest:
  "\<exists>rest. trace (snd (run_state (Build_track E cl tn pn jn b) u)) =
     trace (snd (run_state (triggerIfNew E cl tn pn jn (Build_Status b)) u)) @ rest \<and> filter is_trigger rest = []"
proof -
  have "\<exists>f. Build_track E cl tn pn jn b = State_Monad.bind (triggerIfNew E cl tn pn jn (Build_Status b)) f \<and>
      (\<forall>a. state_io_rel (emits (\<lambda>c. \<not> is_trigger c)) (f a))"
    unfolding Build_track_def
    by (rule exI, rule conjI, rule refl)
       (rule allI, intro em.effect_rules later_stages_no_trigger emits_setCondition emits_ask; simp)
  then obtain f where f: "Build_track E cl tn pn jn b = State_Monad.bind (triggerIfNew E cl tn pn jn (Build_Status b)) f"
    and none: "state_io_rel (emits (\<lambda>c. \<not> is_trigger c)) (f a)" for a by blast
  obtain r v where v: "run_state (triggerIfNew E cl tn pn jn (Build_Status b)) u = (r, v)" by (meson prod.exhaust)
  from emits_none [OF none, of r v] obtain rest where "trace (snd (run_state (f r) v)) = trace v @ rest" "filter is_trigger rest = []"
    by (metis prod.collapse)
  with v f show ?thesis by simp
qed

abbreviation "build_get E req n \<equiv> Get_Build (k8s E) n req"
abbreviation "has_id b \<equiv> BuildStatus_BuildID (Build_Status b) \<noteq> 0"

lemma no_trigger_no_effect:
  assumes "trace t = trace s @ cs" and "filter is_trigger cs = []"
  shows "effects_in (build_started E) s t = []"
  using effects_in_calls [OF assms(1), of "build_started E" is_trigger] assms(2) build_started_trigger by fastforce

lemma Build_track_started:
  assumes t: "t = snd (run_state (Build_track E cl tn pn jn b) u)"
    and n: "length (trace u) \<le> n" "n < length (trace t)" "build_started E n (trace t ! n)"
  shows "\<exists>y. KStatusUpdate (OBuild y) \<in> set (drop (length (trace u)) (trace t)) \<and> has_id y \<and>
    Build_ObjectMeta y = Build_ObjectMeta b"
proof -
  let ?ref = "\<lparr>PipelineRef_Name = pn\<rparr>"
  let ?c = "TCreateJobBuild cl tn ?ref jn"
  have fresh: "\<not> has_id b"
  proof
    assume "has_id b"
    from emits_none [OF emits_no_trigger_track [OF this], of E cl tn pn jn u] obtain cs where
      "trace t = trace u @ cs" "filter is_trigger cs = []" unfolding t by (metis prod.collapse)
    with n build_started_trigger [OF n(3)] show False by (auto simp: nth_append filter_empty_conv)
  qed
  then have v: "trace (snd (run_state (triggerIfNew E cl tn pn jn (Build_Status b)) u)) = trace u @ [?c]"
    by (simp add: triggerIfNew_def run_simps Let_def split: sum.split)
  with Build_track_rest [of E cl tn pn jn b u] obtain rest where
    tr: "trace t = trace u @ ?c # rest" "filter is_trigger rest = []" unfolding t by auto
  from only_position [OF tr(1), where s = u, OF _ _ tr(2) build_started_trigger [OF n(3)] n(1,2)] have "n = length (trace u)"
    by simp
  with n(3) tr obtain ab where ab: "Team_CreateJobBuild (atc E) (length (trace u)) cl tn ?ref jn = Inr ab" "atcBuild_ID ab \<noteq> 0"
    by (auto simp: nth_append split: sum.splits)
  with fresh obtain st v' where trig: "run_state (triggerIfNew E cl tn pn jn (Build_Status b)) u = (Inr st, v')"
    and st: "BuildStatus_BuildID st = atcBuild_ID ab"
    by (simp add: triggerIfNew_def run_simps Let_def)
  show ?thesis
  proof (rule Build_track_sends [OF trig refl refl], goal_cases)
    case (1 y now now')
    with v trig st ab(2) show ?case by (intro exI [of _ y]) (auto simp: t)
  qed
qed

lemma build_started_recorded:
  assumes "effects_in (build_started E) s (after E Ctl_Build req s) \<noteq> []"
  shows "\<exists>b y. Get_Build (k8s E) (length (trace s)) req = Inr b \<and>
    KStatusUpdate (OBuild y) \<in> set (calls (Build_Reconcile E req) s) \<and> has_id y \<and> Build_ObjectMeta y = Build_ObjectMeta b"
proof -
  let ?t = "after E Ctl_Build req s"
  from assms obtain n where n: "length (trace s) \<le> n" "n < length (trace ?t)" "build_started E n (trace ?t ! n)"
    by (auto simp: effects_in_def filter_empty_conv)
  from Build_Reconcile_reaches [of E req s] assms no_trigger_no_effect obtain b cl tn pn jn u cs where
    b: "Get_Build (k8s E) (length (trace s)) req = Inr b" and u: "trace u = trace s @ cs" "filter is_trigger cs = []"
    and run: "?t = snd (run_state (Build_track E cl tn pn jn b) u)"
    by (fastforce simp: after_def)
  obtain ds where t: "trace ?t = trace u @ ds"
    using at_most_Build_track [of E cl tn pn jn b] unfolding at_most_def run by blast
  have "length (trace u) \<le> n"
  proof (rule ccontr)
    assume "\<not> length (trace u) \<le> n"
    with n(1) t u(1) have "trace ?t ! n \<in> set cs" by (auto simp: nth_append less_diff_conv2)
    with u(2) build_started_trigger [OF n(3)] show False by (simp add: filter_empty_conv)
  qed
  from Build_track_started [OF run this n(2,3)] obtain y where
    y: "KStatusUpdate (OBuild y) \<in> set (drop (length (trace u)) (trace ?t))" "has_id y" "Build_ObjectMeta y = Build_ObjectMeta b"
    by blast
  with t u(1) have "KStatusUpdate (OBuild y) \<in> set (calls (Build_Reconcile E req) s)" by (simp add: calls_def after_def)
  with b y show ?thesis by blast
qed

interpretation bt: recorded_effect E Ctl_Build req "build_get E req" OBuild Build_ObjectMeta "build_started E"
    "\<lambda>_. True" has_id for E :: "'cl env" and req :: ObjectKey
proof
  fix s :: "'cl op_state" and b :: Build
  let ?t = "after E Ctl_Build req s"
  obtain cs where t: "trace ?t = trace s @ cs" using after_appends by blast
  then have "cs = calls (Build_Reconcile E req) s" by (simp add: calls_def after_def)
  with effects_in_calls [OF t, of "build_started E" is_trigger] build_started_trigger
    build_triggered_at_most_once [of E req s]
  show "length (effects_in (build_started E) s ?t) \<le> 1" by (meson le_trans)
  assume get: "build_get E req (length (trace s)) = Inr b"
  show "effects_in (build_started E) s ?t = []" if "has_id b"
    using Build_Reconcile_reaches [of E req s]
  proof (elim disjE exE conjE)
    fix cs assume "trace (snd (run_state (Build_Reconcile E req) s)) = trace s @ cs" "filter is_trigger cs = []"
    then show ?thesis by (intro no_trigger_no_effect) (simp_all add: after_def)
  next
    fix b' cl tn pn jn u cs
    assume b': "Get_Build (k8s E) (length (trace s)) req = Inr b'" and u: "trace u = trace s @ cs" "filter is_trigger cs = []"
      and run: "run_state (Build_Reconcile E req) s = run_state (Build_track E cl tn pn jn b') u"
    from emits_none [OF emits_no_trigger_track, of b' E cl tn pn jn u] b' get that obtain ds where
      "trace (snd (run_state (Build_track E cl tn pn jn b') u)) = trace u @ ds" "filter is_trigger ds = []"
      by (metis prod.collapse sum.inject(2))
    with u run show ?thesis by (intro no_trigger_no_effect [of _ _ "cs @ ds"]) (simp_all add: after_def)
  qed
  show "\<exists>y. KStatusUpdate (OBuild y) \<in> set (calls (dispatch E Ctl_Build req) s) \<and> has_id y \<and>
      Namespace (Build_ObjectMeta y) = Namespace (Build_ObjectMeta b) \<and> Name (Build_ObjectMeta y) = Name (Build_ObjectMeta b)"
    if effect: "effects_in (build_started E) s ?t \<noteq> []"
    using build_started_recorded [OF effect] get by auto
qed

subsection \<open>Jobs\<close>

text \<open>A handler every run of which issues a call that satisfies \<open>Q\<close>.\<close>

definition sends :: "('cl call \<Rightarrow> bool) \<Rightarrow> ('cl, 'a) op \<Rightarrow> bool" where
  "sends Q m \<longleftrightarrow> (\<forall>s. \<exists>c \<in> set (calls m s). Q c)"

lemma sends_bind_last:
  assumes "appends m" and "\<And>a. appends (f a)" and "\<And>a. sends Q (f a)"
  shows "sends Q (State_Monad.bind m f)"
  using assms(3) unfolding sends_def calls_bind [OF assms(1,2)] by auto

lemma sends_bind_first:
  assumes "Q c" and "\<And>a. appends (g a)"
  shows "sends Q (State_Monad.bind (ask c f) g)"
  unfolding sends_def calls_bind [OF emits_ask [where P = "\<lambda>_. True", OF TrueI] assms(2)] using assms(1) by simp

fun is_job_status :: "'cl call \<Rightarrow> bool" where
  "is_job_status (KStatusUpdate (OJob j)) = True"
| "is_job_status _ = False"

lemma appends_reportLastBuild: "appends (reportLastBuild E r st)"
  unfolding reportLastBuild_def by (intro appends_rules; simp)

lemma sends_Job_track: "sends is_job_status (Job_track E cl tn pn job)"
  unfolding Job_track_def Let_def
  by (intro sends_bind_last sends_bind_first appends_rules appends_stages appends_reportLastBuild) simp_all

lemma Job_Reconcile_reaches:
  "(\<exists>cs. trace (snd (run_state (Job_Reconcile E req) s)) = trace s @ cs \<and> filter is_create cs = []) \<or>
   (\<exists>j cl tn pn u cs. Get_Job (k8s E) (length (trace s)) req = Inr j \<and> trace u = trace s @ cs \<and>
      filter is_create cs = [] \<and> run_state (Job_Reconcile E req) s = run_state (Job_track E cl tn pn j) u)"
proof (cases "Get_Job (k8s E) (length (trace s)) req")
  case (Inl err)
  then show ?thesis by (simp add: Job_Reconcile_def run_simps)
next
  case (Inr j)
  let ?s1 = "s\<lparr>trace := trace s @ [KGet KJob req]\<rparr>"
  obtain r u where res: "run_state (resolveClientForJob E j) ?s1 = (r, u)" by (meson prod.exhaust)
  have "state_io_rel (emits (\<lambda>c. \<not> is_create c)) (resolveClientForJob E j)" by (rule emits_resolvers_if) simp
  from emits_none [OF this res] obtain cs where u: "trace u = trace ?s1 @ cs" "filter is_create cs = []" by blast
  show ?thesis
  proof (cases "IsZero (lib E) (DeletionTimestamp (Job_ObjectMeta j))")
    case False
    with Inr show ?thesis by (simp add: Job_Reconcile_def run_simps)
  next
    case live: True
    show ?thesis
    proof (cases r)
      case (Inl err)
      with Inr live res u show ?thesis by (auto simp: Job_Reconcile_def run_simps Let_def)
    next
      case r: (Inr x)
      obtain cl tn pn where "x = (cl, tn, pn)" by (cases x)
      with Inr live res r have "run_state (Job_Reconcile E req) s = run_state (Job_track E cl tn pn j) u"
        by (simp add: Job_Reconcile_def run_simps)
      moreover have "trace u = trace s @ KGet KJob req # cs" using u by simp
      ultimately show ?thesis using Inr u by fastforce
    qed
  qed
qed

abbreviation "job_get E req n \<equiv> Get_Job (k8s E) n req"
abbreviation "of_generation g j \<equiv> Generation (Job_ObjectMeta j) = g"
abbreviation "observed g j \<equiv> JobStatus_ObservedGeneration (Job_Status j) = g"

lemma appends_Job_track: "appends (Job_track E cl tn pn job)"
  by (rule appends_emits [OF emits_observed_status])

lemma job_effects:
  obtains "effects_in (\<lambda>_. is_create) s (after E Ctl_Job req s) = []"
  | j cl tn pn u where "Get_Job (k8s E) (length (trace s)) req = Inr j" "trigger_due j"
      "length (effects_in (\<lambda>_. is_create) s (after E Ctl_Job req s)) \<le> 1"
      "set (calls (Job_track E cl tn pn j) u) \<subseteq> set (calls (Job_Reconcile E req) s)"
proof -
  let ?t = "after E Ctl_Job req s"
  from Job_Reconcile_reaches [of E req s] show thesis
  proof (elim disjE exE conjE)
    fix cs assume "trace (snd (run_state (Job_Reconcile E req) s)) = trace s @ cs" "filter is_create cs = []"
    then show thesis using effects_in_calls [of ?t s cs "\<lambda>_. is_create" is_create]
      by (intro that(1)) (simp add: after_def)
  next
    fix j cl tn pn u cs
    assume get: "Get_Job (k8s E) (length (trace s)) req = Inr j" and u: "trace u = trace s @ cs" "filter is_create cs = []"
      and run: "run_state (Job_Reconcile E req) s = run_state (Job_track E cl tn pn j) u"
    have t: "trace ?t = trace s @ cs @ calls (Job_track E cl tn pn j) u"
      using run_appends [OF appends_Job_track, of E cl tn pn j u] run u by (simp add: after_def)
    have creates: "filter is_create (cs @ calls (Job_track E cl tn pn j) u) =
        (if trigger_due j then map KCreate (build_of E j) else [])"
      using u(2) by (simp add: create_Job_track)
    have calls: "set (calls (Job_track E cl tn pn j) u) \<subseteq> set (calls (Job_Reconcile E req) s)"
      using t by (auto simp: calls_def [of "Job_Reconcile E req"] after_def)
    have le: "length (effects_in (\<lambda>_. is_create) s ?t) \<le> (if trigger_due j then length (build_of E j) else 0)"
      using effects_in_calls [OF t, of "\<lambda>_. is_create" is_create] unfolding creates by (simp split: if_splits)
    show thesis
    proof (cases "trigger_due j")
      case True
      with le have "length (effects_in (\<lambda>_. is_create) s ?t) \<le> 1" by (auto simp: build_of_def split: sum.splits)
      with get True calls show thesis by (intro that(2))
    next
      case False
      with le show thesis by (intro that(1)) simp
    qed
  qed
qed

interpretation jc: recorded_effect E Ctl_Job req "job_get E req" OJob Job_ObjectMeta "\<lambda>_. is_create"
    "of_generation g" "observed g" for E :: "'cl env" and req :: ObjectKey and g :: int
proof
  fix s :: "'cl op_state" and j :: Job
  let ?t = "after E Ctl_Job req s"
  show "length (effects_in (\<lambda>_. is_create) s ?t) \<le> 1" by (rule job_effects [of s E req]) simp_all
  assume get: "job_get E req (length (trace s)) = Inr j" and gen: "of_generation g j"
  show "effects_in (\<lambda>_. is_create) s ?t = []" if "observed g j"
    by (rule job_effects [of s E req]) (use get gen that in \<open>auto simp: trigger_due_def\<close>)
  assume effect: "effects_in (\<lambda>_. is_create) s ?t \<noteq> []"
  show "\<exists>y. KStatusUpdate (OJob y) \<in> set (calls (dispatch E Ctl_Job req) s) \<and> observed g y \<and>
      Namespace (Job_ObjectMeta y) = Namespace (Job_ObjectMeta j) \<and> Name (Job_ObjectMeta y) = Name (Job_ObjectMeta j)"
  proof (rule job_effects [of s E req])
    fix j' cl tn pn u
    assume j': "Get_Job (k8s E) (length (trace s)) req = Inr j'"
      and calls: "set (calls (Job_track E cl tn pn j') u) \<subseteq> set (calls (Job_Reconcile E req) s)"
    obtain c where c: "c \<in> set (calls (Job_track E cl tn pn j') u)" "is_job_status c"
      using sends_Job_track [of E cl tn pn j'] unfolding sends_def by blast
    then obtain y where "c = KStatusUpdate (OJob y)" by (cases c rule: is_job_status.cases) auto
    with c calls emits_calls [OF emits_observed_status, of c E cl tn pn j' u] j' get gen show ?thesis by auto
  qed (use effect in simp)
qed

text \<open>
  C9: over a build object's whole life Concourse starts at most one build for it. In any history of
  reconciliations, by all controllers and for all objects in any order, whatever Concourse answers and however
  often a trigger fails before, the reconciliations of this object lead to at most one build that got an
  id, provided the server answers with the object asked for and a status that was sent with an id is what later
  reads of the object show.
\<close>

theorem build_triggered_once:
  assumes "\<And>n b. Get_Build (k8s E) n req = Inr b \<Longrightarrow>
      req = \<lparr>key_Namespace = Namespace (Build_ObjectMeta b), key_Name = Name (Build_ObjectMeta b)\<rparr>"
    and "durable (\<lambda>n. Get_Build (k8s E) n req) OBuild Build_ObjectMeta KBuild req (\<lambda>_. True)
      (\<lambda>b. BuildStatus_BuildID (Build_Status b) \<noteq> 0) (trace (run_history E h s))"
  shows "length (history_effects E (build_started E) Ctl_Build req
    (\<lambda>s. \<exists>b. Get_Build (k8s E) (length (trace s)) req = Inr b) h s) \<le> 1"
  using bt.once_in_history [where E = E and req = req and h = h and s = s] assms by simp

text \<open>
  C10: over a job's whole life one Build object is created per generation, at most. In any history of
  reconciliations, by all controllers and for all objects in any order, the reconciliations that read the job
  with generation \<open>g\<close> ask the API server at most once to create a Build, also when that request was refused,
  provided the server answers with the object asked for and a status that was sent with generation \<open>g\<close> observed
  is what later reads of that generation show.
\<close>

theorem one_build_per_generation:
  assumes "\<And>n j. Get_Job (k8s E) n req = Inr j \<Longrightarrow>
      req = \<lparr>key_Namespace = Namespace (Job_ObjectMeta j), key_Name = Name (Job_ObjectMeta j)\<rparr>"
    and "durable (\<lambda>n. Get_Job (k8s E) n req) OJob Job_ObjectMeta KJob req (\<lambda>j. Generation (Job_ObjectMeta j) = g)
      (\<lambda>j. JobStatus_ObservedGeneration (Job_Status j) = g) (trace (run_history E h s))"
  shows "length (history_effects E (\<lambda>_. is_create) Ctl_Job req
    (\<lambda>s. \<exists>j. Get_Job (k8s E) (length (trace s)) req = Inr j \<and> Generation (Job_ObjectMeta j) = g) h s) \<le> 1"
  using jc.once_in_history [where E = E and req = req and g = g and h = h and s = s] assms by simp

subsection \<open>A server that keeps statuses\<close>

definition ex_build_key :: ObjectKey where
  "ex_build_key = \<lparr>key_Namespace = ''ns'', key_Name = ''unit-build-1''\<rparr>"

definition ex_job_key :: ObjectKey where
  "ex_job_key = \<lparr>key_Namespace = ''ns'', key_Name = ''unit''\<rparr>"

text \<open>The first read shows the objects without a record, all later ones with it.\<close>

definition ex_seen_job :: Job where
  "ex_seen_job = ex_job\<lparr>Job_Status := (Job_Status ex_job)\<lparr>JobStatus_ObservedGeneration := Generation (Job_ObjectMeta ex_job)\<rparr>\<rparr>"

definition ex_kept :: "ex_client env" where
  "ex_kept = ex_env\<lparr>k8s := ex_k8s
     \<lparr>Get_Build := (\<lambda>n _. Inr (if n = 0 then ex_build else ex_running)),
      Get_Job := (\<lambda>n _. Inr (if n = 0 then ex_job else ex_seen_job))\<rparr>\<rparr>"

theorem build_triggered_once_witness:
  "length (history_effects ex_kept (build_started ex_kept) Ctl_Build ex_build_key
     (\<lambda>s. \<exists>b. Get_Build (k8s ex_kept) (length (trace s)) ex_build_key = Inr b)
     [(Ctl_Build, ex_build_key), (Ctl_Team, ex_req), (Ctl_Build, ex_build_key)] op_init) \<le> 1"
  by (rule build_triggered_once)
     (auto simp: ex_kept_def ex_build_key_def ex_running_def ex_build_def durable_def split: if_splits)

theorem one_build_per_generation_witness:
  "length (history_effects ex_kept (\<lambda>_. is_create) Ctl_Job ex_job_key
     (\<lambda>s. \<exists>j. Get_Job (k8s ex_kept) (length (trace s)) ex_job_key = Inr j \<and>
        Generation (Job_ObjectMeta j) = Generation (Job_ObjectMeta ex_job))
     [(Ctl_Job, ex_job_key), (Ctl_Build, ex_build_key), (Ctl_Job, ex_job_key)] op_init) \<le> 1"
  by (rule one_build_per_generation)
     (auto simp: ex_kept_def ex_job_key_def ex_seen_job_def ex_job_def durable_def split: if_splits)

end
