(* ===== verification/Check_Spacing.thy ===== *)
theory Check_Spacing
  imports History
begin

section \<open>Checks are spaced\<close>

text \<open>
  The third use of \<open>recorded_effect\<close>: a resource records when it was last checked, and that is what keeps its
  checks an interval apart over a whole history.
\<close>

fun accepted_check :: "'cl env \<Rightarrow> nat \<Rightarrow> 'cl call \<Rightarrow> bool" where
  "accepted_check E n (TCheckResource cl t r rn v b) = (Team_CheckResource (atc E) n cl t r rn v b = None)"
| "accepted_check E n _ = False"

lemma accepted_check_is_check: "accepted_check E n c \<Longrightarrow> is_check c"
  by (cases c) auto

subsection \<open>One reconciliation\<close>

lemma emits_Resource_not_ready: "state_io_rel (emits (\<lambda>c. \<not> is_check c)) (Resource_not_ready E r reason msg)"
  unfolding Resource_not_ready_def by (intro em.effect_rules emits_setCondition emits_ask; simp)

lemma at_most_Resource_track: "at_most is_check (Suc 0) (Resource_track E cl tn p r)"
proof -
  have check: "at_most is_check (Suc 0) (checkResource E cl tn pn rn r)" for pn rn
    unfolding checkResource_def Let_def
    by (intro at_most_bind_last appends_shouldCheck at_most_if at_most_bind_first at_most_ask at_most_return)
       (intro em.effect_rules emits_Now emits_setCondition; simp)+
  show ?thesis
    unfolding Resource_track_def Let_def fetchLatestVersion_def
    by (rule at_most_bind_first [OF check]) (intro em.effect_rules emits_setCondition emits_ask; simp)
qed

lemma Resource_Reconcile_reaches:
  "(\<exists>cs. trace (snd (run_state (Resource_Reconcile E req) s)) = trace s @ cs \<and> filter is_check cs = []) \<or>
   (\<exists>r cl tn p u cs. Get_Resource (k8s E) (length (trace s)) req = Inr r \<and> trace u = trace s @ cs \<and>
      filter is_check cs = [] \<and> run_state (Resource_Reconcile E req) s = run_state (Resource_track E cl tn p r) u)"
proof (cases "Get_Resource (k8s E) (length (trace s)) req")
  case (Inl err)
  then show ?thesis by (simp add: Resource_Reconcile_def run_simps)
next
  case (Inr r)
  note get = this
  let ?key = "\<lparr>key_Namespace = Namespace (Resource_ObjectMeta r),
    key_Name = LocalObjectReference_Name (ResourceSpec_PipelineRef (Resource_Spec r))\<rparr>"
  let ?s2 = "s\<lparr>trace := trace s @ [KGet KResource req, KGet KPipeline ?key]\<rparr>"
  have exits: "\<exists>cs. trace (snd (run_state (Resource_not_ready E r reason msg) v)) = trace v @ cs \<and> filter is_check cs = []" for reason msg v
    using emits_none [OF emits_Resource_not_ready] by (metis prod.collapse)
  show ?thesis
  proof (cases "IsZero (lib E) (DeletionTimestamp (Resource_ObjectMeta r))")
    case False
    with get show ?thesis by (simp add: Resource_Reconcile_def run_simps)
  next
    case live: True
    show ?thesis
    proof (cases "Get_Pipeline (k8s E) (Suc (length (trace s))) ?key")
      case (Inl err)
      with get live show ?thesis by (simp add: Resource_Reconcile_def run_simps Let_def)
    next
      case p: (Inr p)
      show ?thesis
      proof (cases "isReady E (PipelineStatus_Conditions (Pipeline_Status p))")
        case False
        with get live p exits [of "''PipelineNotReady''" "''pipeline is not ready''" ?s2]
        show ?thesis by (auto simp: Resource_Reconcile_def run_simps Let_def)
      next
        case ready: True
        obtain c u where res: "run_state (resolveClientForPipeline E p) ?s2 = (c, u)" by (meson prod.exhaust)
        have "state_io_rel (emits (\<lambda>c. \<not> is_check c)) (resolveClientForPipeline E p)" by (rule emits_resolvers_if) simp
        from emits_none [OF this res] obtain cs where u: "trace u = trace s @ [KGet KResource req, KGet KPipeline ?key] @ cs"
          "filter is_check cs = []" by auto
        show ?thesis
        proof (cases c)
          case (Inl err)
          with get live p ready res exits [of "''ChainNotReady''" "Error err" u] u
          show ?thesis by (auto simp: Resource_Reconcile_def run_simps Let_def)
        next
          case (Inr x)
          obtain cl tn where "x = (cl, tn)" by (cases x)
          with Inr get live p ready res have "run_state (Resource_Reconcile E req) s = run_state (Resource_track E cl tn p r) u"
            by (simp add: Resource_Reconcile_def run_simps Let_def)
          with get u show ?thesis
            by (intro disjI2 exI [of _ r] exI [of _ cl] exI [of _ tn] exI [of _ p] exI [of _ u]) auto
        qed
      qed
    qed
  qed
qed

lemma run_shouldCheck:
  "\<exists>b pre. run_state (shouldCheck E r) u = (b, u\<lparr>trace := trace u @ pre\<rparr>) \<and> filter is_check pre = [] \<and>
     (b \<longrightarrow> (\<forall>i t0. ResourceSpec_CheckInterval (Resource_Spec r) = Some i \<and>
        ResourceStatus_LastChecked (Resource_Status r) = Some t0 \<longrightarrow> i \<le> Sub (clock E (length (trace u))) t0))"
proof (cases "ResourceSpec_CheckInterval (Resource_Spec r)")
  case None
  then show ?thesis by (intro exI [of _ False] exI [of _ "[]"]) (simp add: shouldCheck_def)
next
  case interval: (Some i)
  show ?thesis
  proof (cases "ResourceStatus_LastChecked (Resource_Status r)")
    case None
    with interval show ?thesis by (intro exI [of _ True] exI [of _ "[]"]) (simp add: shouldCheck_def)
  next
    case (Some t0)
    with interval show ?thesis
      by (intro exI [of _ "i \<le> Sub (clock E (length (trace u))) t0"] exI [of _ "[Clock]"]) (simp add: shouldCheck_def run_simps)
  qed
qed

lemma run_fetchLatestVersion:
  "\<exists>st' e c. run_state (fetchLatestVersion E cl tn pn rn st) s = ((st', e), s\<lparr>trace := trace s @ [c]\<rparr>) \<and> \<not> is_check c \<and>
     ResourceStatus_LastChecked st' = ResourceStatus_LastChecked st"
  by (auto simp: fetchLatestVersion_def run_simps Let_def split: sum.split prod.split list.split)

text \<open>The check: skipped, or issued once the interval has passed, and recorded if it was accepted.\<close>

lemma run_checkResource:
  obtains (skipped) st pre where "run_state (checkResource E cl tn pn rn r) u = (st, u\<lparr>trace := trace u @ pre\<rparr>)" "filter is_check pre = []"
  | (checked) st pre c post where
      "run_state (checkResource E cl tn pn rn r) u = (st, u\<lparr>trace := trace u @ pre @ c # post\<rparr>)"
      "filter is_check pre = []" "filter is_check post = []"
      "accepted_check E (length (trace u) + length pre) c \<Longrightarrow>
         ResourceStatus_LastChecked st = Some (clock E (Suc (length (trace u) + length pre)))"
      "\<And>i t0. ResourceSpec_CheckInterval (Resource_Spec r) = Some i \<Longrightarrow> ResourceStatus_LastChecked (Resource_Status r) = Some t0 \<Longrightarrow>
         i \<le> Sub (clock E (length (trace u))) t0"
proof -
  from run_shouldCheck [of E r u] obtain b pre where
    run: "run_state (shouldCheck E r) u = (b, u\<lparr>trace := trace u @ pre\<rparr>)" and pre: "filter is_check pre = []"
    and due: "\<And>i t0. b \<Longrightarrow> ResourceSpec_CheckInterval (Resource_Spec r) = Some i \<Longrightarrow>
      ResourceStatus_LastChecked (Resource_Status r) = Some t0 \<Longrightarrow> i \<le> Sub (clock E (length (trace u))) t0" by blast
  show thesis
  proof (cases b)
    case False
    show thesis
    proof (cases "ResourceStatus_LastChecked (Resource_Status r) = None")
      case True
      with False run have "run_state (checkResource E cl tn pn rn r) u =
          (fst (run_state (checkResource E cl tn pn rn r) u), u\<lparr>trace := trace u @ pre @ [Clock]\<rparr>)"
        by (simp add: checkResource_def run_simps Let_def)
      then show thesis by (rule skipped) (simp add: pre)
    next
      case checked_before: False
      with False run have "run_state (checkResource E cl tn pn rn r) u =
          (fst (run_state (checkResource E cl tn pn rn r) u), u\<lparr>trace := trace u @ pre\<rparr>)"
        by (simp add: checkResource_def run_simps Let_def)
      then show thesis by (rule skipped) (rule pre)
    qed
  next
    case True
    let ?ver = "if length (ResourceSpec_PinnedVersion (Resource_Spec r)) > 0 then ResourceSpec_PinnedVersion (Resource_Spec r) else []"
    let ?c = "TCheckResource cl tn \<lparr>PipelineRef_Name = pn\<rparr> rn ?ver False"
    let ?e = "Team_CheckResource (atc E) (length (trace u) + length pre) cl tn \<lparr>PipelineRef_Name = pn\<rparr> rn ?ver False"
    show thesis
    proof (cases ?e)
      case None
      have "run_state (checkResource E cl tn pn rn r) u =
          (fst (run_state (checkResource E cl tn pn rn r) u), u\<lparr>trace := trace u @ pre @ ?c # [Clock, Clock]\<rparr>)"
        "ResourceStatus_LastChecked (fst (run_state (checkResource E cl tn pn rn r) u)) = Some (clock E (Suc (length (trace u) + length pre)))"
        using True run None by (simp_all add: checkResource_def run_simps Let_def)
      note checked' = this
      show thesis by (rule checked [OF checked'(1) pre]) (use True due checked'(2) in auto)
    next
      case (Some err)
      have "run_state (checkResource E cl tn pn rn r) u =
          (fst (run_state (checkResource E cl tn pn rn r) u), u\<lparr>trace := trace u @ pre @ ?c # [Clock]\<rparr>)"
        using True run Some by (simp add: checkResource_def run_simps Let_def)
      from checked [OF this pre] show thesis using True due Some by auto
    qed
  qed
qed

text \<open>The rest of a reconciliation sends one status and leaves what the check recorded.\<close>

lemma run_Resource_track:
  assumes "pn = default_name (PipelineSpec_PipelineName (Pipeline_Spec p)) (Pipeline_ObjectMeta p)"
    and "rn = default_name (ResourceSpec_ResourceName (Resource_Spec r)) (Resource_ObjectMeta r)"
    and check: "run_state (checkResource E cl tn pn rn r) u = (st, v)"
  obtains c y where "trace (snd (run_state (Resource_track E cl tn p r) u)) = trace v @ [c, Clock, KStatusUpdate (OResource y)]"
    "\<not> is_check c" "Resource_ObjectMeta y = Resource_ObjectMeta r"
    "ResourceStatus_LastChecked (Resource_Status y) = ResourceStatus_LastChecked st"
proof -
  obtain st' e c where f: "run_state (fetchLatestVersion E cl tn pn rn st) v = ((st', e), v\<lparr>trace := trace v @ [c]\<rparr>)"
    "\<not> is_check c" "ResourceStatus_LastChecked st' = ResourceStatus_LastChecked st"
    using run_fetchLatestVersion [of E cl tn pn rn st v] by blast
  have "\<exists>y. trace (snd (run_state (Resource_track E cl tn p r) u)) = trace v @ [c, Clock, KStatusUpdate (OResource y)] \<and>
      Resource_ObjectMeta y = Resource_ObjectMeta r \<and>
      ResourceStatus_LastChecked (Resource_Status y) = ResourceStatus_LastChecked st'"
    using check f(1) unfolding assms(1,2) default_name_def
    by (simp add: Resource_track_def run_simps Let_def split: sum.split)
  with f that show thesis by auto
qed

text \<open>
  A reconciliation in which a check was accepted at interaction \<open>n\<close>: it read the resource, the interval had
  passed at a clock reading before \<open>n\<close>, and it sends a status that says the resource was checked at the reading
  after \<open>n\<close>.
\<close>

lemma accepted_check_recorded:
  assumes t: "t = after E Ctl_Resource req s"
    and n: "length (trace s) \<le> n" "n < length (trace t)" "accepted_check E n (trace t ! n)"
  shows "\<exists>r y m. Get_Resource (k8s E) (length (trace s)) req = Inr r \<and> m \<le> n \<and>
    (\<forall>i t0. ResourceSpec_CheckInterval (Resource_Spec r) = Some i \<and> ResourceStatus_LastChecked (Resource_Status r) = Some t0 \<longrightarrow>
       i \<le> Sub (clock E m) t0) \<and>
    KStatusUpdate (OResource y) \<in> set (calls (Resource_Reconcile E req) s) \<and> Resource_ObjectMeta y = Resource_ObjectMeta r \<and>
    ResourceStatus_LastChecked (Resource_Status y) = Some (clock E (Suc n))"
proof -
  note check = accepted_check_is_check [OF n(3)]
  have no_check: False if "trace t = trace s @ cs" "filter is_check cs = []" for cs
  proof -
    from that(1) n(1,2) have "trace t ! n \<in> set cs" by (auto simp: nth_append)
    with that(2) check show False by (simp add: filter_empty_conv)
  qed
  from Resource_Reconcile_reaches [of E req s] no_check obtain r cl tn p u cs where
    r: "Get_Resource (k8s E) (length (trace s)) req = Inr r" and u: "trace u = trace s @ cs" "filter is_check cs = []"
    and run: "t = snd (run_state (Resource_track E cl tn p r) u)"
    by (fastforce simp: t after_def)
  let ?pn = "default_name (PipelineSpec_PipelineName (Pipeline_Spec p)) (Pipeline_ObjectMeta p)"
  let ?rn = "default_name (ResourceSpec_ResourceName (Resource_Spec r)) (Resource_ObjectMeta r)"
  show ?thesis
  proof (cases rule: run_checkResource [of E cl tn ?pn ?rn r u])
    case (skipped st pre)
    obtain c y where "trace t = trace s @ (cs @ pre @ [c, Clock, KStatusUpdate (OResource y)])" "\<not> is_check c"
      by (rule run_Resource_track [OF refl refl skipped(1)]) (simp add: run u(1))
    with no_check u(2) skipped(2) show ?thesis by fastforce
  next
    case (checked st pre c post)
    obtain d y where tr: "trace t = trace s @ (cs @ pre) @ c # post @ [d, Clock, KStatusUpdate (OResource y)]"
      and d: "\<not> is_check d" and y: "Resource_ObjectMeta y = Resource_ObjectMeta r"
      "ResourceStatus_LastChecked (Resource_Status y) = ResourceStatus_LastChecked st"
      by (rule run_Resource_track [OF refl refl checked(1)]) (simp add: run u(1))
    define v where "v = u\<lparr>trace := trace u @ pre\<rparr>"
    have "n = length (trace v)"
    proof (rule only_position [where s = s and Q = is_check])
      show "trace t = trace v @ c # post @ [d, Clock, KStatusUpdate (OResource y)]" by (simp add: tr v_def u(1))
      show "trace v = trace s @ cs @ pre" by (simp add: v_def u(1))
    qed (use n check checked d u in simp_all)
    then have n_eq: "n = length (trace u) + length pre" by (simp add: v_def)
    with tr u(1) have "trace t ! n = c" by (simp add: nth_append)
    with n(3) checked(4) n_eq have "ResourceStatus_LastChecked st = Some (clock E (Suc n))" by simp
    moreover have "KStatusUpdate (OResource y) \<in> set (calls (Resource_Reconcile E req) s)"
      using tr by (simp add: calls_def t after_def)
    ultimately show ?thesis using r y checked(5) n_eq by (intro exI [of _ r] exI [of _ y] exI [of _ "length (trace u)"]) auto
  qed
qed

subsection \<open>Over a history\<close>

text \<open>The clock does not go back, and the interval is one a 64-bit duration can hold.\<close>

definition steady :: "'cl env \<Rightarrow> go_duration \<Rightarrow> bool" where
  "steady E d \<longleftrightarrow> mono (clock E) \<and> minDuration < d \<and> d \<le> maxDuration"

text \<open>A check accepted in the window of length \<open>d\<close> that starts at \<open>t0\<close>, by the clock that is read after it.\<close>

definition check_in :: "'cl env \<Rightarrow> go_time \<Rightarrow> go_duration \<Rightarrow> nat \<Rightarrow> 'cl call \<Rightarrow> bool" where
  "check_in E t0 d n c \<longleftrightarrow> accepted_check E n c \<and> t0 \<le> clock E (Suc n) \<and> clock E (Suc n) < t0 + d"

abbreviation "resource_get E req n \<equiv> Get_Resource (k8s E) n req"
abbreviation "with_interval d r \<equiv> ResourceSpec_CheckInterval (Resource_Spec r) = Some d"

definition checked_since :: "go_time \<Rightarrow> Resource \<Rightarrow> bool" where
  "checked_since t0 r \<longleftrightarrow> (case ResourceStatus_LastChecked (Resource_Status r) of None \<Rightarrow> False | Some t \<Rightarrow> t0 \<le> t)"

interpretation rc: recorded_effect E Ctl_Resource req "resource_get E req" OResource Resource_ObjectMeta
    "\<lambda>n c. steady E d \<and> check_in E t0 d n c" "with_interval d" "checked_since t0"
  for E :: "'cl env" and req :: ObjectKey and t0 :: go_time and d :: go_duration
proof
  fix s :: "'cl op_state" and r :: Resource
  let ?t = "after E Ctl_Resource req s"
  let ?P = "\<lambda>n c. steady E d \<and> check_in E t0 d n c"
  obtain cs where t: "trace ?t = trace s @ cs" using after_appends by blast
  have "length (filter is_check cs) \<le> 1"
    using Resource_Reconcile_reaches [of E req s]
  proof (elim disjE exE conjE)
    fix cs' assume "trace (snd (run_state (Resource_Reconcile E req) s)) = trace s @ cs'" "filter is_check cs' = []"
    with t show ?thesis by (simp add: after_def)
  next
    fix r cl tn p u ds
    assume u: "trace u = trace s @ ds" "filter is_check ds = []"
      and run: "run_state (Resource_Reconcile E req) s = run_state (Resource_track E cl tn p r) u"
    from at_most_Resource_track [of E cl tn p r] obtain es where
      "trace (snd (run_state (Resource_track E cl tn p r) u)) = trace u @ es" "length (filter is_check es) \<le> 1"
      unfolding at_most_def by (metis One_nat_def)
    with t u run show ?thesis by (auto simp: after_def)
  qed
  with effects_in_calls [OF t, of ?P is_check] show "length (effects_in ?P s ?t) \<le> 1"
    by (metis accepted_check_is_check check_in_def le_trans)
  have effect: "\<exists>n. length (trace s) \<le> n \<and> n < length (trace ?t) \<and> ?P n (trace ?t ! n)" if "effects_in ?P s ?t \<noteq> []"
    using that by (auto simp: effects_in_def filter_empty_conv)
  assume get: "resource_get E req (length (trace s)) = Inr r" and interval: "with_interval d r"
  show "effects_in ?P s ?t = []" if since: "checked_since t0 r"
  proof (rule ccontr)
    assume "effects_in ?P s ?t \<noteq> []"
    from effect [OF this] obtain n where n: "length (trace s) \<le> n" "n < length (trace ?t)" "steady E d"
      "check_in E t0 d n (trace ?t ! n)" by blast
    from since obtain t' where t': "ResourceStatus_LastChecked (Resource_Status r) = Some t'" "t0 \<le> t'"
      by (auto simp: checked_since_def split: option.splits)
    from accepted_check_recorded [OF refl n(1,2)] n(4) get interval t'(1) obtain m where m: "m \<le> n" "d \<le> Sub (clock E m) t'"
      by (auto simp: check_in_def)
    from n(3) m(2) have "d \<le> clock E m - t'" by (simp add: steady_def Sub_ge_iff)
    moreover have "clock E m \<le> clock E (Suc n)" using n(3) m(1) by (simp add: steady_def monoD)
    ultimately show False using n(4) t'(2) by (simp add: check_in_def)
  qed
  assume "effects_in ?P s ?t \<noteq> []"
  from effect [OF this] obtain n where n: "length (trace s) \<le> n" "n < length (trace ?t)" "check_in E t0 d n (trace ?t ! n)" by blast
  from accepted_check_recorded [OF refl n(1,2)] n(3) get obtain y where
    "KStatusUpdate (OResource y) \<in> set (calls (Resource_Reconcile E req) s)" "Resource_ObjectMeta y = Resource_ObjectMeta r"
    "ResourceStatus_LastChecked (Resource_Status y) = Some (clock E (Suc n))" by (auto simp: check_in_def)
  with n(3) show "\<exists>y. KStatusUpdate (OResource y) \<in> set (calls (dispatch E Ctl_Resource req) s) \<and> checked_since t0 y \<and>
      Namespace (Resource_ObjectMeta y) = Namespace (Resource_ObjectMeta r) \<and> Name (Resource_ObjectMeta y) = Name (Resource_ObjectMeta r)"
    by (intro exI [of _ y]) (simp add: checked_since_def check_in_def)
qed

text \<open>
  C29: checks are spaced. In any history of reconciliations, by all controllers and for all objects in any order,
  the reconciliations that read the resource with check interval \<open>d\<close> get at most one check accepted by Concourse in
  any window of the clock of length \<open>d\<close>, however often the resource is reconciled and whatever fails, provided
  the clock does not go back, the interval fits a duration, the server answers with the object asked for, and a status
  that was sent with a check recorded in the window is what later reads of the resource show.
\<close>

theorem checks_spaced:
  assumes keys: "\<And>n r. Get_Resource (k8s E) n req = Inr r \<Longrightarrow>
      req = \<lparr>key_Namespace = Namespace (Resource_ObjectMeta r), key_Name = Name (Resource_ObjectMeta r)\<rparr>"
    and clock: "mono (clock E)" and interval: "minDuration < d" "d \<le> maxDuration"
    and kept: "durable (\<lambda>n. Get_Resource (k8s E) n req) OResource Resource_ObjectMeta KResource req
      (\<lambda>r. ResourceSpec_CheckInterval (Resource_Spec r) = Some d) (checked_since t0) (trace (run_history E h s))"
  shows "length (history_effects E (check_in E t0 d) Ctl_Resource req
    (\<lambda>s. \<exists>r. Get_Resource (k8s E) (length (trace s)) req = Inr r \<and> ResourceSpec_CheckInterval (Resource_Spec r) = Some d) h s) \<le> 1"
proof -
  have "steady E d" using clock interval by (simp add: steady_def)
  with rc.once_in_history [where E = E and req = req and d = d and ?t0.0 = t0 and h = h and s = s] keys kept show ?thesis by simp
qed

definition ex_resource_key :: ObjectKey where
  "ex_resource_key = \<lparr>key_Namespace = ''ns'', key_Name = ''repo''\<rparr>"

definition ex_checked :: Resource where
  "ex_checked = ex_resource\<lparr>Resource_Status := (Resource_Status ex_resource)\<lparr>ResourceStatus_LastChecked := Some (1001 * Minute)\<rparr>\<rparr>"

definition ex_checks :: "ex_client env" where
  "ex_checks = ex_env\<lparr>k8s := ex_k8s\<lparr>Get_Resource := (\<lambda>n _. Inr (if n = 0 then ex_resource else ex_checked))\<rparr>\<rparr>"

theorem checks_spaced_witness:
  "length (history_effects ex_checks (check_in ex_checks (1000 * Minute) (2 * Minute)) Ctl_Resource ex_resource_key
     (\<lambda>s. \<exists>r. Get_Resource (k8s ex_checks) (length (trace s)) ex_resource_key = Inr r \<and>
        ResourceSpec_CheckInterval (Resource_Spec r) = Some (2 * Minute))
     [(Ctl_Resource, ex_resource_key), (Ctl_Team, ex_req), (Ctl_Resource, ex_resource_key)] op_init) \<le> 1"
proof (rule checks_spaced)
  show "mono (clock ex_checks)" by (simp add: ex_checks_def mono_def)
  show "minDuration < 2 * Minute" "2 * Minute \<le> maxDuration"
    by (simp_all add: minDuration_def maxDuration_def Minute_def Second_def)
qed (auto simp: ex_checks_def ex_resource_key_def ex_checked_def durable_def checked_since_def Minute_def Second_def split: if_splits)

end
