(* ===== verification/Ownership.thy ===== *)
theory Ownership
  imports Controllers
begin

section \<open>Who writes what\<close>

text \<open>
  The controllers share one cluster, and each object is left to one of them: a reconciliation writes to no
  object but the one its request names, and only the job controller creates objects, Builds that refer to its
  job. What is relied on is named in \<open>keyed\<close>: the API server answers with the object of the key asked for,
  and the library's helpers for finalizers and owner references change nothing else.
\<close>

definition key_of :: "ObjectMeta \<Rightarrow> ObjectKey" where
  "key_of m = \<lparr>key_Namespace = Namespace m, key_Name = Name m\<rparr>"

fun object_id :: "k8s_object \<Rightarrow> object_kind \<times> ObjectKey" where
  "object_id (OInstance x) = (KInstance, key_of (Instance_ObjectMeta x))"
| "object_id (OTeam x) = (KTeam, key_of (Team_ObjectMeta x))"
| "object_id (OPipeline x) = (KPipeline, key_of (Pipeline_ObjectMeta x))"
| "object_id (OJob x) = (KJob, key_of (Job_ObjectMeta x))"
| "object_id (OBuild x) = (KBuild, key_of (Build_ObjectMeta x))"
| "object_id (OResource x) = (KResource, key_of (Resource_ObjectMeta x))"
| "object_id (OWorker x) = (KWorker, key_of (Worker_ObjectMeta x))"

definition keyed_reads :: "k8s_api \<Rightarrow> bool" where
  "keyed_reads K \<longleftrightarrow>
     (\<forall>n k x. Get_Instance K n k = Inr x \<longrightarrow> key_of (Instance_ObjectMeta x) = k) \<and>
     (\<forall>n k x. Get_Team K n k = Inr x \<longrightarrow> key_of (Team_ObjectMeta x) = k) \<and>
     (\<forall>n k x. Get_Pipeline K n k = Inr x \<longrightarrow> key_of (Pipeline_ObjectMeta x) = k) \<and>
     (\<forall>n k x. Get_Job K n k = Inr x \<longrightarrow> key_of (Job_ObjectMeta x) = k) \<and>
     (\<forall>n k x. Get_Build K n k = Inr x \<longrightarrow> key_of (Build_ObjectMeta x) = k) \<and>
     (\<forall>n k x. Get_Resource K n k = Inr x \<longrightarrow> key_of (Resource_ObjectMeta x) = k) \<and>
     (\<forall>n k x. Get_Worker K n k = Inr x \<longrightarrow> key_of (Worker_ObjectMeta x) = k)"

definition keyed_updates :: "k8s_api \<Rightarrow> bool" where
  "keyed_updates K \<longleftrightarrow>
     (\<forall>n x y. Update_Instance K n x = Inr y \<longrightarrow> key_of (Instance_ObjectMeta y) = key_of (Instance_ObjectMeta x)) \<and>
     (\<forall>n x y. Update_Team K n x = Inr y \<longrightarrow> key_of (Team_ObjectMeta y) = key_of (Team_ObjectMeta x)) \<and>
     (\<forall>n x y. Update_Pipeline K n x = Inr y \<longrightarrow> key_of (Pipeline_ObjectMeta y) = key_of (Pipeline_ObjectMeta x)) \<and>
     (\<forall>n x y. Status_Build K n x = Inr y \<longrightarrow> key_of (Build_ObjectMeta y) = key_of (Build_ObjectMeta x))"

definition metadata_laws :: "'cl lib \<Rightarrow> bool" where
  "metadata_laws L \<longleftrightarrow>
     (\<forall>m f. key_of (AddFinalizer L m f) = key_of m \<and> key_of (RemoveFinalizer L m f) = key_of m) \<and>
     (\<forall>job b c. SetControllerReference L job b = Inr c \<longrightarrow>
        Namespace (Build_ObjectMeta c) = Namespace (Build_ObjectMeta b) \<and> Build_Spec c = Build_Spec b)"

definition keyed :: "'cl env \<Rightarrow> bool" where
  "keyed E \<longleftrightarrow> keyed_reads (k8s E) \<and> keyed_updates (k8s E) \<and> metadata_laws (lib E)"

lemma keyed_get:
  assumes "keyed E"
  shows "Get_Instance (k8s E) n k = Inr i \<Longrightarrow> key_of (Instance_ObjectMeta i) = k"
    and "Get_Team (k8s E) n k = Inr t \<Longrightarrow> key_of (Team_ObjectMeta t) = k"
    and "Get_Pipeline (k8s E) n k = Inr p \<Longrightarrow> key_of (Pipeline_ObjectMeta p) = k"
    and "Get_Job (k8s E) n k = Inr j \<Longrightarrow> key_of (Job_ObjectMeta j) = k"
    and "Get_Build (k8s E) n k = Inr b \<Longrightarrow> key_of (Build_ObjectMeta b) = k"
    and "Get_Resource (k8s E) n k = Inr r \<Longrightarrow> key_of (Resource_ObjectMeta r) = k"
    and "Get_Worker (k8s E) n k = Inr w \<Longrightarrow> key_of (Worker_ObjectMeta w) = k"
  using assms by (simp_all add: keyed_def keyed_reads_def)

lemma keyed_update:
  assumes "keyed E"
  shows "Update_Instance (k8s E) n i = Inr i' \<Longrightarrow> key_of (Instance_ObjectMeta i') = key_of (Instance_ObjectMeta i)"
    and "Update_Team (k8s E) n t = Inr t' \<Longrightarrow> key_of (Team_ObjectMeta t') = key_of (Team_ObjectMeta t)"
    and "Update_Pipeline (k8s E) n p = Inr p' \<Longrightarrow> key_of (Pipeline_ObjectMeta p') = key_of (Pipeline_ObjectMeta p)"
    and "Status_Build (k8s E) n b = Inr b' \<Longrightarrow> key_of (Build_ObjectMeta b') = key_of (Build_ObjectMeta b)"
  using assms unfolding keyed_def keyed_updates_def by blast+

lemma keyed_metadata:
  assumes "keyed E"
  shows "key_of (AddFinalizer (lib E) m f) = key_of m" and "key_of (RemoveFinalizer (lib E) m f) = key_of m"
    and "SetControllerReference (lib E) job b = Inr c \<Longrightarrow>
      Namespace (Build_ObjectMeta c) = Namespace (Build_ObjectMeta b) \<and> Build_Spec c = Build_Spec b"
  using assms unfolding keyed_def metadata_laws_def by blast+

text \<open>What a handler got from a read, or from an update of an object, has the key it was asked for.\<close>

lemma keyed_answers:
  assumes "keyed E"
  shows "Inr i \<in> set_state (ask c (\<lambda>n. Get_Instance (k8s E) n k)) \<Longrightarrow> key_of (Instance_ObjectMeta i) = k"
    and "Inr t \<in> set_state (ask c (\<lambda>n. Get_Team (k8s E) n k)) \<Longrightarrow> key_of (Team_ObjectMeta t) = k"
    and "Inr p \<in> set_state (ask c (\<lambda>n. Get_Pipeline (k8s E) n k)) \<Longrightarrow> key_of (Pipeline_ObjectMeta p) = k"
    and "Inr j \<in> set_state (ask c (\<lambda>n. Get_Job (k8s E) n k)) \<Longrightarrow> key_of (Job_ObjectMeta j) = k"
    and "Inr b \<in> set_state (ask c (\<lambda>n. Get_Build (k8s E) n k)) \<Longrightarrow> key_of (Build_ObjectMeta b) = k"
    and "Inr r \<in> set_state (ask c (\<lambda>n. Get_Resource (k8s E) n k)) \<Longrightarrow> key_of (Resource_ObjectMeta r) = k"
    and "Inr w \<in> set_state (ask c (\<lambda>n. Get_Worker (k8s E) n k)) \<Longrightarrow> key_of (Worker_ObjectMeta w) = k"
    and "Inr i \<in> set_state (ask c (\<lambda>n. Update_Instance (k8s E) n i')) \<Longrightarrow>
      key_of (Instance_ObjectMeta i) = key_of (Instance_ObjectMeta i')"
    and "Inr t \<in> set_state (ask c (\<lambda>n. Update_Team (k8s E) n t')) \<Longrightarrow>
      key_of (Team_ObjectMeta t) = key_of (Team_ObjectMeta t')"
    and "Inr p \<in> set_state (ask c (\<lambda>n. Update_Pipeline (k8s E) n p')) \<Longrightarrow>
      key_of (Pipeline_ObjectMeta p) = key_of (Pipeline_ObjectMeta p')"
    and "Inr b \<in> set_state (ask c (\<lambda>n. Status_Build (k8s E) n b')) \<Longrightarrow>
      key_of (Build_ObjectMeta b) = key_of (Build_ObjectMeta b')"
  by (drule set_state_ask, elim exE, drule sym, erule keyed_get [OF assms] keyed_update [OF assms])+

text \<open>The writes a reconciliation of \<open>req\<close> by \<open>ctl\<close> may make.\<close>

fun own_write :: "controller \<Rightarrow> ObjectKey \<Rightarrow> 'cl call \<Rightarrow> bool" where
  "own_write ctl req (KUpdate x) = (object_id x = (kind_of ctl, req))"
| "own_write ctl req (KStatusUpdate x) = (object_id x = (kind_of ctl, req))"
| "own_write ctl req (KCreate x) = (ctl = Ctl_Job \<and>
     (\<exists>b. x = OBuild b \<and> Namespace (Build_ObjectMeta b) = key_Namespace req \<and>
        BuildSpec_JobRef (Build_Spec b) = Some \<lparr>LocalObjectReference_Name = key_Name req\<rparr>))"
| "own_write ctl req _ = True"

lemmas own_rules = em.effect_rules emits_resolvers_if emits_ask emits_setCondition emits_Now

lemma own_Instance:
  assumes "keyed E"
  shows "state_io_rel (emits (own_write Ctl_Instance req)) (Instance_Reconcile E req)"
proof -
  have applied: "state_io_rel (emits (own_write Ctl_Instance req)) (Instance_apply E i)"
    if "key_of (Instance_ObjectMeta i) = req" for i
    using that unfolding Instance_apply_def Instance_failed_def Instance_status_def by (intro own_rules) simp_all
  have evict: "state_io_rel (emits (own_write Ctl_Instance req)) (Evict i)" for i
    unfolding Evict_def by (rule em.effect_modify) (simp add: emits_def)
  show ?thesis
    unfolding Instance_Reconcile_def
    by (intro own_rules applied evict)
       (auto dest!: keyed_answers [OF assms] simp: keyed_metadata [OF assms]
          set_state_iff [of _ "State_Monad.return x" for x] Let_def split: if_splits)
qed

lemma own_Team:
  assumes "keyed E"
  shows "state_io_rel (emits (own_write Ctl_Team req)) (Team_Reconcile E req)"
proof -
  have applied: "state_io_rel (emits (own_write Ctl_Team req)) (Team_apply E team)"
    if "key_of (Team_ObjectMeta team) = req" for team
    using that unfolding Team_apply_def Team_not_ready_def Team_applied_def by (intro own_rules) simp_all
  have delete: "state_io_rel (emits (own_write Ctl_Team req)) (deleteTeam E team)" for team
    unfolding deleteTeam_def by (intro own_rules) simp_all
  show ?thesis
    unfolding Team_Reconcile_def
    by (intro own_rules applied delete)
       (auto dest!: keyed_answers [OF assms] simp: keyed_metadata [OF assms]
          set_state_iff [of _ "State_Monad.return x" for x] Let_def split: if_splits)
qed

lemma own_Pipeline:
  assumes "keyed E"
  shows "state_io_rel (emits (own_write Ctl_Pipeline req)) (Pipeline_Reconcile E req)"
proof -
  have applied: "state_io_rel (emits (own_write Ctl_Pipeline req)) (Pipeline_apply E p)"
    if "key_of (Pipeline_ObjectMeta p) = req" for p
    using that unfolding Pipeline_apply_def Pipeline_not_ready_def Pipeline_sync_def loadPipelineConfig_def
      applyConfig_def Pipeline_upload_failed_def syncPause_def syncExpose_def fetchMetadata_def
    by (intro own_rules) simp_all
  have delete: "state_io_rel (emits (own_write Ctl_Pipeline req)) (deletePipeline E p)" for p
    unfolding deletePipeline_def by (intro own_rules) simp_all
  show ?thesis
    unfolding Pipeline_Reconcile_def
    by (intro own_rules applied delete)
       (auto dest!: keyed_answers [OF assms] simp: keyed_metadata [OF assms]
          set_state_iff [of _ "State_Monad.return x" for x] Let_def split: if_splits)
qed

lemma own_Job:
  assumes "keyed E"
  shows "state_io_rel (emits (own_write Ctl_Job req)) (Job_Reconcile E req)"
proof -
  have create: "state_io_rel (emits (own_write Ctl_Job req)) (triggerBuild E job st)"
    if "key_of (Job_ObjectMeta job) = req" for job st
    using that keyed_metadata(3) [OF assms, of job "newBuildCR job"]
    unfolding triggerBuild_def by (intro own_rules) (auto simp: newBuildCR_def key_of_def)
  have track: "state_io_rel (emits (own_write Ctl_Job req)) (Job_track E cl tn pn job)"
    if "key_of (Job_ObjectMeta job) = req" for cl tn pn job
    using that unfolding Job_track_def syncJobPause_def reportLastBuild_def
    by (intro own_rules create) simp_all
  show ?thesis
    unfolding Job_Reconcile_def
    by (intro own_rules track) (auto dest!: keyed_answers [OF assms])
qed

lemma own_Build:
  assumes "keyed E"
  shows "state_io_rel (emits (own_write Ctl_Build req)) (Build_Reconcile E req)"
proof -
  have watch: "state_io_rel (emits (own_write Ctl_Build req)) (startWatcher E cl b)" for cl b
    unfolding startWatcher_def by (intro em.effect_rules em.effect_modify) (simp add: emits_def)
  have not_ready: "state_io_rel (emits (own_write Ctl_Build req)) (Build_not_ready E b reason msg r)"
    if "key_of (Build_ObjectMeta b) = req" for b reason msg r
    using that unfolding Build_not_ready_def by (intro own_rules) simp_all
  have track: "state_io_rel (emits (own_write Ctl_Build req)) (Build_track E cl tn pn jn b)"
    if "key_of (Build_ObjectMeta b) = req" for cl tn pn jn b
    using that unfolding Build_track_def triggerIfNew_def abortIfAsked_def refreshStatus_def setComplete_def
    by (intro own_rules watch not_ready) simp_all
  show ?thesis
    unfolding Build_Reconcile_def
    by (intro own_rules track not_ready) (auto dest!: keyed_answers [OF assms])
qed

lemma own_Resource:
  assumes "keyed E"
  shows "state_io_rel (emits (own_write Ctl_Resource req)) (Resource_Reconcile E req)"
proof -
  have stages: "state_io_rel (emits (own_write Ctl_Resource req)) (Resource_not_ready E x reason msg)"
      "state_io_rel (emits (own_write Ctl_Resource req)) (Resource_track E cl tn p x)"
    if "key_of (Resource_ObjectMeta x) = req" for x reason msg cl tn p
    using that unfolding Resource_not_ready_def Resource_track_def shouldCheck_def checkResource_def fetchLatestVersion_def
    by (intro own_rules; simp)+
  show ?thesis
    unfolding Resource_Reconcile_def
    by (intro own_rules stages) (auto dest!: keyed_answers [OF assms])
qed

lemma own_Worker:
  assumes "keyed E"
  shows "state_io_rel (emits (own_write Ctl_Worker req)) (Worker_Reconcile E req)"
proof -
  have copy: "state_io_rel (emits (own_write Ctl_Worker req)) (copyFirstWorker E spec ws st)" for spec ws st
    by (induction ws) (auto simp: copyWorker_def intro!: own_rules)
  have stages: "state_io_rel (emits (own_write Ctl_Worker req)) (Worker_not_ready E w reason msg)"
      "state_io_rel (emits (own_write Ctl_Worker req)) (Worker_track E cl w)"
    if "key_of (Worker_ObjectMeta w) = req" for w reason msg cl
    using that unfolding Worker_not_ready_def Worker_track_def applyDesiredState_def
    by (intro own_rules copy; simp)+
  show ?thesis
    unfolding Worker_Reconcile_def
    by (intro own_rules stages) (auto dest!: keyed_answers [OF assms])
qed

lemma own_dispatch: "keyed E \<Longrightarrow> state_io_rel (emits (own_write ctl req)) (dispatch E ctl req)"
  by (cases ctl) (simp_all add: own_Instance own_Team own_Pipeline own_Job own_Build own_Resource own_Worker)

text \<open>
  C28: every controller keeps to its own object. Whatever a reconciliation finds, each object it updates, and
  each object whose status it updates, is the one its request names, of the controller's own kind. Objects are
  created by the job controller only, and what it creates is a Build in the job's namespace whose spec refers
  to the job.
\<close>

theorem writes_own_object:
  assumes "keyed E"
  shows "list_all (own_write ctl req) (calls (dispatch E ctl req) s)"
  using emits_calls [OF own_dispatch [OF assms]] by (simp add: list_all_iff)

text \<open>An environment whose API server answers with the objects asked for.\<close>

definition ex_named :: "ObjectKey \<Rightarrow> ObjectMeta \<Rightarrow> ObjectMeta" where
  "ex_named k m = m\<lparr>Namespace := key_Namespace k, Name := key_Name k\<rparr>"

definition ex_keyed_k8s :: k8s_api where
  "ex_keyed_k8s = ex_k8s
     \<lparr>Get_Instance := (\<lambda>_ k. Inr (ex_instance\<lparr>Instance_ObjectMeta := ex_named k (Instance_ObjectMeta ex_instance)\<rparr>)),
      Get_Team := (\<lambda>_ k. Inr (ex_team\<lparr>Team_ObjectMeta := ex_named k (Team_ObjectMeta ex_team)\<rparr>)),
      Get_Pipeline := (\<lambda>_ k. Inr (ex_pipeline\<lparr>Pipeline_ObjectMeta := ex_named k (Pipeline_ObjectMeta ex_pipeline)\<rparr>)),
      Get_Job := (\<lambda>_ k. Inr (ex_job\<lparr>Job_ObjectMeta := ex_named k (Job_ObjectMeta ex_job)\<rparr>)),
      Get_Build := (\<lambda>_ k. Inr (ex_build\<lparr>Build_ObjectMeta := ex_named k (Build_ObjectMeta ex_build)\<rparr>)),
      Get_Resource := (\<lambda>_ k. Inr (ex_resource\<lparr>Resource_ObjectMeta := ex_named k (Resource_ObjectMeta ex_resource)\<rparr>)),
      Get_Worker := (\<lambda>_ k. Inr (ex_worker\<lparr>Worker_ObjectMeta := ex_named k (Worker_ObjectMeta ex_worker)\<rparr>))\<rparr>"

definition ex_keyed_env :: "ex_client env" where
  "ex_keyed_env = ex_env\<lparr>k8s := ex_keyed_k8s\<rparr>"

lemma ex_keyed [simp]: "keyed ex_keyed_env"
  by (auto simp: keyed_def keyed_reads_def keyed_updates_def metadata_laws_def ex_keyed_env_def ex_keyed_k8s_def
      ex_named_def key_of_def split: if_splits)

theorem writes_own_object_witness:
  "list_all (own_write Ctl_Job ex_req) (calls (dispatch ex_keyed_env Ctl_Job ex_req) op_init)"
  by (rule writes_own_object [OF ex_keyed])

end
