(* ===== verification/Isolation.thy ===== *)
theory Isolation
  imports Ownership Operator
begin

section \<open>Namespaces are kept apart\<close>

text \<open>
  References between objects are by name, and the operator has the credentials of every instance in one cache.
  Still a reconciliation stays within the namespace of its request: it reads and writes no object of another,
  and every call it makes to Concourse goes through a client made for an instance of that namespace, whatever
  else the cache holds.
\<close>

subsection \<open>Calls within a namespace\<close>

definition ns_client :: "'cl env \<Rightarrow> string \<Rightarrow> 'cl \<Rightarrow> bool" where
  "ns_client E ns cl \<longleftrightarrow> (\<exists>i. seen E i \<and> Namespace (Instance_ObjectMeta i) = ns \<and> built_for E i cl)"

fun confined :: "'cl env \<Rightarrow> string \<Rightarrow> 'cl call \<Rightarrow> bool" where
  "confined E ns Clock = True"
| "confined E ns (KGet k key) = (key_Namespace key = ns)"
| "confined E ns (KUpdate x) = (key_Namespace (snd (object_id x)) = ns)"
| "confined E ns (KStatusUpdate x) = (key_Namespace (snd (object_id x)) = ns)"
| "confined E ns (KCreate x) = (key_Namespace (snd (object_id x)) = ns)"
| "confined E ns (CGetInfo cl) = ns_client E ns cl"
| "confined E ns (CListWorkers cl) = ns_client E ns cl"
| "confined E ns (CLandWorker cl n) = ns_client E ns cl"
| "confined E ns (CPruneWorker cl n) = ns_client E ns cl"
| "confined E ns (CBuild cl n) = ns_client E ns cl"
| "confined E ns (CAbortBuild cl n) = ns_client E ns cl"
| "confined E ns (CBuildEvents cl n) = ns_client E ns cl"
| "confined E ns (CNextEvent h) = False"
| "confined E ns (CCloseEvents h) = False"
| "confined E ns (TCreateOrUpdate cl t a) = ns_client E ns cl"
| "confined E ns (TDestroyTeam cl t n) = ns_client E ns cl"
| "confined E ns (TCreateOrUpdatePipelineConfig cl t r v c b) = ns_client E ns cl"
| "confined E ns (TPausePipeline cl t r) = ns_client E ns cl"
| "confined E ns (TUnpausePipeline cl t r) = ns_client E ns cl"
| "confined E ns (TExposePipeline cl t r) = ns_client E ns cl"
| "confined E ns (THidePipeline cl t r) = ns_client E ns cl"
| "confined E ns (TPipeline cl t r) = ns_client E ns cl"
| "confined E ns (TDeletePipeline cl t r) = ns_client E ns cl"
| "confined E ns (TPauseJob cl t r j) = ns_client E ns cl"
| "confined E ns (TUnpauseJob cl t r j) = ns_client E ns cl"
| "confined E ns (TJob cl t r j) = ns_client E ns cl"
| "confined E ns (TCreateJobBuild cl t r j) = ns_client E ns cl"
| "confined E ns (TCheckResource cl t r n v b) = ns_client E ns cl"
| "confined E ns (TResourceVersions cl t r n k) = ns_client E ns cl"
| "confined E ns (OPasswordGrant c tr u p) = False"

text \<open>A watcher asks Concourse through a client of its build's namespace.\<close>

definition at_home :: "'cl env \<Rightarrow> 'cl watcher \<Rightarrow> bool" where
  "at_home E w \<longleftrightarrow> ns_client E (key_Namespace (watch_key w)) (watch_client w)"

text \<open>
  A part of a handler stays within when, started with a sound cache, it leaves a sound cache, makes only such
  calls and starts only such watchers. What it can return is taken from such runs, too.
\<close>

definition stays_in :: "'cl env \<Rightarrow> string \<Rightarrow> 'cl op_state \<Rightarrow> 'cl op_state \<Rightarrow> bool" where
  "stays_in E ns s t \<longleftrightarrow> cache_ok E t \<and> (\<exists>cs. trace t = trace s @ cs \<and> list_all (confined E ns) cs) \<and>
     (\<forall>w \<in> set (spawned t). w \<in> set (spawned s) \<or> at_home E w)"

definition within :: "'cl env \<Rightarrow> string \<Rightarrow> ('cl, 'a) op \<Rightarrow> bool" where
  "within E ns m \<longleftrightarrow> (\<forall>s a t. cache_ok E s \<longrightarrow> run_state m s = (a, t) \<longrightarrow> stays_in E ns s t)"

definition results :: "'cl env \<Rightarrow> ('cl, 'a) op \<Rightarrow> 'a set" where
  "results E m = {a. \<exists>s t. cache_ok E s \<and> run_state m s = (a, t)}"

lemma results_set_state: "a \<in> results E m \<Longrightarrow> a \<in> set_state m"
  by (auto simp: results_def set_state_iff)

lemma results_if: "results E (if b then m else n) = (if b then results E m else results E n)"
  by simp

lemma results_return: "a \<in> results E (State_Monad.return b) \<Longrightarrow> a = b"
  by (simp add: results_def)

lemma within_bind:
  assumes "within E ns m" and "\<And>a. a \<in> results E m \<Longrightarrow> within E ns (f a)"
  shows "within E ns (State_Monad.bind m f)"
  unfolding within_def
proof (intro allI impI)
  fix s a t
  assume ok: "cache_ok E s" and run: "run_state (State_Monad.bind m f) s = (a, t)"
  obtain b u where b: "run_state m s = (b, u)" by (meson prod.exhaust)
  with run have f: "run_state (f b) u = (a, t)" by simp
  from assms(1) ok b have u: "stays_in E ns s u" unfolding within_def by blast
  then have "cache_ok E u" by (simp add: stays_in_def)
  moreover from ok b have "b \<in> results E m" by (auto simp: results_def)
  ultimately have "stays_in E ns u t" using assms(2) f unfolding within_def by blast
  with u show "stays_in E ns s t" by (auto simp: stays_in_def)
qed

lemma withinI:
  assumes "state_io_rel (emits (confined E ns)) m" and "state_io_rel (preserves (cache_ok E)) m"
    and "state_io_rel (keeps spawned) m"
  shows "within E ns m"
  unfolding within_def
proof (intro allI impI)
  fix s a t
  assume "cache_ok E s" and run: "run_state m s = (a, t)"
  with emits_run [OF assms(1) run] pr.effect_run [OF assms(2) run] kp.effect_run [OF assms(3) run]
  show "stays_in E ns s t" by (auto simp: emits_def preserves_def keeps_def stays_in_def)
qed

lemma within_return: "within E ns (State_Monad.return a)"
  by (rule withinI [OF em.effect_return pr.effect_return kp.effect_return])

lemma within_ask: "confined E ns c \<Longrightarrow> within E ns (ask c f)"
  by (rule withinI [OF emits_ask preserves_ask keeps_ask]) simp_all

lemma within_Now: "within E ns (Now E)"
  by (rule withinI [OF emits_Now preserves_Now keeps_Now]) simp_all

lemma within_setCondition: "within E ns (setCondition E cs ty st r m)"
  by (rule withinI [OF emits_setCondition preserves_setCondition keeps_setCondition]) simp_all

lemma within_branches:
  "(c \<Longrightarrow> within E ns m) \<Longrightarrow> (\<not> c \<Longrightarrow> within E ns n) \<Longrightarrow> within E ns (if c then m else n)"
  "(\<And>e. x = Inl e \<Longrightarrow> within E ns (f e)) \<Longrightarrow> (\<And>a. x = Inr a \<Longrightarrow> within E ns (g a)) \<Longrightarrow>
     within E ns (case x of Inl e \<Rightarrow> f e | Inr a \<Rightarrow> g a)"
  "(y = None \<Longrightarrow> within E ns k) \<Longrightarrow> (\<And>a. y = Some a \<Longrightarrow> within E ns (h a)) \<Longrightarrow>
     within E ns (case y of None \<Rightarrow> k | Some a \<Rightarrow> h a)"
  "(l = [] \<Longrightarrow> within E ns k) \<Longrightarrow> (\<And>a as. l = a # as \<Longrightarrow> within E ns (d a as)) \<Longrightarrow>
     within E ns (case l of [] \<Rightarrow> k | a # as \<Rightarrow> d a as)"
  "(\<And>u v. z = (u, v) \<Longrightarrow> within E ns (q u v)) \<Longrightarrow> within E ns (case z of (u, v) \<Rightarrow> q u v)"
  "(\<And>w. w = b \<Longrightarrow> within E ns (r w)) \<Longrightarrow> within E ns (let w = b in r w)"
  by (cases x; cases y; cases z; cases l; simp)+

lemmas within_rules = within_bind within_return within_ask within_Now within_setCondition within_branches

subsection \<open>Clients\<close>

text \<open>A client \<open>GetOrBuild\<close> returns was made for an instance of the same namespace.\<close>

lemma within_GetOrBuild:
  assumes "valid_names E" and "seen E i" and "Namespace (Instance_ObjectMeta i) = ns"
  shows "within E ns (GetOrBuild E i)"
proof (rule withinI)
  have "confined E ns c" if "secret_read (Namespace (Instance_ObjectMeta i)) c" for c
    using that assms(3) by (cases c) (auto elim: secret_read.elims)
  with emits_GetOrBuild show "state_io_rel (emits (confined E ns)) (GetOrBuild E i)" by (rule emits_mono)
  show "state_io_rel (preserves (cache_ok E)) (GetOrBuild E i)"
    using assms(1,2) by (intro preserves_cache_ok_GetOrBuild) (auto simp: valid_names_def)
  show "state_io_rel (keeps spawned) (GetOrBuild E i)" by (rule keeps_GetOrBuild) simp_all
qed

lemma same_key_namespace:
  assumes "valid_names E" and "seen E i" and "seen E j" and "cacheKey j = cacheKey i"
  shows "Namespace (Instance_ObjectMeta j) = Namespace (Instance_ObjectMeta i)"
  using assms by (auto simp: valid_names_def cacheKey_eq_iff same_version_def same_instance_def)

lemma GetOrBuild_ns_client:
  assumes "valid_names E" and i: "seen E i" "Namespace (Instance_ObjectMeta i) = ns" and "Inr cl \<in> results E (GetOrBuild E i)"
  shows "ns_client E ns cl"
proof -
  from assms(4) obtain s t where "cache_ok E s" "run_state (GetOrBuild E i) s = (Inr cl, t)" by (auto simp: results_def)
  from GetOrBuild_built_for [OF this] obtain j where "j = i \<or> seen E j \<and> cacheKey j = cacheKey i" "built_for E j cl" by blast
  then show ?thesis
    unfolding ns_client_def using i same_key_namespace [OF assms(1) i(1), of j] by auto
qed

text \<open>The resolvers: they read along references within the namespace.\<close>

lemma seen_results:
  "Inr i \<in> results E (ask c (\<lambda>n. Get_Instance (k8s E) n k)) \<Longrightarrow> seen E i"
  "Inr i \<in> results E (ask c (\<lambda>n. Update_Instance (k8s E) n i')) \<Longrightarrow> seen E i"
  by (blast dest: results_set_state seen_Get seen_Update)+

lemma keyed_results:
  assumes "keyed E"
  shows "Inr i \<in> results E (ask c (\<lambda>n. Get_Instance (k8s E) n k)) \<Longrightarrow> key_of (Instance_ObjectMeta i) = k \<and> seen E i"
    and "Inr t \<in> results E (ask c (\<lambda>n. Get_Team (k8s E) n k)) \<Longrightarrow> key_of (Team_ObjectMeta t) = k"
    and "Inr p \<in> results E (ask c (\<lambda>n. Get_Pipeline (k8s E) n k)) \<Longrightarrow> key_of (Pipeline_ObjectMeta p) = k"
    and "Inr j \<in> results E (ask c (\<lambda>n. Get_Job (k8s E) n k)) \<Longrightarrow> key_of (Job_ObjectMeta j) = k"
    and "Inr b \<in> results E (ask c (\<lambda>n. Get_Build (k8s E) n k)) \<Longrightarrow> key_of (Build_ObjectMeta b) = k"
    and "Inr r \<in> results E (ask c (\<lambda>n. Get_Resource (k8s E) n k)) \<Longrightarrow> key_of (Resource_ObjectMeta r) = k"
    and "Inr w \<in> results E (ask c (\<lambda>n. Get_Worker (k8s E) n k)) \<Longrightarrow> key_of (Worker_ObjectMeta w) = k"
    and "Inr i \<in> results E (ask c (\<lambda>n. Update_Instance (k8s E) n i')) \<Longrightarrow>
      key_of (Instance_ObjectMeta i) = key_of (Instance_ObjectMeta i') \<and> seen E i"
    and "Inr t \<in> results E (ask c (\<lambda>n. Update_Team (k8s E) n t')) \<Longrightarrow>
      key_of (Team_ObjectMeta t) = key_of (Team_ObjectMeta t')"
    and "Inr p \<in> results E (ask c (\<lambda>n. Update_Pipeline (k8s E) n p')) \<Longrightarrow>
      key_of (Pipeline_ObjectMeta p) = key_of (Pipeline_ObjectMeta p')"
    and "Inr b \<in> results E (ask c (\<lambda>n. Status_Build (k8s E) n b')) \<Longrightarrow>
      key_of (Build_ObjectMeta b) = key_of (Build_ObjectMeta b')"
  using seen_results by (blast dest: results_set_state keyed_answers [OF assms])+

lemma client_of_ns:
  assumes "keyed E" and "valid_names E" and "client_of E ns ref cl"
  shows "ns_client E ns cl"
proof -
  from assms(3) obtain n i j where i: "Get_Instance (k8s E) n \<lparr>key_Namespace = ns, key_Name = ref\<rparr> = Inr i"
    and j: "seen E j" "cacheKey j = cacheKey i" "built_for E j cl" unfolding client_of_def by blast
  from i have "seen E i" unfolding seen_def by blast
  from same_key_namespace [OF assms(2) this j(1,2)] keyed_get(1) [OF assms(1) i] j show ?thesis
    unfolding ns_client_def by (auto simp: key_of_def)
qed

lemma team_ready_ns: "keyed E \<Longrightarrow> team_ready E ns ref t \<Longrightarrow> Namespace (Team_ObjectMeta t) = ns"
  by (auto simp: team_ready_def key_of_def dest: keyed_get(2))

lemma pipeline_ready_ns: "keyed E \<Longrightarrow> pipeline_ready E ns ref p \<Longrightarrow> Namespace (Pipeline_ObjectMeta p) = ns"
  by (auto simp: pipeline_ready_def key_of_def dest: keyed_get(3))

lemma resolved_clients:
  assumes "keyed E" and "valid_names E"
  shows "Inr cl \<in> results E (resolveInstanceForTeam E t) \<Longrightarrow> ns_client E (Namespace (Team_ObjectMeta t)) cl"
    and "Inr (cl, tn) \<in> results E (resolveClientForPipeline E p) \<Longrightarrow> ns_client E (Namespace (Pipeline_ObjectMeta p)) cl"
    and "Inr (cl, tn, pn) \<in> results E (resolveClientForJob E j) \<Longrightarrow> ns_client E (Namespace (Job_ObjectMeta j)) cl"
proof -
  show "Inr cl \<in> results E (resolveInstanceForTeam E t) \<Longrightarrow> ns_client E (Namespace (Team_ObjectMeta t)) cl"
    using resolveInstanceForTeam_sound [of E _ t cl] client_of_ns [OF assms] unfolding results_def by blast
  show "ns_client E (Namespace (Pipeline_ObjectMeta p)) cl" if "Inr (cl, tn) \<in> results E (resolveClientForPipeline E p)"
  proof -
    from that obtain s u where "cache_ok E s" "run_state (resolveClientForPipeline E p) s = (Inr (cl, tn), u)"
      by (auto simp: results_def)
    from resolveClientForPipeline_sound [OF this] obtain t ref ref' where
      "team_ready E (Namespace (Pipeline_ObjectMeta p)) ref t" "client_of E (Namespace (Team_ObjectMeta t)) ref' cl" by blast
    with client_of_ns [OF assms this(2)] team_ready_ns [OF assms(1) this(1)] show ?thesis by simp
  qed
  show "ns_client E (Namespace (Job_ObjectMeta j)) cl" if "Inr (cl, tn, pn) \<in> results E (resolveClientForJob E j)"
  proof -
    from that obtain s u where "cache_ok E s" "run_state (resolveClientForJob E j) s = (Inr (cl, tn, pn), u)"
      by (auto simp: results_def)
    from resolveClientForJob_sound [OF this] obtain p t r1 r2 r3 where
      "pipeline_ready E (Namespace (Job_ObjectMeta j)) r1 p" "team_ready E (Namespace (Pipeline_ObjectMeta p)) r2 t"
      "client_of E (Namespace (Team_ObjectMeta t)) r3 cl" by blast
    with client_of_ns [OF assms this(3)] team_ready_ns [OF assms(1) this(2)] pipeline_ready_ns [OF assms(1) this(1)]
    show ?thesis by simp
  qed
qed

lemma resolvers_within:
  assumes keyed: "keyed E" and valid: "valid_names E"
  shows "Namespace (Team_ObjectMeta t) = ns \<Longrightarrow> within E ns (resolveInstanceForTeam E t)"
    and "Namespace (Pipeline_ObjectMeta p) = ns \<Longrightarrow> within E ns (resolveClientForPipeline E p)"
    and "Namespace (Job_ObjectMeta j) = ns \<Longrightarrow> within E ns (resolveClientForJob E j)"
proof -
  show team: "Namespace (Team_ObjectMeta t) = ns \<Longrightarrow> within E ns (resolveInstanceForTeam E t)" for t
    unfolding resolveInstanceForTeam_def Let_def
    by (intro within_rules within_GetOrBuild [OF valid])
       (auto dest!: keyed_results [OF keyed] simp: key_of_def)
  show pipeline: "Namespace (Pipeline_ObjectMeta p) = ns \<Longrightarrow> within E ns (resolveClientForPipeline E p)" for p
    unfolding resolveClientForPipeline_def Let_def
    by (intro within_rules team) (auto dest!: keyed_results [OF keyed] simp: key_of_def)
  show "Namespace (Job_ObjectMeta j) = ns \<Longrightarrow> within E ns (resolveClientForJob E j)"
    unfolding resolveClientForJob_def Let_def
    by (intro within_rules pipeline) (auto dest!: keyed_results [OF keyed] simp: key_of_def)
qed

subsection \<open>The handlers\<close>

lemma within_Evict:
  assumes "valid_names E" and "seen E i"
  shows "within E ns (Evict i)"
  using assms unfolding Evict_def valid_names_def
  by (intro withinI em.effect_modify pr.effect_modify kp.effect_modify)
       (simp_all add: emits_def preserves_def keeps_def cache_ok_Cache_Evict)

lemma within_Instance:
  assumes keyed: "keyed E" and valid: "valid_names E"
  shows "within E (key_Namespace req) (Instance_Reconcile E req)"
proof -
  have client: "ns_client E (key_Namespace req) cl" 
    if "Inr cl \<in> results E (GetOrBuild E i)" "seen E i" "key_of (Instance_ObjectMeta i) = req" for cl i
    using that by (intro GetOrBuild_ns_client [OF valid _ _ that(1)]) (auto simp: key_of_def)
  have applied: "within E (key_Namespace req) (Instance_apply E i)" if "seen E i" "key_of (Instance_ObjectMeta i) = req" for i
    using that unfolding Instance_apply_def Instance_failed_def Instance_status_def
    by (intro within_rules within_GetOrBuild [OF valid]) (auto dest: client simp: key_of_def)
  show ?thesis
    unfolding Instance_Reconcile_def
    by (intro within_rules applied within_Evict [OF valid])
       (auto dest!: results_return keyed_results [OF keyed]
          simp: keyed_metadata [OF keyed] results_if Let_def split: if_splits)
qed

lemma within_Team:
  assumes keyed: "keyed E" and valid: "valid_names E"
  shows "within E (key_Namespace req) (Team_Reconcile E req)"
proof -
  let ?ns = "key_Namespace req"
  have client: "ns_client E ?ns cl" if "Inr cl \<in> results E (resolveInstanceForTeam E t)" "key_of (Team_ObjectMeta t) = req" for cl t
    using resolved_clients(1) [OF assms that(1)] that(2) by (auto simp: key_of_def)
  have resolve: "within E ?ns (resolveInstanceForTeam E t)" if "key_of (Team_ObjectMeta t) = req" for t
    using resolvers_within(1) [OF assms] that by (auto simp: key_of_def)
  have applied: "within E ?ns (Team_apply E t)" if "key_of (Team_ObjectMeta t) = req" for t
    using that unfolding Team_apply_def Team_not_ready_def Team_applied_def
    by (intro within_rules resolve) (auto dest: client simp: key_of_def)
  have deleted: "within E ?ns (deleteTeam E t)" if "key_of (Team_ObjectMeta t) = req" for t
    using that unfolding deleteTeam_def by (intro within_rules resolve) (auto dest: client)
  show ?thesis
    unfolding Team_Reconcile_def
    by (intro within_rules applied deleted)
       (auto dest!: results_return keyed_results [OF keyed] simp: keyed_metadata [OF keyed] results_if Let_def split: if_splits)
qed

lemma within_Pipeline:
  assumes keyed: "keyed E" and valid: "valid_names E"
  shows "within E (key_Namespace req) (Pipeline_Reconcile E req)"
proof -
  let ?ns = "key_Namespace req"
  have client: "ns_client E ?ns cl"
    if "Inr (cl, tn) \<in> results E (resolveClientForPipeline E p)" "key_of (Pipeline_ObjectMeta p) = req" for cl tn p
    using resolved_clients(2) [OF assms that(1)] that(2) by (auto simp: key_of_def)
  have resolve: "within E ?ns (resolveClientForPipeline E p)" if "key_of (Pipeline_ObjectMeta p) = req" for p
    using resolvers_within(2) [OF assms] that by (auto simp: key_of_def)
  have stages: "within E ?ns (applyConfig E cl tn pn y st)" "within E ?ns (syncPause E cl tn ref b st)"
      "within E ?ns (syncExpose E cl tn ref b st)" "within E ?ns (fetchMetadata E cl tn ref st)"
    if "ns_client E ?ns cl" for cl tn pn y st ref b
    using that unfolding applyConfig_def syncPause_def syncExpose_def fetchMetadata_def
    by (intro within_rules; simp)+
  have sync: "within E ?ns (Pipeline_sync E cl tn pn y p)" if "ns_client E ?ns cl" "key_of (Pipeline_ObjectMeta p) = req" for cl tn pn y p
    using that unfolding Pipeline_sync_def Pipeline_upload_failed_def by (intro within_rules stages) simp_all
  have applied: "within E ?ns (Pipeline_apply E p)" if "key_of (Pipeline_ObjectMeta p) = req" for p
    using that unfolding Pipeline_apply_def Pipeline_not_ready_def loadPipelineConfig_def
    by (intro within_rules resolve sync) (auto dest: client simp: key_of_def)
  have deleted: "within E ?ns (deletePipeline E p)" if "key_of (Pipeline_ObjectMeta p) = req" for p
    using that unfolding deletePipeline_def by (intro within_rules resolve) (auto dest: client)
  show ?thesis
    unfolding Pipeline_Reconcile_def
    by (intro within_rules applied deleted)
       (auto dest!: results_return keyed_results [OF keyed] simp: keyed_metadata [OF keyed] results_if Let_def split: if_splits)
qed

lemma within_Job:
  assumes keyed: "keyed E" and valid: "valid_names E"
  shows "within E (key_Namespace req) (Job_Reconcile E req)"
proof -
  let ?ns = "key_Namespace req"
  have client: "ns_client E ?ns cl"
    if "Inr (cl, tn, pn) \<in> results E (resolveClientForJob E j)" "key_of (Job_ObjectMeta j) = req" for cl tn pn j
    using resolved_clients(3) [OF assms that(1)] that(2) by (auto simp: key_of_def)
  have resolve: "within E ?ns (resolveClientForJob E j)" if "key_of (Job_ObjectMeta j) = req" for j
    using resolvers_within(3) [OF assms] that by (auto simp: key_of_def)
  have create: "within E ?ns (triggerBuild E j st)" if "key_of (Job_ObjectMeta j) = req" for j st
    using that keyed_metadata(3) [OF keyed, of j "newBuildCR j"]
    unfolding triggerBuild_def by (intro within_rules) (auto simp: newBuildCR_def key_of_def)
  have track: "within E ?ns (Job_track E cl tn pn j)" if "ns_client E ?ns cl" "key_of (Job_ObjectMeta j) = req" for cl tn pn j
    using that unfolding Job_track_def syncJobPause_def reportLastBuild_def by (intro within_rules create) simp_all
  show ?thesis
    unfolding Job_Reconcile_def
    by (intro within_rules resolve track) (auto dest!: keyed_results [OF keyed] dest: client)
qed

lemma within_Build:
  assumes keyed: "keyed E" and valid: "valid_names E"
  shows "within E (key_Namespace req) (Build_Reconcile E req)"
proof -
  let ?ns = "key_Namespace req"
  have client: "ns_client E ?ns cl"
    if "Inr (cl, tn, pn) \<in> results E (resolveClientForJob E j)" "Namespace (Job_ObjectMeta j) = ?ns" for cl tn pn j
    using resolved_clients(3) [OF assms that(1)] that(2) by simp
  have watch: "within E ?ns (startWatcher E cl b)" if "ns_client E ?ns cl" "key_of (Build_ObjectMeta b) = req" for cl b
    using that unfolding within_def startWatcher_def
    by (auto simp: run_simps claimWatcher_def Let_def stays_in_def cache_ok_def at_home_def key_of_def split: if_splits)
  have stages: "within E ?ns (triggerIfNew E cl tn pn jn st)" "within E ?ns (abortIfAsked E cl spec st)"
      "within E ?ns (refreshStatus E cl st)" "within E ?ns (setComplete E st)"
    if "ns_client E ?ns cl" for cl tn pn jn st spec
    using that unfolding triggerIfNew_def abortIfAsked_def refreshStatus_def setComplete_def
    by (intro within_rules; simp)+
  have not_ready: "within E ?ns (Build_not_ready E b reason msg r)" if "key_of (Build_ObjectMeta b) = req" for b reason msg r
    using that unfolding Build_not_ready_def by (intro within_rules) simp_all
  have track: "within E ?ns (Build_track E cl tn pn jn b)" if "ns_client E ?ns cl" "key_of (Build_ObjectMeta b) = req" for cl tn pn jn b
    using that unfolding Build_track_def
    by (intro within_rules stages(1-3) stages(4) [OF that(1)] watch not_ready) (auto dest!: keyed_results [OF keyed])
  show ?thesis
    unfolding Build_Reconcile_def
    by (intro within_rules resolvers_within(3) [OF assms] track not_ready)
       (auto dest!: keyed_results [OF keyed] dest: client simp: key_of_def)
qed

lemma within_Resource:
  assumes keyed: "keyed E" and valid: "valid_names E"
  shows "within E (key_Namespace req) (Resource_Reconcile E req)"
proof -
  let ?ns = "key_Namespace req"
  have client: "ns_client E ?ns cl"
    if "Inr (cl, tn) \<in> results E (resolveClientForPipeline E p)" "Namespace (Pipeline_ObjectMeta p) = ?ns" for cl tn p
    using resolved_clients(2) [OF assms that(1)] that(2) by simp
  have not_ready: "within E ?ns (Resource_not_ready E x reason msg)" if "key_of (Resource_ObjectMeta x) = req" for x reason msg
    using that unfolding Resource_not_ready_def by (intro within_rules) simp_all
  have track: "within E ?ns (Resource_track E cl tn p x)"
    if "ns_client E ?ns cl" "key_of (Resource_ObjectMeta x) = req" for cl tn p x
    using that unfolding Resource_track_def shouldCheck_def checkResource_def fetchLatestVersion_def
    by (intro within_rules) simp_all
  show ?thesis
    unfolding Resource_Reconcile_def
    by (intro within_rules resolvers_within(2) [OF assms] track not_ready)
       (auto dest!: keyed_results [OF keyed] dest: client simp: key_of_def)
qed

lemma within_Worker:
  assumes keyed: "keyed E" and valid: "valid_names E"
  shows "within E (key_Namespace req) (Worker_Reconcile E req)"
proof -
  let ?ns = "key_Namespace req"
  have copy: "within E ?ns (copyFirstWorker E spec ws st)" for spec ws st
    by (induction ws) (auto simp: copyWorker_def intro!: within_rules)
  have not_ready: "within E ?ns (Worker_not_ready E w reason msg)" if "key_of (Worker_ObjectMeta w) = req" for w reason msg
    using that unfolding Worker_not_ready_def by (intro within_rules) simp_all
  have track: "within E ?ns (Worker_track E cl w)" if "ns_client E ?ns cl" "key_of (Worker_ObjectMeta w) = req" for cl w
    using that unfolding Worker_track_def applyDesiredState_def by (intro within_rules copy) simp_all
  show ?thesis
    unfolding Worker_Reconcile_def
    by (intro within_rules within_GetOrBuild [OF valid] track not_ready)
       (auto dest!: keyed_results [OF keyed] dest: GetOrBuild_ns_client [OF valid] simp: key_of_def)
qed

lemma within_dispatch: "keyed E \<Longrightarrow> valid_names E \<Longrightarrow> within E (key_Namespace req) (dispatch E ctl req)"
  by (cases ctl) (simp_all add: within_Instance within_Team within_Pipeline within_Job within_Build within_Resource within_Worker)

subsection \<open>The running operator\<close>

text \<open>Every watcher that runs, or that a reconciliation in progress is about to start, is at home.\<close>

definition watchers_home :: "'cl env \<Rightarrow> 'cl process \<Rightarrow> bool" where
  "watchers_home E p \<longleftrightarrow> (\<forall>w \<in> set (spawned (memory p)). at_home E w) \<and>
     (\<forall>es \<in> set (inflight p). \<forall>w. Claim w \<in> set es \<longrightarrow> at_home E w)"

lemma cache_ok_reachable: "operator_reachable E p \<Longrightarrow> valid_names E \<Longrightarrow> cache_ok E (memory p)"
  using operator_invariant [of E p] by (simp add: process_ok_def)

lemma after_within:
  assumes "keyed E" and "valid_names E" and "cache_ok E s"
  shows "stays_in E (key_Namespace req) s (after E ctl req s)"
  using within_dispatch [OF assms(1,2)] assms(3) unfolding within_def after_def by (metis prod.collapse)

lemma claims_home:
  assumes "keyed E" and "valid_names E" and "cache_ok E s" and "accesses E ctl req s es" and "Claim w \<in> set es"
  shows "at_home E w"
proof -
  have "cache_ok E (s\<lparr>watchers := {}, spawned := []\<rparr>)" using assms(3) by (simp add: cache_ok_def)
  from after_within [OF assms(1,2) this] have "at_home E v" if "Claim v \<in> set (claims E ctl req s)" for v
    using that by (auto simp: stays_in_def claims_def)
  with assms(4,5) show ?thesis by (auto elim: accesses.cases)
qed

lemma watcher_step_same:
  "watchBuildEvents_step E d w s = Some (Some v, t) \<Longrightarrow> watch_key v = watch_key w \<and> watch_client v = watch_client w"
  by (cases "watch_phase w")
     (auto simp: watchBuildEvents_step_def run_simps Let_def split: sum.splits option.splits if_splits)

lemma watchers_home_step:
  assumes "operator_step E p q" and "keyed E" and "valid_names E" and "cache_ok E (memory p)" and "watchers_home E p"
  shows "watchers_home E q"
  using assms
proof (induction rule: operator_step.induct)
  case (begins ctl req p es)
  then show ?case by (auto simp: watchers_home_def dest: claims_home)
next
  case (performs r p e es)
  then have "e # es \<in> set (inflight p)" by (metis nth_mem)
  with performs have tail: "\<forall>w. Claim w \<in> set (e # es) \<longrightarrow> at_home E w" by (auto simp: watchers_home_def)
  with performs show ?case
    by (cases e) (auto simp: watchers_home_def claimWatcher_def Let_def dest!: set_update_subset_insert [THEN subsetD])
next
  case (watches i p w t)
  from watcher_step_effect [OF watches.hyps(2)] have "spawned t = spawned (memory p)" by simp
  moreover have "at_home E v" if "w = Some v" for v
    using watcher_step_same [of E "\<lambda>_. False" "spawned (memory p) ! i" "memory p" v t] watches that
    by (auto simp: watchers_home_def at_home_def)
  ultimately show ?case
    using watches.prems(4)
    by (auto simp: watchers_home_def watcher_moved_def split: option.splits
        dest!: set_update_subset_insert [THEN subsetD] in_set_takeD in_set_dropD)
next
  case (receives p k q)
  then show ?case by (simp add: watchers_home_def)
qed

lemma watchers_home_reachable:
  assumes "operator_reachable E p" and "keyed E" and "valid_names E"
  shows "watchers_home E p"
  using assms(1)
proof (induction rule: operator_reachable.induct)
  case start
  then show ?case by (simp add: watchers_home_def SetupWithManager_eventCh_def)
next
  case (step p q)
  from watchers_home_step [OF step.hyps(2) assms(2,3) cache_ok_reachable [OF step.hyps(1) assms(3)] step.IH] show ?case .
qed

text \<open>
  C5: namespaces are kept apart. In every state the running operator can reach, with clients of any number of
  instances in the cache and any reconciliations in progress, a reconciliation makes no call that leaves the
  namespace of its request: it reads (Secrets and ConfigMaps included), updates and creates objects of that
  namespace only, and everything it asks of Concourse it asks through a client that was built, with the
  Secrets of that namespace, for an instance of that namespace. The same holds of every watcher that is
  running: its client belongs to the namespace of its build.
\<close>

theorem namespaces_isolated:
  assumes "operator_reachable E p" and "valid_names E" and "keyed E"
  shows "list_all (confined E (key_Namespace req)) (calls (dispatch E ctl req) (memory p)) \<and>
    (\<forall>w \<in> set (spawned (memory p)). ns_client E (key_Namespace (watch_key w)) (watch_client w))"
proof -
  from after_within [OF assms(3,2) cache_ok_reachable [OF assms(1,2)]] obtain cs where
    "trace (after E ctl req (memory p)) = trace (memory p) @ cs" "list_all (confined E (key_Namespace req)) cs"
    unfolding stays_in_def by blast
  moreover from watchers_home_reachable [OF assms(1,3,2)] have "\<forall>w \<in> set (spawned (memory p)). at_home E w"
    by (simp add: watchers_home_def)
  ultimately show ?thesis by (simp add: calls_def after_def at_home_def)
qed

subsection \<open>An instance of it\<close>

text \<open>A cluster that answers with the object of the key, and knows no instance of an invalid name.\<close>

definition ex_tenants_k8s :: k8s_api where
  "ex_tenants_k8s = ex_keyed_k8s\<lparr>Get_Instance := (\<lambda>_ k.
     let i = ex_instance\<lparr>Instance_ObjectMeta := ex_named k (Instance_ObjectMeta ex_instance)\<rparr>
     in if valid_instance i then Inr i else Inl (ApiError True ''not found''))\<rparr>"

definition ex_tenants :: "ex_client env" where
  "ex_tenants = ex_env\<lparr>k8s := ex_tenants_k8s\<rparr>"

lemma ex_tenants_keyed: "keyed ex_tenants"
  by (auto simp: keyed_def keyed_reads_def keyed_updates_def metadata_laws_def ex_tenants_def ex_tenants_k8s_def
      ex_keyed_k8s_def ex_named_def key_of_def Let_def split: if_splits)

lemma ex_tenants_valid: "valid_names ex_tenants"
  by (auto simp: valid_names_def seen_def ex_tenants_def ex_tenants_k8s_def ex_keyed_k8s_def Let_def split: if_splits)

abbreviation ex_tenants_start :: "ex_client process" where
  "ex_tenants_start \<equiv> \<lparr>memory = SetupWithManager_eventCh op_init, inflight = []\<rparr>"

lemma ex_tenants_sel [simp]:
  "lib ex_tenants = ex_lib" "atc ex_tenants = ex_atc" "clock ex_tenants = clock ex_env"
  "Get_Worker (k8s ex_tenants) n \<lparr>key_Namespace = ''ns'', key_Name = ''w-1''\<rparr> = Inr ex_worker"
  "Get_Instance (k8s ex_tenants) n \<lparr>key_Namespace = ''ns'', key_Name = ''ci''\<rparr> =
     Inr ex_instance"
  "Get_Secret (k8s ex_tenants) = Get_Secret ex_k8s" "Status_Worker (k8s ex_tenants) = Status_Worker ex_k8s"
  by (simp_all add: ex_tenants_def ex_tenants_k8s_def ex_keyed_k8s_def ex_named_def valid_meta_def Let_def ex_objects)

abbreviation ex_worker_key :: ObjectKey where
  "ex_worker_key \<equiv> \<lparr>key_Namespace = ''ns'', key_Name = ''w-1''\<rparr>"

lemma ex_tenants_calls:
  "\<exists>cs. calls (dispatch ex_tenants Ctl_Worker ex_worker_key) (memory ex_tenants_start) =
     [KGet KWorker ex_worker_key, ex_get KInstance ''ci'', ex_get KSecret ''cred''] @ cs \<and>
   CLandWorker ex_cl ''worker-1'' \<in> set cs"
  by (simp add: calls_def Worker_Reconcile_def run_simps Let_def SetupWithManager_eventCh_def ex_get_def isReady_def
      GetOrBuild_def BuildHTTPClient_def buildTLSConfig_def readSecretKey_def Cache_Get_def NewCache_def NewConcourseClient_def
      ex_cl_def Worker_track_def applyDesiredState_def ex_worker_def ex_atc_def ex_atc_worker_def copyWorker_def
      WorkerDesiredStateRetire_def WorkerDesiredStateLand_def)

theorem namespaces_isolated_witness:
  "list_all (confined ex_tenants ''ns'') (calls (dispatch ex_tenants Ctl_Worker ex_worker_key) (memory ex_tenants_start)) \<and>
   ns_client ex_tenants ''ns'' ex_cl"
proof -
  from namespaces_isolated [OF operator_reachable.start ex_tenants_valid ex_tenants_keyed, of ex_worker_key Ctl_Worker]
  have all: "list_all (confined ex_tenants ''ns'') (calls (dispatch ex_tenants Ctl_Worker ex_worker_key) (memory ex_tenants_start))"
    by simp
  from ex_tenants_calls obtain cs where
    "CLandWorker ex_cl ''worker-1'' \<in> set (calls (dispatch ex_tenants Ctl_Worker ex_worker_key) (memory ex_tenants_start))"
    by auto
  with all have "confined ex_tenants ''ns'' (CLandWorker ex_cl ''worker-1'')" by (simp only: list_all_iff)
  with all show ?thesis by simp
qed

end
