(* ===== verification/Finalizers.thy ===== *)
theory Finalizers
  imports Controllers
begin

section \<open>Nothing is created without a finalizer\<close>

text \<open>
  What a team or pipeline object stands for in Concourse is removed when the object is deleted, provided its
  finalizer is on it by then. So the finalizer has to be there before anything is created: on the object as it
  was read, or by an update that the API server accepted.
\<close>

fun creates_in_concourse :: "'cl call \<Rightarrow> bool" where
  "creates_in_concourse (TCreateOrUpdate cl t a) = True"
| "creates_in_concourse (TCreateOrUpdatePipelineConfig cl t r v c b) = True"
| "creates_in_concourse _ = False"

fun finalized :: "'cl env \<Rightarrow> controller \<Rightarrow> ObjectKey \<Rightarrow> nat \<Rightarrow> 'cl call list \<Rightarrow> bool" where
  "finalized E Ctl_Team req n pre \<longleftrightarrow>
     (\<exists>t. Get_Team (k8s E) n req = Inr t \<and> IsZero (lib E) (DeletionTimestamp (Team_ObjectMeta t)) \<and>
        (ContainsFinalizer (lib E) (Team_ObjectMeta t) teamFinalizer \<or>
         (\<exists>t' t''. take 2 pre = [KGet KTeam req, KUpdate (OTeam t')] \<and> Team_Spec t' = Team_Spec t \<and>
            ContainsFinalizer (lib E) (Team_ObjectMeta t') teamFinalizer \<and> Update_Team (k8s E) (Suc n) t' = Inr t'')))"
| "finalized E Ctl_Pipeline req n pre \<longleftrightarrow>
     (\<exists>p. Get_Pipeline (k8s E) n req = Inr p \<and> IsZero (lib E) (DeletionTimestamp (Pipeline_ObjectMeta p)) \<and>
        (ContainsFinalizer (lib E) (Pipeline_ObjectMeta p) pipelineFinalizer \<or>
         (\<exists>p' p''. take 2 pre = [KGet KPipeline req, KUpdate (OPipeline p')] \<and> Pipeline_Spec p' = Pipeline_Spec p \<and>
            ContainsFinalizer (lib E) (Pipeline_ObjectMeta p') pipelineFinalizer \<and>
            Update_Pipeline (k8s E) (Suc n) p' = Inr p'')))"
| "finalized E _ req n pre \<longleftrightarrow> False"

text \<open>What \<open>controllerutil.AddFinalizer\<close> documents.\<close>

definition finalizer_law :: "'cl lib \<Rightarrow> bool" where
  "finalizer_law L \<longleftrightarrow> (\<forall>m f. ContainsFinalizer L (AddFinalizer L m f) f)"

lemmas quiet_rules = em.effect_rules emits_resolvers_if emits_ask emits_setCondition emits_Now

lemma no_creation:
  assumes "state_io_rel (emits (\<lambda>c. \<not> creates_in_concourse c)) m" and "calls m s = pre @ c # post"
  shows "\<not> creates_in_concourse c"
  using emits_calls [OF assms(1), of c s] assms(2) by simp

lemma others_create_nothing:
  assumes "ctl \<notin> {Ctl_Team, Ctl_Pipeline}"
  shows "state_io_rel (emits (\<lambda>c. \<not> creates_in_concourse c)) (dispatch E ctl req)"
proof -
  have copy: "state_io_rel (emits (\<lambda>c. \<not> creates_in_concourse c)) (copyFirstWorker E spec ws st)" for spec ws st
    by (induction ws) (auto simp: copyWorker_def intro!: quiet_rules)
  have watch: "state_io_rel (emits (\<lambda>c. \<not> creates_in_concourse c)) (startWatcher E cl b)" for cl b
    unfolding startWatcher_def by (intro em.effect_rules em.effect_modify) (simp add: emits_def)
  have evict: "state_io_rel (emits (\<lambda>c. \<not> creates_in_concourse c)) (Evict i)" for i
    unfolding Evict_def by (rule em.effect_modify) (simp add: emits_def)
  have "state_io_rel (emits (\<lambda>c. \<not> creates_in_concourse c)) (Instance_Reconcile E req)"
    unfolding Instance_Reconcile_def Instance_apply_def Instance_failed_def Instance_status_def
    by (intro quiet_rules evict) simp_all
  moreover have "state_io_rel (emits (\<lambda>c. \<not> creates_in_concourse c)) (Job_Reconcile E req)"
    unfolding Job_Reconcile_def Job_track_def syncJobPause_def triggerBuild_def reportLastBuild_def
    by (intro quiet_rules) simp_all
  moreover have "state_io_rel (emits (\<lambda>c. \<not> creates_in_concourse c)) (Build_Reconcile E req)"
    unfolding Build_Reconcile_def Build_track_def triggerIfNew_def abortIfAsked_def refreshStatus_def setComplete_def
      Build_not_ready_def by (intro quiet_rules watch) simp_all
  moreover have "state_io_rel (emits (\<lambda>c. \<not> creates_in_concourse c)) (Resource_Reconcile E req)"
    unfolding Resource_Reconcile_def Resource_track_def shouldCheck_def checkResource_def fetchLatestVersion_def
      Resource_not_ready_def by (intro quiet_rules) simp_all
  moreover have "state_io_rel (emits (\<lambda>c. \<not> creates_in_concourse c)) (Worker_Reconcile E req)"
    unfolding Worker_Reconcile_def Worker_track_def applyDesiredState_def Worker_not_ready_def
    by (intro quiet_rules copy) simp_all
  ultimately show ?thesis using assms by (cases ctl) simp_all
qed

text \<open>The shape the two handlers share after the read: add the finalizer if it is missing, and go on.\<close>

lemma calls_ask_bind:
  "(\<And>a. appends (f a)) \<Longrightarrow>
   calls (State_Monad.bind (ask c g) f) s = c # calls (f (g (length (trace s)))) (s\<lparr>trace := trace s @ [c]\<rparr>)"
  by (subst calls_bind) (simp_all add: emits_ask run_simps)

lemma calls_ask_create:
  assumes "calls (State_Monad.bind (ask a g) f) s = pre @ c # post" and "\<And>x. appends (f x)"
    and "creates_in_concourse c" and "\<not> creates_in_concourse a"
  obtains pre' where "pre = a # pre'"
    and "calls (f (g (length (trace s)))) (s\<lparr>trace := trace s @ [a]\<rparr>) = pre' @ c # post"
proof -
  from assms(1) have "a # calls (f (g (length (trace s)))) (s\<lparr>trace := trace s @ [a]\<rparr>) = pre @ c # post"
    by (simp add: calls_ask_bind [OF assms(2)])
  with assms(3,4) show ?thesis by (cases pre) (auto intro: that)
qed

lemma finalizer_first:
  assumes calls: "calls (State_Monad.bind (if \<not> present then ask u g else State_Monad.return (Inr x))
      (\<lambda>f. case f of Inl err \<Rightarrow> State_Monad.return (r err) | Inr y \<Rightarrow> k y)) s = pre @ c # post"
    and c: "creates_in_concourse c" and k: "\<And>y. appends (k y)" and u: "\<not> creates_in_concourse u"
  shows "present \<or> (\<exists>y pre'. pre = u # pre' \<and> g (length (trace s)) = Inr y)"
proof (cases present)
  case False
  let ?f = "\<lambda>f. case f of Inl err \<Rightarrow> State_Monad.return (r err) | Inr y \<Rightarrow> k y"
  have appends: "appends (?f a)" for a by (intro appends_rules k)
  from calls False have "calls (State_Monad.bind (ask u g) ?f) s = pre @ c # post" by simp
  from calls_ask_create [where f = ?f, OF this appends c u] obtain pre' where
    pre': "pre = u # pre'" "calls (?f (g (length (trace s)))) (s\<lparr>trace := trace s @ [u]\<rparr>) = pre' @ c # post" by blast
  then show ?thesis by (cases "g (length (trace s))") auto
qed simp

lemma finalizer_protocol:
  assumes calls: "calls (State_Monad.bind (ask rd get) (\<lambda>w. case w of
        Inl err \<Rightarrow> State_Monad.return (e err)
      | Inr x \<Rightarrow>
          if \<not> alive x then dying x
          else State_Monad.bind (if \<not> present x then ask (u x) (g x) else State_Monad.return (Inr x))
            (\<lambda>f. case f of Inl err \<Rightarrow> State_Monad.return (r err) | Inr y \<Rightarrow> k y))) s = pre @ c # post"
    and c: "creates_in_concourse c" and dying: "\<And>x. state_io_rel (emits (\<lambda>c. \<not> creates_in_concourse c)) (dying x)"
    and k: "\<And>y. appends (k y)" and quiet: "\<not> creates_in_concourse rd" "\<And>x. \<not> creates_in_concourse (u x)"
  shows "\<exists>x. get (length (trace s)) = Inr x \<and> alive x \<and>
    (present x \<or> (\<exists>y pre'. pre = rd # u x # pre' \<and> g x (Suc (length (trace s))) = Inr y))"
proof -
  let ?body = "\<lambda>w. case w of
        Inl err \<Rightarrow> State_Monad.return (e err)
      | Inr x \<Rightarrow>
          if \<not> alive x then dying x
          else State_Monad.bind (if \<not> present x then ask (u x) (g x) else State_Monad.return (Inr x))
            (\<lambda>f. case f of Inl err \<Rightarrow> State_Monad.return (r err) | Inr y \<Rightarrow> k y)"
  let ?s = "s\<lparr>trace := trace s @ [rd]\<rparr>"
  have appends: "appends (?body w)" for w
    by (intro appends_rules k dying [THEN appends_emits]; simp)
  from calls_ask_create [where f = ?body, OF calls appends c quiet(1)] obtain pre1 where
    pre: "pre = rd # pre1" and rest: "calls (?body (get (length (trace s)))) ?s = pre1 @ c # post" by blast
  show ?thesis
  proof (cases "get (length (trace s))")
    case (Inl err)
    with rest show ?thesis by simp
  next
    case (Inr x)
    show ?thesis
    proof (cases "alive x")
      case True
      with rest Inr have "calls (State_Monad.bind (if \<not> present x then ask (u x) (g x) else State_Monad.return (Inr x))
          (\<lambda>f. case f of Inl err \<Rightarrow> State_Monad.return (r err) | Inr y \<Rightarrow> k y)) ?s = pre1 @ c # post" by simp
      from finalizer_first [OF this c k quiet(2)] Inr True pre show ?thesis by auto
    next
      case False
      with rest Inr have "calls (dying x) ?s = pre1 @ c # post" by simp
      from no_creation [OF dying this] c show ?thesis by simp
    qed
  qed
qed

lemma Team_finalized:
  assumes calls: "calls (Team_Reconcile E req) s = pre @ c # post" and c: "creates_in_concourse c"
    and law: "finalizer_law (lib E)"
  shows "finalized E Ctl_Team req (length (trace s)) pre"
proof -
  have apply_appends: "appends (Team_apply E t)" for t
    unfolding Team_apply_def Team_not_ready_def Team_applied_def by (intro appends_rules; simp)
  have delete: "state_io_rel (emits (\<lambda>c. \<not> creates_in_concourse c)) (deleteTeam E t)" for t
    unfolding deleteTeam_def by (intro quiet_rules) simp_all
  have "\<exists>t. Get_Team (k8s E) (length (trace s)) req = Inr t \<and> IsZero (lib E) (DeletionTimestamp (Team_ObjectMeta t)) \<and>
      (ContainsFinalizer (lib E) (Team_ObjectMeta t) teamFinalizer \<or>
       (\<exists>y pre'. pre = KGet KTeam req # KUpdate (OTeam (t\<lparr>Team_ObjectMeta :=
            AddFinalizer (lib E) (Team_ObjectMeta t) teamFinalizer\<rparr>)) # pre' \<and>
          Update_Team (k8s E) (Suc (length (trace s))) (t\<lparr>Team_ObjectMeta :=
            AddFinalizer (lib E) (Team_ObjectMeta t) teamFinalizer\<rparr>) = Inr y))"
    by (rule finalizer_protocol [OF calls [unfolded Team_Reconcile_def Let_def] c])
       ((intro quiet_rules apply_appends delete)?; simp)+
  with law show ?thesis by (fastforce simp: finalizer_law_def)
qed

lemma Pipeline_finalized:
  assumes calls: "calls (Pipeline_Reconcile E req) s = pre @ c # post" and c: "creates_in_concourse c"
    and law: "finalizer_law (lib E)"
  shows "finalized E Ctl_Pipeline req (length (trace s)) pre"
proof -
  have apply_appends: "appends (Pipeline_apply E p)" for p
    unfolding Pipeline_apply_def Pipeline_not_ready_def loadPipelineConfig_def Pipeline_sync_def applyConfig_def
      Pipeline_upload_failed_def syncPause_def syncExpose_def fetchMetadata_def by (intro appends_rules; simp)
  have delete: "state_io_rel (emits (\<lambda>c. \<not> creates_in_concourse c)) (deletePipeline E p)" for p
    unfolding deletePipeline_def by (intro quiet_rules) simp_all
  have "\<exists>p. Get_Pipeline (k8s E) (length (trace s)) req = Inr p \<and> IsZero (lib E) (DeletionTimestamp (Pipeline_ObjectMeta p)) \<and>
      (ContainsFinalizer (lib E) (Pipeline_ObjectMeta p) pipelineFinalizer \<or>
       (\<exists>y pre'. pre = KGet KPipeline req # KUpdate (OPipeline (p\<lparr>Pipeline_ObjectMeta :=
            AddFinalizer (lib E) (Pipeline_ObjectMeta p) pipelineFinalizer\<rparr>)) # pre' \<and>
          Update_Pipeline (k8s E) (Suc (length (trace s))) (p\<lparr>Pipeline_ObjectMeta :=
            AddFinalizer (lib E) (Pipeline_ObjectMeta p) pipelineFinalizer\<rparr>) = Inr y))"
    by (rule finalizer_protocol [OF calls [unfolded Pipeline_Reconcile_def Let_def] c])
       ((intro quiet_rules apply_appends delete)?; simp)+
  with law show ?thesis by (fastforce simp: finalizer_law_def)
qed

text \<open>
  C13: nothing is created without a finalizer: whenever a reconciliation by any controller creates a team or
  a pipeline in Concourse, it is one of a Team or Pipeline object that was read before in the same
  reconciliation, was not being deleted, and had its finalizer, or got it by an update that the API server had
  accepted by then, with the spec left as it was. So the deletion of the object cannot go unnoticed.
\<close>

theorem finalizer_before_creation:
  assumes "finalizer_law (lib E)" and "calls (dispatch E ctl req) s = pre @ c # post" and "creates_in_concourse c"
  shows "finalized E ctl req (length (trace s)) pre"
proof (cases "ctl \<in> {Ctl_Team, Ctl_Pipeline}")
  case True
  with assms show ?thesis using Team_finalized Pipeline_finalized by (cases ctl) fastforce+
next
  case False
  from no_creation [OF others_create_nothing [OF this] assms(2)] assms(3) show ?thesis by simp
qed

text \<open>A team that was just created: the finalizer is added first.\<close>

definition ex_bare_team :: Team where
  "ex_bare_team = ex_team\<lparr>Team_ObjectMeta := (ex_meta ''dev'')\<lparr>Finalizers := []\<rparr>\<rparr>"

definition ex_bare :: "ex_client env" where
  "ex_bare = ex_env\<lparr>k8s := ex_k8s\<lparr>Get_Team := (\<lambda>_ _. Inr ex_bare_team)\<rparr>\<rparr>"

lemma ex_finalizer_law: "finalizer_law ex_lib"
  by (simp add: finalizer_law_def ex_lib_def)

lemma ex_bare_sel [simp]:
  "lib ex_bare = ex_lib" "atc ex_bare = ex_atc" "Get_Team (k8s ex_bare) n k = Inr ex_bare_team"
  "Get_Instance (k8s ex_bare) n k = Inr ex_instance" "Update_Team (k8s ex_bare) n t = Inr t"
  "Get_Secret (k8s ex_bare) = Get_Secret ex_k8s" "Status_Team (k8s ex_bare) = Status_Team ex_k8s"
  "clock ex_bare = clock ex_env"
  by (simp_all add: ex_bare_def)

lemma ex_bare_calls:
  "\<exists>t post. calls (dispatch ex_bare Ctl_Team ex_req) op_init =
     [KGet KTeam ex_req, KUpdate (OTeam t), ex_get KInstance ''ci'', ex_get KSecret ''cred''] @
       TCreateOrUpdate ex_cl ''developers'' (wanted_team ex_team) # post"
  by (simp add: calls_def Team_Reconcile_def run_simps Let_def Team_apply_def resolveInstanceForTeam_def ex_bare_team_def
      teamFinalizer_def ex_get_def isReady_def GetOrBuild_def BuildHTTPClient_def buildTLSConfig_def readSecretKey_def
      Cache_Get_def NewCache_def NewConcourseClient_def ex_cl_def wanted_team_def teamName_of_def default_name_def Team_applied_def ex_atc_def)

theorem finalizer_before_creation_witness:
  "\<exists>t post. calls (dispatch ex_bare Ctl_Team ex_req) op_init =
     [KGet KTeam ex_req, KUpdate (OTeam t), ex_get KInstance ''ci'', ex_get KSecret ''cred''] @
       TCreateOrUpdate ex_cl ''developers'' (wanted_team ex_team) # post \<and>
   finalized ex_bare Ctl_Team ex_req 0
     [KGet KTeam ex_req, KUpdate (OTeam t), ex_get KInstance ''ci'', ex_get KSecret ''cred'']"
proof -
  from ex_bare_calls obtain t post where run: "calls (dispatch ex_bare Ctl_Team ex_req) op_init =
     [KGet KTeam ex_req, KUpdate (OTeam t), ex_get KInstance ''ci'', ex_get KSecret ''cred''] @
       TCreateOrUpdate ex_cl ''developers'' (wanted_team ex_team) # post" by blast
  from finalizer_before_creation [OF _ this] ex_finalizer_law
  have "finalized ex_bare Ctl_Team ex_req 0
     [KGet KTeam ex_req, KUpdate (OTeam t), ex_get KInstance ''ci'', ex_get KSecret ''cred'']" by simp
  with run show ?thesis by blast
qed

end
