(* ===== verification/Reporting.thy ===== *)
theory Reporting
  imports Ownership History
begin

section \<open>Statuses and readiness\<close>

text \<open>
  The status that stands for an object is the last one sent; reads are fresh if they show it. A calculus of
  handlers that end by sending a Ready status: \<open>ends_ready\<close> holds of a sequence whose last part ends so, and
  the parts of the instance, team, pipeline and job controllers that follow Concourse's answers do.
\<close>

subsection \<open>The status that stands\<close>

text \<open>The last status sent for an object.\<close>

fun status_sent :: "'cl call \<Rightarrow> k8s_object list" where
  "status_sent (KStatusUpdate x) = [x]"
| "status_sent _ = []"

definition statuses_of :: "object_kind \<times> ObjectKey \<Rightarrow> 'cl call list \<Rightarrow> k8s_object list" where
  "statuses_of oid tr = filter (\<lambda>x. object_id x = oid) (concat (map status_sent tr))"

definition standing :: "object_kind \<times> ObjectKey \<Rightarrow> 'cl call list \<Rightarrow> k8s_object option" where
  "standing oid tr = (if statuses_of oid tr = [] then None else Some (last (statuses_of oid tr)))"

lemma standing_simps [simp]:
  "standing oid [] = None"
  "standing oid (tr @ [KStatusUpdate x]) = (if object_id x = oid then Some x else standing oid tr)"
  by (simp_all add: standing_def statuses_of_def)

lemma standing_append:
  "standing oid (tr @ cs) = (case standing oid cs of None \<Rightarrow> standing oid tr | Some x \<Rightarrow> Some x)"
  by (simp add: standing_def statuses_of_def)

lemma standing_other: "\<forall>x. KStatusUpdate x \<in> set cs \<longrightarrow> object_id x \<noteq> oid \<Longrightarrow> standing oid (tr @ cs) = standing oid tr"
proof (induction cs rule: rev_induct)
  case Nil
  then show ?case by simp
next
  case (snoc c cs)
  then have "standing oid (tr @ cs) = standing oid tr" by auto
  moreover have "standing oid ((tr @ cs) @ [c]) = standing oid (tr @ cs)"
    using snoc.prems by (cases c) (auto simp: standing_def statuses_of_def)
  ultimately show ?case by simp
qed

lemma standing_id: "standing oid tr = Some x \<Longrightarrow> object_id x = oid"
  unfolding standing_def statuses_of_def by (auto split: if_splits dest!: last_in_set)

fun object_ready :: "'cl env \<Rightarrow> k8s_object \<Rightarrow> bool" where
  "object_ready E (OInstance x) = isReady E (InstanceStatus_Conditions (Instance_Status x))"
| "object_ready E (OTeam x) = isReady E (TeamStatus_Conditions (Team_Status x))"
| "object_ready E (OPipeline x) = isReady E (PipelineStatus_Conditions (Pipeline_Status x))"
| "object_ready E (OJob x) = isReady E (JobStatus_Conditions (Job_Status x))"
| "object_ready E (OBuild x) = isReady E (BuildStatus_Conditions (Build_Status x))"
| "object_ready E (OResource x) = isReady E (ResourceStatus_Conditions (Resource_Status x))"
| "object_ready E (OWorker x) = isReady E (WorkerStatus_Conditions (Worker_Status x))"

definition up :: "'cl env \<Rightarrow> object_kind \<times> ObjectKey \<Rightarrow> 'cl op_state \<Rightarrow> bool" where
  "up E oid s \<longleftrightarrow> (\<exists>x. standing oid (trace s) = Some x \<and> object_ready E x)"

text \<open>The answer to the \<open>n\<close>-th interaction, a read of the object, shows the status of \<open>x\<close>.\<close>

fun shown :: "'cl env \<Rightarrow> nat \<Rightarrow> ObjectKey \<Rightarrow> k8s_object \<Rightarrow> bool" where
  "shown E n k (OInstance x) = (\<forall>y. Get_Instance (k8s E) n k = Inr y \<longrightarrow> Instance_Status y = Instance_Status x)"
| "shown E n k (OTeam x) = (\<forall>y. Get_Team (k8s E) n k = Inr y \<longrightarrow> Team_Status y = Team_Status x)"
| "shown E n k (OPipeline x) = (\<forall>y. Get_Pipeline (k8s E) n k = Inr y \<longrightarrow> Pipeline_Status y = Pipeline_Status x)"
| "shown E n k (OJob x) = (\<forall>y. Get_Job (k8s E) n k = Inr y \<longrightarrow> Job_Status y = Job_Status x)"
| "shown E n k (OBuild x) = (\<forall>y. Get_Build (k8s E) n k = Inr y \<longrightarrow> Build_Status y = Build_Status x)"
| "shown E n k (OResource x) = (\<forall>y. Get_Resource (k8s E) n k = Inr y \<longrightarrow> Resource_Status y = Resource_Status x)"
| "shown E n k (OWorker x) = (\<forall>y. Get_Worker (k8s E) n k = Inr y \<longrightarrow> Worker_Status y = Worker_Status x)"

text \<open>Statuses sent are kept, and reads are not stale: a read shows the status that stands.\<close>

definition fresh :: "'cl env \<Rightarrow> 'cl call list \<Rightarrow> bool" where
  "fresh E tr \<longleftrightarrow> (\<forall>n x k key. n < length tr \<and> tr ! n = KGet k key \<and> standing (k, key) (take n tr) = Some x \<longrightarrow>
     shown E n key x)"

lemma fresh_append: "fresh E (tr @ cs) \<Longrightarrow> fresh E tr"
  unfolding fresh_def by (auto simp: nth_append)

lemma fresh_read:
  "fresh E (tr @ KGet k key # cs) \<Longrightarrow> standing (k, key) tr = Some x \<Longrightarrow> shown E (length tr) key x"
  unfolding fresh_def by (elim allE [of _ "length tr"]) simp

subsection \<open>Handlers that end by reporting Ready\<close>

text \<open>What a part of a handler can return when it starts after the first \<open>N\<close> interactions.\<close>

definition late :: "nat \<Rightarrow> ('cl, 'a) op \<Rightarrow> 'a set" where
  "late N m = {a. \<exists>s t. N \<le> length (trace s) \<and> run_state m s = (a, t)}"

lemma late_set_state: "a \<in> late N m \<Longrightarrow> a \<in> set_state m"
  by (auto simp: late_def set_state_iff)

lemma late_ask: "a \<in> late N (ask c f) \<Longrightarrow> \<exists>n \<ge> N. a = f n"
  by (auto simp: late_def run_simps)

definition ended :: "'cl env \<Rightarrow> object_kind \<times> ObjectKey \<Rightarrow> 'cl op_state \<Rightarrow> 'cl op_state \<Rightarrow> bool" where
  "ended E oid s t \<longleftrightarrow>
     (\<exists>cs x. trace t = trace s @ cs @ [KStatusUpdate x] \<and> object_id x = oid \<and> object_ready E x)"

definition ends_ready :: "'cl env \<Rightarrow> nat \<Rightarrow> object_kind \<times> ObjectKey \<Rightarrow> ('cl, 'a) op \<Rightarrow> bool" where
  "ends_ready E N oid m \<longleftrightarrow> (\<forall>s. N \<le> length (trace s) \<longrightarrow> ended E oid s (snd (run_state m s)))"

lemma ended_up: "ended E oid s t \<Longrightarrow> up E oid t"
  unfolding ended_def up_def by (metis append_assoc standing_simps(2))

lemma ended_later: "ended E oid s t \<Longrightarrow> trace s = trace r @ cs \<Longrightarrow> ended E oid r t"
  unfolding ended_def by (metis append_assoc)

lemma ends_ready_at:
  assumes "appends m" and "run_state m s = (a, u)" and "ends_ready E N oid (f a)" and "N \<le> length (trace s)"
  shows "ended E oid s (snd (run_state (State_Monad.bind m f) s))"
proof -
  obtain pre where u: "trace u = trace s @ pre" using emits_run [OF assms(1,2)] by (auto simp: emits_def)
  with assms(3,4) have "ended E oid u (snd (run_state (f a) u))" by (simp add: ends_ready_def)
  from ended_later [OF this u] assms(2) show ?thesis by simp
qed

lemma ends_ready_bind:
  assumes "appends m" and "\<And>a. a \<in> late N m \<Longrightarrow> ends_ready E N oid (f a)"
  shows "ends_ready E N oid (State_Monad.bind m f)"
  unfolding ends_ready_def
proof (intro allI impI)
  fix s :: "'a op_state" assume N: "N \<le> length (trace s)"
  obtain a u where run: "run_state m s = (a, u)" by (meson prod.exhaust)
  with N have "a \<in> late N m" by (auto simp: late_def)
  from ends_ready_at [where f = f, OF assms(1) run assms(2) [OF this] N] show "ended E oid s (snd (run_state (State_Monad.bind m f) s))" .
qed

lemma ends_ready_read:
  assumes "\<And>n. N \<le> n \<Longrightarrow> \<exists>y. get n = Inr y \<and> Q y" and "\<And>y. Q y \<Longrightarrow> ends_ready E N oid (g y)"
  shows "ends_ready E N oid (State_Monad.bind (ask (KGet k key) get) (\<lambda>r. case r of Inl e \<Rightarrow> f e | Inr y \<Rightarrow> g y))"
proof (rule ends_ready_bind [OF emits_ask])
  fix r assume "r \<in> late N (ask (KGet k key) get)"
  then obtain n where "N \<le> n" "r = get n" by (auto dest: late_ask)
  with assms show "ends_ready E N oid (case r of Inl e \<Rightarrow> f e | Inr y \<Rightarrow> g y)" by fastforce
qed simp

lemma ends_ready_last:
  assumes "object_id x = oid" and "object_ready E x" and "\<And>a. state_io_rel (keeps trace) (f a)"
  shows "ends_ready E N oid (State_Monad.bind (ask (KStatusUpdate x) g) f)"
  unfolding ends_ready_def ended_def
proof (intro allI impI exI conjI)
  fix s :: "'a op_state"
  let ?a = "g (length (trace s))" and ?u = "s\<lparr>trace := trace s @ [KStatusUpdate x]\<rparr>"
  have "trace (snd (run_state (f ?a) ?u)) = trace ?u"
    using kp.effect_run [OF assms(3)] by (metis keeps_def prod.collapse)
  then show "trace (snd (run_state (State_Monad.bind (ask (KStatusUpdate x) g) f) s)) = trace s @ [] @ [KStatusUpdate x]"
    by (simp add: run_simps)
qed (simp_all add: assms(1,2))

lemma ends_ready_branches:
  "(b \<Longrightarrow> ends_ready E N oid m) \<Longrightarrow> (\<not> b \<Longrightarrow> ends_ready E N oid n) \<Longrightarrow> ends_ready E N oid (if b then m else n)"
  "(\<And>e. x = Inl e \<Longrightarrow> ends_ready E N oid (f e)) \<Longrightarrow> (\<And>a. x = Inr a \<Longrightarrow> ends_ready E N oid (g a)) \<Longrightarrow>
     ends_ready E N oid (case x of Inl e \<Rightarrow> f e | Inr a \<Rightarrow> g a)"
  "(\<And>u v. z = (u, v) \<Longrightarrow> ends_ready E N oid (q u v)) \<Longrightarrow> ends_ready E N oid (case z of (u, v) \<Rightarrow> q u v)"
  "(\<And>y. y = w \<Longrightarrow> ends_ready E N oid (h y)) \<Longrightarrow> ends_ready E N oid (let y = w in h y)"
  by (cases x; cases z; simp)+

lemma ready_setCondition:
  assumes "condition_laws (lib E)" and "cs' \<in> late N (setCondition E cs ConditionReady ConditionTrue r m)"
  shows "isReady E cs'"
  using assms(1) set_state_setCondition [OF late_set_state [OF assms(2)]] by (auto simp: laws)

lemma ends_Instance_status:
  assumes "condition_laws (lib E)"
  shows "ends_ready E N (KInstance, key_of (Instance_ObjectMeta i)) (Instance_status E i info ws)"
  unfolding Instance_status_def
  by (intro ends_ready_bind ends_ready_branches ends_ready_last kp.effect_rules appends_rules)
     (auto dest: ready_setCondition [OF assms] simp: Let_def)

lemma ends_Team_applied:
  assumes "condition_laws (lib E)"
  shows "ends_ready E N (KTeam, key_of (Team_ObjectMeta t)) (Team_applied E t res ws)"
  unfolding Team_applied_def
  by (intro ends_ready_bind ends_ready_branches ends_ready_last kp.effect_rules appends_rules)
     (auto dest: ready_setCondition [OF assms] simp: Let_def)

lemma ends_Pipeline_sync:
  assumes "condition_laws (lib E)"
    and accepted: "\<And>n r v c b. n \<ge> N \<Longrightarrow> \<exists>x. Team_CreateOrUpdatePipelineConfig (atc E) n cl tn r v c b = Inr x"
  shows "ends_ready E N (KPipeline, key_of (Pipeline_ObjectMeta p)) (Pipeline_sync E cl tn pn y p)"
proof -
  have stages: "appends (syncPause E cl tn ref b st)" "appends (syncExpose E cl tn ref b st)"
      "appends (fetchMetadata E cl tn ref st)" for ref b st
    unfolding syncPause_def syncExpose_def fetchMetadata_def by (intro appends_rules; simp)+
  have uploaded: "Inl err \<notin> late N (applyConfig E cl tn pn y st)" for err st
  proof
    assume "Inl err \<in> late N (applyConfig E cl tn pn y st)"
    then obtain s u where N: "N \<le> length (trace s)" and run: "run_state (applyConfig E cl tn pn y st) s = (Inl err, u)"
      by (auto simp: late_def)
    with accepted [OF N, of "\<lparr>PipelineRef_Name = pn\<rparr>" "''''" y False] show False
      by (auto simp: applyConfig_def run_simps Let_def split: if_splits list.splits)
  qed
  show ?thesis
    unfolding Pipeline_sync_def
    by (intro ends_ready_bind ends_ready_branches ends_ready_last kp.effect_rules appends_rules stages appends_applyConfig)
       (auto dest: ready_setCondition [OF assms(1)] simp: Let_def uploaded)
qed

lemma ends_Job_track:
  assumes "condition_laws (lib E)"
  shows "ends_ready E N (KJob, key_of (Job_ObjectMeta j)) (Job_track E cl tn pn j)"
proof -
  have last: "appends (reportLastBuild E r st)" for r st
    unfolding reportLastBuild_def by (intro appends_rules; simp)
  have keeps: "isReady E (JobStatus_Conditions st')"
    if "st' \<in> late N (reportLastBuild E r st)" "isReady E (JobStatus_Conditions st)" for st' r st
  proof -
    have "returns (\<lambda>st'. isReady E (JobStatus_Conditions st')) (reportLastBuild E r st)"
      unfolding reportLastBuild_def using that(2) assms
      by (intro returns_rules) (auto dest!: set_state_setCondition simp: laws split: if_splits)
    from returns_set_state [OF this late_set_state [OF that(1)]] show ?thesis .
  qed
  show ?thesis
    unfolding Job_track_def
    by (intro ends_ready_bind ends_ready_branches ends_ready_last kp.effect_rules appends_rules appends_stages last)
       (auto dest!: ready_setCondition [OF assms] keeps simp: Let_def)
qed

end
