(* ===== verification/Convergence.thy ===== *)
theory Convergence
  imports Reporting
begin

section \<open>The chain comes up\<close>

text \<open>
  The operator's purpose, end to end: when the objects of a chain (an instance, a team of it, a pipeline of the
  team, a job of the pipeline) exist and Concourse accepts what is asked of it, the statuses become Ready one
  after the other and stay so, whatever happened before and whatever other objects are reconciled in between.
  The locale \<open>link\<close> is the step from one object to the next: given what it rests on, a reconciliation of its
  object reports Ready, and a status once Ready stays. The links of the chain are its interpretations.
\<close>

subsection \<open>The chain\<close>

text \<open>
  Four objects \<open>i\<close>, \<open>t\<close>, \<open>p\<close>, \<open>j\<close> as declared, of which only names and specs matter. From the \<open>N\<close>-th
  interaction on, reads of their keys find them, alive, with their finalizers and with these specs; each refers
  to the one above it; and Concourse and the Secrets are in order: a client for the instance can be built, its
  info is answered, teams and configurations are accepted, and the pipeline's configuration can be loaded.
\<close>

definition live :: "'cl env \<Rightarrow> ObjectMeta \<Rightarrow> string \<Rightarrow> bool" where
  "live E m f \<longleftrightarrow> IsZero (lib E) (DeletionTimestamp m) \<and> ContainsFinalizer (lib E) m f"

definition declared :: "'cl env \<Rightarrow> nat \<Rightarrow> Instance \<Rightarrow> Team \<Rightarrow> Pipeline \<Rightarrow> Job \<Rightarrow> bool" where
  "declared E N i t p j \<longleftrightarrow>
     (\<forall>n \<ge> N. \<exists>y. Get_Instance (k8s E) n (key_of (Instance_ObjectMeta i)) = Inr y \<and>
        Instance_Spec y = Instance_Spec i \<and> live E (Instance_ObjectMeta y) instanceFinalizer) \<and>
     (\<forall>n \<ge> N. \<exists>y. Get_Team (k8s E) n (key_of (Team_ObjectMeta t)) = Inr y \<and>
        Team_Spec y = Team_Spec t \<and> live E (Team_ObjectMeta y) teamFinalizer) \<and>
     (\<forall>n \<ge> N. \<exists>y. Get_Pipeline (k8s E) n (key_of (Pipeline_ObjectMeta p)) = Inr y \<and>
        Pipeline_Spec y = Pipeline_Spec p \<and> live E (Pipeline_ObjectMeta y) pipelineFinalizer) \<and>
     (\<forall>n \<ge> N. \<exists>y. Get_Job (k8s E) n (key_of (Job_ObjectMeta j)) = Inr y \<and>
        Job_Spec y = Job_Spec j \<and> IsZero (lib E) (DeletionTimestamp (Job_ObjectMeta y)))"

definition linked :: "Instance \<Rightarrow> Team \<Rightarrow> Pipeline \<Rightarrow> Job \<Rightarrow> bool" where
  "linked i t p j \<longleftrightarrow>
     key_of (Instance_ObjectMeta i) = \<lparr>key_Namespace = Namespace (Team_ObjectMeta t),
       key_Name = LocalObjectReference_Name (TeamSpec_InstanceRef (Team_Spec t))\<rparr> \<and>
     key_of (Team_ObjectMeta t) = \<lparr>key_Namespace = Namespace (Pipeline_ObjectMeta p),
       key_Name = LocalObjectReference_Name (PipelineSpec_TeamRef (Pipeline_Spec p))\<rparr> \<and>
     key_of (Pipeline_ObjectMeta p) = \<lparr>key_Namespace = Namespace (Job_ObjectMeta j),
       key_Name = LocalObjectReference_Name (JobSpec_PipelineRef (Job_Spec j))\<rparr>"

definition cooperative :: "'cl env \<Rightarrow> nat \<Rightarrow> Instance \<Rightarrow> Pipeline \<Rightarrow> bool" where
  "cooperative E N i p \<longleftrightarrow>
     (\<forall>s. N \<le> length (trace s) \<longrightarrow>
        (\<exists>h u. run_state (BuildHTTPClient E (Namespace (Instance_ObjectMeta i)) (Instance_Spec i)) s = (Inr h, u))) \<and>
     (\<forall>s. N \<le> length (trace s) \<longrightarrow> (\<exists>y u. run_state (loadPipelineConfig E p) s = (Inr y, u))) \<and>
     (\<forall>n \<ge> N. \<forall>cl. \<exists>x. Client_GetInfo (atc E) n cl = Inr x) \<and>
     (\<forall>n \<ge> N. \<forall>cl nm a. \<exists>x. Team_CreateOrUpdate (atc E) n cl nm a = Inr x) \<and>
     (\<forall>n \<ge> N. \<forall>cl nm r v c b. \<exists>x. Team_CreateOrUpdatePipelineConfig (atc E) n cl nm r v c b = Inr x)"

definition chain :: "'cl env \<Rightarrow> nat \<Rightarrow> Instance \<Rightarrow> Team \<Rightarrow> Pipeline \<Rightarrow> Job \<Rightarrow> bool" where
  "chain E N i t p j \<longleftrightarrow> condition_laws (lib E) \<and> keyed E \<and> declared E N i t p j \<and> linked i t p j \<and> cooperative E N i p"

lemma chain_parts:
  assumes "chain E N i t p j"
  shows "condition_laws (lib E)" and "keyed E"
  using assms by (simp_all add: chain_def)

text \<open>An object that is read under a key, with the declared spec, has all the declaration says.\<close>

lemma chain_reads:
  assumes "chain E N i t p j" and "N \<le> n"
  obtains
    (found) i' t' p' j' where
      "Get_Instance (k8s E) n (key_of (Instance_ObjectMeta i)) = Inr i'" "Instance_Spec i' = Instance_Spec i"
      "key_of (Instance_ObjectMeta i') = key_of (Instance_ObjectMeta i)" "live E (Instance_ObjectMeta i') instanceFinalizer"
      "Get_Team (k8s E) n (key_of (Team_ObjectMeta t)) = Inr t'" "Team_Spec t' = Team_Spec t"
      "key_of (Team_ObjectMeta t') = key_of (Team_ObjectMeta t)" "live E (Team_ObjectMeta t') teamFinalizer"
      "Get_Pipeline (k8s E) n (key_of (Pipeline_ObjectMeta p)) = Inr p'" "Pipeline_Spec p' = Pipeline_Spec p"
      "key_of (Pipeline_ObjectMeta p') = key_of (Pipeline_ObjectMeta p)" "live E (Pipeline_ObjectMeta p') pipelineFinalizer"
      "Get_Job (k8s E) n (key_of (Job_ObjectMeta j)) = Inr j'" "Job_Spec j' = Job_Spec j"
      "key_of (Job_ObjectMeta j') = key_of (Job_ObjectMeta j)" "IsZero (lib E) (DeletionTimestamp (Job_ObjectMeta j'))"
proof -
  from assms have keyed: "keyed E" and d: "declared E N i t p j" by (simp_all add: chain_def)
  from d assms(2) obtain i' t' p' j' where
    "Get_Instance (k8s E) n (key_of (Instance_ObjectMeta i)) = Inr i'" "Instance_Spec i' = Instance_Spec i"
    "live E (Instance_ObjectMeta i') instanceFinalizer"
    "Get_Team (k8s E) n (key_of (Team_ObjectMeta t)) = Inr t'" "Team_Spec t' = Team_Spec t"
    "live E (Team_ObjectMeta t') teamFinalizer"
    "Get_Pipeline (k8s E) n (key_of (Pipeline_ObjectMeta p)) = Inr p'" "Pipeline_Spec p' = Pipeline_Spec p"
    "live E (Pipeline_ObjectMeta p') pipelineFinalizer"
    "Get_Job (k8s E) n (key_of (Job_ObjectMeta j)) = Inr j'" "Job_Spec j' = Job_Spec j"
    "IsZero (lib E) (DeletionTimestamp (Job_ObjectMeta j'))"
    unfolding declared_def by blast
  with keyed_get [OF keyed] show ?thesis by (intro found) simp_all
qed

lemma built_late:
  assumes "chain E N i t p j" and "Instance_Spec i' = Instance_Spec i"
    and "key_of (Instance_ObjectMeta i') = key_of (Instance_ObjectMeta i)" and "N \<le> length (trace s)"
  obtains cl u where "run_state (GetOrBuild E i') s = (Inr cl, u)"
proof (cases rule: GetOrBuild_cases [of s i' E])
  case (hit cl)
  then show ?thesis by (intro that)
next
  case (failed e u)
  with assms show ?thesis by (auto simp: chain_def cooperative_def key_of_def)
next
  case (built h u cl)
  then show ?thesis by (intro that)
qed

lemma late_GetOrBuild:
  assumes chain: "chain E N i t p j" and "Instance_Spec i' = Instance_Spec i"
    and "key_of (Instance_ObjectMeta i') = key_of (Instance_ObjectMeta i)"
  shows "Inl e \<notin> late N (GetOrBuild E i')"
proof
  assume "Inl e \<in> late N (GetOrBuild E i')"
  then obtain s u where "N \<le> length (trace s)" and run: "run_state (GetOrBuild E i') s = (Inl e, u)"
    by (auto simp: late_def)
  from built_late [OF assms this(1)] obtain cl v where "run_state (GetOrBuild E i') s = (Inr cl, v)" .
  with run show False by simp
qed

lemma load_same:
  "Pipeline_Spec p' = Pipeline_Spec p \<Longrightarrow> key_of (Pipeline_ObjectMeta p') = key_of (Pipeline_ObjectMeta p) \<Longrightarrow>
   loadPipelineConfig E p' = loadPipelineConfig E p"
  by (simp add: loadPipelineConfig_def key_of_def Let_def cong: option.case_cong)

text \<open>The instance needs nobody.\<close>

lemma ends_Instance:
  assumes chain: "chain E N i t p j"
  shows "ends_ready E N (KInstance, key_of (Instance_ObjectMeta i)) (Instance_Reconcile E (key_of (Instance_ObjectMeta i)))"
proof -
  note cond = chain_parts(1) [OF chain]
  have info: "Inl e \<notin> late N (ask c (\<lambda>n. Client_GetInfo (atc E) n cl))" for e c cl
  proof
    assume "Inl e \<in> late N (ask c (\<lambda>n. Client_GetInfo (atc E) n cl))"
    then obtain n where "N \<le> n" "Client_GetInfo (atc E) n cl = Inl e" by (auto dest: late_ask)
    with chain show False unfolding chain_def cooperative_def by (metis Inl_Inr_False)
  qed
  have applied: "ends_ready E N (KInstance, key_of (Instance_ObjectMeta i)) (Instance_apply E i')"
    if "Instance_Spec i' = Instance_Spec i" "key_of (Instance_ObjectMeta i') = key_of (Instance_ObjectMeta i)" for i'
    unfolding Instance_apply_def
    by (intro ends_ready_bind ends_ready_branches ends_Instance_status [OF cond, of N i', unfolded that(2)] appends_rules)
       (simp_all add: late_GetOrBuild [OF chain that] info)
  show ?thesis
    unfolding Instance_Reconcile_def
  proof (rule ends_ready_read [where Q = "\<lambda>y. Instance_Spec y = Instance_Spec i \<and>
      key_of (Instance_ObjectMeta y) = key_of (Instance_ObjectMeta i) \<and> live E (Instance_ObjectMeta y) instanceFinalizer"])
    fix n assume "N \<le> n"
    with chain show "\<exists>y. Get_Instance (k8s E) n (key_of (Instance_ObjectMeta i)) = Inr y \<and> Instance_Spec y = Instance_Spec i \<and>
        key_of (Instance_ObjectMeta y) = key_of (Instance_ObjectMeta i) \<and> live E (Instance_ObjectMeta y) instanceFinalizer"
      by (rule chain_reads) blast
  qed (simp add: live_def applied)
qed

subsection \<open>Resolution along a chain that is up\<close>

lemma resolvers_read:
  "reads_first KInstance \<lparr>key_Namespace = Namespace (Team_ObjectMeta t),
     key_Name = LocalObjectReference_Name (TeamSpec_InstanceRef (Team_Spec t))\<rparr> (resolveInstanceForTeam E t)"
  "reads_first KTeam \<lparr>key_Namespace = Namespace (Pipeline_ObjectMeta p),
     key_Name = LocalObjectReference_Name (PipelineSpec_TeamRef (Pipeline_Spec p))\<rparr> (resolveClientForPipeline E p)"
  "reads_first KPipeline \<lparr>key_Namespace = Namespace (Job_ObjectMeta j),
     key_Name = LocalObjectReference_Name (JobSpec_PipelineRef (Job_Spec j))\<rparr> (resolveClientForJob E j)"
  subgoal unfolding resolveInstanceForTeam_def Let_def by (intro reads_firstI appends_rules)
  subgoal unfolding resolveClientForPipeline_def Let_def by (intro reads_firstI appends_rules)
  subgoal unfolding resolveClientForJob_def Let_def by (intro reads_firstI appends_rules)
  done

lemma fresh_reads_first:
  assumes "reads_first k key m" and "fresh E (trace (snd (run_state m u)))" and "up E (k, key) u"
  obtains x where "object_id x = (k, key)" "object_ready E x" "shown E (length (trace u)) key x"
proof -
  from assms(3) obtain x where x: "standing (k, key) (trace u) = Some x" "object_ready E x" unfolding up_def by blast
  from assms(1) obtain cs where "trace (snd (run_state m u)) = trace u @ KGet k key # cs" unfolding reads_first_def by blast
  with assms(2) x have "shown E (length (trace u)) key x" by (auto intro: fresh_read)
  with x show ?thesis by (intro that standing_id)
qed

text \<open>A read of an object that is up shows it Ready.\<close>

lemma read_up:
  assumes "fresh E (trace (snd (run_state m u)))"
  shows "reads_first KInstance key m \<Longrightarrow> up E (KInstance, key) u \<Longrightarrow>
      Get_Instance (k8s E) (length (trace u)) key = Inr i \<Longrightarrow> isReady E (InstanceStatus_Conditions (Instance_Status i))"
    and "reads_first KTeam key m \<Longrightarrow> up E (KTeam, key) u \<Longrightarrow>
      Get_Team (k8s E) (length (trace u)) key = Inr t \<Longrightarrow> isReady E (TeamStatus_Conditions (Team_Status t))"
    and "reads_first KPipeline key m \<Longrightarrow> up E (KPipeline, key) u \<Longrightarrow>
      Get_Pipeline (k8s E) (length (trace u)) key = Inr p \<Longrightarrow> isReady E (PipelineStatus_Conditions (Pipeline_Status p))"
  by (erule (1) fresh_reads_first [OF _ assms], rename_tac x, case_tac x; simp)+

lemma up_trace: "up E oid (s\<lparr>trace := trace s @ [KGet k key]\<rparr>) = up E oid s"
  using standing_other [of "[KGet k key]" oid "trace s"] by (simp add: up_def)

text \<open>The declared objects the chain's reads find, as predicates.\<close>

abbreviation "is_team t t' \<equiv> Team_Spec t' = Team_Spec t \<and> key_of (Team_ObjectMeta t') = key_of (Team_ObjectMeta t)"
abbreviation "is_pipeline p p' \<equiv>
  Pipeline_Spec p' = Pipeline_Spec p \<and> key_of (Pipeline_ObjectMeta p') = key_of (Pipeline_ObjectMeta p)"
abbreviation "is_job j j' \<equiv> Job_Spec j' = Job_Spec j \<and> key_of (Job_ObjectMeta j') = key_of (Job_ObjectMeta j)"

lemma linked_keys:
  assumes "chain E N i t p j"
  shows "is_team t t' \<Longrightarrow> \<lparr>key_Namespace = Namespace (Team_ObjectMeta t'),
      key_Name = LocalObjectReference_Name (TeamSpec_InstanceRef (Team_Spec t'))\<rparr> = key_of (Instance_ObjectMeta i)"
    and "is_pipeline p p' \<Longrightarrow> \<lparr>key_Namespace = Namespace (Pipeline_ObjectMeta p'),
      key_Name = LocalObjectReference_Name (PipelineSpec_TeamRef (Pipeline_Spec p'))\<rparr> = key_of (Team_ObjectMeta t)"
    and "is_job j j' \<Longrightarrow> \<lparr>key_Namespace = Namespace (Job_ObjectMeta j'),
      key_Name = LocalObjectReference_Name (JobSpec_PipelineRef (Job_Spec j'))\<rparr> = key_of (Pipeline_ObjectMeta p)"
  using assms by (auto simp: chain_def linked_def key_of_def)

lemma resolveInstance_up:
  assumes chain: "chain E N i t p j" and N: "N \<le> length (trace u)" and t': "is_team t t'"
    and up: "up E (KInstance, key_of (Instance_ObjectMeta i)) u"
    and fresh: "fresh E (trace (snd (run_state (resolveInstanceForTeam E t') u)))"
  obtains cl v where "run_state (resolveInstanceForTeam E t') u = (Inr cl, v)"
proof -
  let ?key = "key_of (Instance_ObjectMeta i)"
  let ?u = "u\<lparr>trace := trace u @ [KGet KInstance ?key]\<rparr>"
  note key = linked_keys(1) [OF chain t']
  from chain N obtain i' where i': "Get_Instance (k8s E) (length (trace u)) ?key = Inr i'"
    "Instance_Spec i' = Instance_Spec i" "key_of (Instance_ObjectMeta i') = ?key" by (rule chain_reads) blast
  have ready: "isReady E (InstanceStatus_Conditions (Instance_Status i'))"
    using read_up(1) [OF fresh _ up i'(1)] resolvers_read(1) [of t' E] by (simp only: key)
  from N have "N \<le> length (trace ?u)" by simp
  from built_late [OF chain i'(2,3) this] obtain cl v where "run_state (GetOrBuild E i') ?u = (Inr cl, v)" .
  with i'(1) ready show ?thesis
    by (intro that [of cl v]) (simp add: resolveInstanceForTeam_def Let_def key run_simps isReady_def)
qed

lemma resolvePipeline_up:
  assumes chain: "chain E N i t p j" and N: "N \<le> length (trace u)" and p': "is_pipeline p p'"
    and up: "up E (KInstance, key_of (Instance_ObjectMeta i)) u" "up E (KTeam, key_of (Team_ObjectMeta t)) u"
    and fresh: "fresh E (trace (snd (run_state (resolveClientForPipeline E p') u)))"
  obtains cl tn v where "run_state (resolveClientForPipeline E p') u = (Inr (cl, tn), v)"
proof -
  let ?key = "key_of (Team_ObjectMeta t)"
  let ?u = "u\<lparr>trace := trace u @ [KGet KTeam ?key]\<rparr>"
  note key = linked_keys(2) [OF chain p']
  from chain N obtain t' where t': "Get_Team (k8s E) (length (trace u)) ?key = Inr t'" "is_team t t'"
    by (rule chain_reads) blast
  have ready: "isReady E (TeamStatus_Conditions (Team_Status t'))"
    using read_up(2) [OF fresh _ up(2) t'(1)] resolvers_read(2) [of p' E] by (simp only: key)
  define rest :: "'a go_result \<Rightarrow> ('a, ('a \<times> string) go_result) op" where
    "rest = (\<lambda>c. case c of Inl err \<Rightarrow> State_Monad.return (Inl err)
      | Inr cl \<Rightarrow> State_Monad.return (Inr (cl, if TeamSpec_TeamName (Team_Spec t') = '''' then Name (Team_ObjectMeta t')
          else TeamSpec_TeamName (Team_Spec t'))))"
  have run: "run_state (resolveClientForPipeline E p') u = run_state (State_Monad.bind (resolveInstanceForTeam E t') rest) ?u"
    using t'(1) ready by (simp add: resolveClientForPipeline_def Let_def key run_simps isReady_def rest_def)
  have "trace (snd (run_state (State_Monad.bind m rest) w)) = trace (snd (run_state m w))" for m w
    by (simp add: rest_def split: prod.split sum.split)
  with fresh have "fresh E (trace (snd (run_state (resolveInstanceForTeam E t') ?u)))" by (simp add: run)
  from resolveInstance_up [OF chain _ t'(2) _ this] N up(1) obtain cl v where
    "run_state (resolveInstanceForTeam E t') ?u = (Inr cl, v)" by (auto simp: up_trace)
  with run show ?thesis by (intro that) (simp add: rest_def)
qed

lemma resolveJob_up:
  assumes chain: "chain E N i t p j" and N: "N \<le> length (trace u)" and j': "is_job j j'"
    and up: "up E (KInstance, key_of (Instance_ObjectMeta i)) u" "up E (KTeam, key_of (Team_ObjectMeta t)) u"
      "up E (KPipeline, key_of (Pipeline_ObjectMeta p)) u"
    and fresh: "fresh E (trace (snd (run_state (resolveClientForJob E j') u)))"
  obtains cl tn pn v where "run_state (resolveClientForJob E j') u = (Inr (cl, tn, pn), v)"
proof -
  let ?key = "key_of (Pipeline_ObjectMeta p)"
  let ?u = "u\<lparr>trace := trace u @ [KGet KPipeline ?key]\<rparr>"
  note key = linked_keys(3) [OF chain j']
  from chain N obtain p' where p': "Get_Pipeline (k8s E) (length (trace u)) ?key = Inr p'" "is_pipeline p p'"
    by (rule chain_reads) blast
  have ready: "isReady E (PipelineStatus_Conditions (Pipeline_Status p'))"
    using read_up(3) [OF fresh _ up(3) p'(1)] resolvers_read(3) [of j' E] by (simp only: key)
  define rest :: "('a \<times> string) go_result \<Rightarrow> ('a, ('a \<times> string \<times> string) go_result) op" where
    "rest = (\<lambda>c. case c of Inl err \<Rightarrow> State_Monad.return (Inl err)
      | Inr (cl, teamName) \<Rightarrow> State_Monad.return (Inr (cl, teamName,
          if PipelineSpec_PipelineName (Pipeline_Spec p') = '''' then Name (Pipeline_ObjectMeta p')
          else PipelineSpec_PipelineName (Pipeline_Spec p'))))"
  have run: "run_state (resolveClientForJob E j') u = run_state (State_Monad.bind (resolveClientForPipeline E p') rest) ?u"
    using p'(1) ready by (simp add: resolveClientForJob_def Let_def key run_simps isReady_def rest_def)
  have "trace (snd (run_state (State_Monad.bind m rest) w)) = trace (snd (run_state m w))" for m w
    by (simp add: rest_def split: prod.split sum.split)
  with fresh have "fresh E (trace (snd (run_state (resolveClientForPipeline E p') ?u)))" by (simp add: run)
  from resolvePipeline_up [OF chain _ p'(2) _ _ this] N up(1,2) obtain cl tn v where
    "run_state (resolveClientForPipeline E p') ?u = (Inr (cl, tn), v)" by (auto simp: up_trace)
  with run show ?thesis by (intro that) (simp add: rest_def)
qed

subsection \<open>One reconciliation of each\<close>

text \<open>A handler that resolves and goes on ends well if it does after the resolution that freshness gives.\<close>

lemma resolved_ends:
  assumes fresh: "fresh E (trace (snd (run_state (State_Monad.bind m rest) u)))"
    and "appends m" and "\<And>a. appends (rest a)" and "N \<le> length (trace u)"
    and resolves: "fresh E (trace (snd (run_state m u))) \<Longrightarrow> \<exists>a v. run_state m u = (a, v) \<and> ends_ready E N oid (rest a)"
  shows "ended E oid u (snd (run_state (State_Monad.bind m rest) u))"
proof -
  obtain a v where run: "run_state m u = (a, v)" by (meson prod.exhaust)
  from run_appends [OF assms(3), of a v] obtain cs where "trace (snd (run_state (rest a) v)) = trace v @ cs" by blast
  with fresh run have "fresh E (trace (snd (run_state m u)))" by (auto intro: fresh_append)
  from resolves [OF this] run have "ends_ready E N oid (rest a)" by auto
  from ends_ready_at [where f = rest, OF assms(2) run this assms(4)] show ?thesis .
qed

lemma handler_ends:
  assumes u_def: "u = s\<lparr>trace := trace s @ cs\<rparr>"
    and run: "run_state (dispatch E c r) s = run_state (State_Monad.bind m rest) u"
    and "appends m" and "\<And>a. appends (rest a)" and N: "N \<le> length (trace s)"
    and fresh: "fresh E (trace (after E c r s))"
    and resolves: "fresh E (trace (snd (run_state m u))) \<Longrightarrow> \<exists>a v. run_state m u = (a, v) \<and> ends_ready E N oid (rest a)"
  shows "ended E oid s (after E c r s)"
proof -
  from fresh run have "fresh E (trace (snd (run_state (State_Monad.bind m rest) u)))" by (simp add: after_def)
  from resolved_ends [where N = N, OF this assms(3,4) _ resolves] N
  have "ended E oid u (snd (run_state (State_Monad.bind m rest) u))" by (simp add: u_def)
  from ended_later [OF this, of s cs] run show ?thesis by (simp add: after_def u_def)
qed

text \<open>Each handler is a resolution and what follows it, which ends well once a client was found.\<close>

lemma Team_apply_split:
  assumes chain: "chain E N i t p j" and t': "is_team t t'"
  obtains rest where "Team_apply E t' = State_Monad.bind (resolveInstanceForTeam E t') rest" "\<And>a. appends (rest a)"
    "\<And>cl. ends_ready E N (KTeam, key_of (Team_ObjectMeta t)) (rest (Inr cl))"
proof (rule that [OF Team_apply_def], goal_cases)
  case 1
  have "appends (Team_not_ready E t' r e)" "appends (Team_applied E t' res ws)" for r e res ws
    unfolding Team_not_ready_def Team_applied_def by (intro appends_rules; simp)+
  then show ?case by (intro appends_rules; simp)
next
  case 2
  have accepted: "Inl e \<notin> late N (ask c (\<lambda>n. Team_CreateOrUpdate (atc E) n cl nm a))" for e c cl nm a
  proof
    assume "Inl e \<in> late N (ask c (\<lambda>n. Team_CreateOrUpdate (atc E) n cl nm a))"
    then obtain n where "N \<le> n" "Team_CreateOrUpdate (atc E) n cl nm a = Inl e" by (auto dest: late_ask)
    with chain show False unfolding chain_def cooperative_def by (metis Inl_Inr_False)
  qed
  note ends = ends_Team_applied [OF chain_parts(1) [OF chain], of N t']
  show ?case
    unfolding sum.case
    by (intro ends_ready_bind ends_ready_branches emits_ask) (use ends t' in \<open>auto simp: accepted\<close>)
qed

lemma Pipeline_apply_split:
  assumes chain: "chain E N i t p j" and p': "is_pipeline p p'"
  obtains rest where "Pipeline_apply E p' = State_Monad.bind (resolveClientForPipeline E p') rest" "\<And>a. appends (rest a)"
    "\<And>cl tn. ends_ready E N (KPipeline, key_of (Pipeline_ObjectMeta p)) (rest (Inr (cl, tn)))"
proof (rule that [OF Pipeline_apply_def], goal_cases)
  case 1
  have "appends (Pipeline_not_ready E p' r e)" "appends (loadPipelineConfig E p')" "appends (Pipeline_sync E cl tn pn y p')"
    for r e cl tn pn y
    unfolding Pipeline_not_ready_def loadPipelineConfig_def Pipeline_sync_def applyConfig_def Pipeline_upload_failed_def
      syncPause_def syncExpose_def fetchMetadata_def by (intro appends_rules; simp)+
  then show ?case by (intro appends_rules; simp)
next
  case 2
  have loads: "appends (loadPipelineConfig E p')"
    unfolding loadPipelineConfig_def by (intro appends_rules; simp)
  have loaded: "Inl e \<notin> late N (loadPipelineConfig E p')" for e
  proof
    assume "Inl e \<in> late N (loadPipelineConfig E p')"
    then obtain s u where "N \<le> length (trace s)" "run_state (loadPipelineConfig E p) s = (Inl e, u)"
      using p' by (auto simp: late_def load_same [of p' p E])
    moreover from chain this(1) obtain y v where "run_state (loadPipelineConfig E p) s = (Inr y, v)"
      unfolding chain_def cooperative_def by blast
    ultimately show False by simp
  qed
  have "ends_ready E N (KPipeline, key_of (Pipeline_ObjectMeta p')) (Pipeline_sync E cl tn pn y p')" for cl tn pn y
    by (rule ends_Pipeline_sync [OF chain_parts(1) [OF chain]])
       (use chain in \<open>unfold chain_def cooperative_def, blast\<close>)
  with p' show ?case
    unfolding sum.case prod.case Let_def
    by (intro ends_ready_bind ends_ready_branches loads) (auto simp: loaded)
qed

lemma Job_Reconcile_split:
  assumes chain: "chain E N i t p j" and j': "is_job j j'"
    and get: "Get_Job (k8s E) (length (trace s)) req = Inr j'" "IsZero (lib E) (DeletionTimestamp (Job_ObjectMeta j'))"
  obtains rest where "run_state (Job_Reconcile E req) s =
      run_state (State_Monad.bind (resolveClientForJob E j') rest) (s\<lparr>trace := trace s @ [KGet KJob req]\<rparr>)"
    "\<And>a. appends (rest a)"
    "\<And>cl tn pn. ends_ready E N (KJob, key_of (Job_ObjectMeta j)) (rest (Inr (cl, tn, pn)))"
proof (rule that [of "\<lambda>c. case c of
      Inl err \<Rightarrow> do {
        cs \<leftarrow> setCondition E (JobStatus_Conditions (Job_Status j')) ConditionReady ConditionFalse ''PipelineNotReady'' (Error err);
        let job = j'\<lparr>Job_Status := (Job_Status j')\<lparr>JobStatus_Conditions := cs\<rparr>\<rparr>;
        _ \<leftarrow> ask (KStatusUpdate (OJob job)) (\<lambda>n. Status_Job (k8s E) n job);
        State_Monad.return (Requeue (30 * Second))
      }
    | Inr (cl, tn, pn) \<Rightarrow> Job_track E cl tn pn j'"], goal_cases)
  case 1
  show ?case using get by (simp add: Job_Reconcile_def run_simps)
next
  case (2 a)
  have "appends (Job_track E cl tn pn j')" for cl tn pn
    unfolding Job_track_def syncJobPause_def triggerBuild_def reportLastBuild_def by (intro appends_rules; simp)
  then show ?case by (intro appends_rules; simp)
next
  case (3 cl tn pn)
  show ?case using ends_Job_track [OF chain_parts(1) [OF chain], of N j' cl tn pn] j' by simp
qed

lemmas appends_resolvers = emits_resolvers [THEN appends_emits]

lemma Team_link:
  assumes chain: "chain E N i t p j" and N: "N \<le> length (trace s)"
    and up: "up E (KInstance, key_of (Instance_ObjectMeta i)) s"
    and fresh: "fresh E (trace (after E Ctl_Team (key_of (Team_ObjectMeta t)) s))"
  shows "ended E (KTeam, key_of (Team_ObjectMeta t)) s (after E Ctl_Team (key_of (Team_ObjectMeta t)) s)"
proof -
  let ?u = "s\<lparr>trace := trace s @ [KGet KTeam (key_of (Team_ObjectMeta t))]\<rparr>"
  from chain N obtain t' where t': "Get_Team (k8s E) (length (trace s)) (key_of (Team_ObjectMeta t)) = Inr t'" "is_team t t'"
    "live E (Team_ObjectMeta t') teamFinalizer" by (rule chain_reads) blast
  from chain t'(2) obtain rest where rest: "Team_apply E t' = State_Monad.bind (resolveInstanceForTeam E t') rest"
    "\<And>a. appends (rest a)" "\<And>cl. ends_ready E N (KTeam, key_of (Team_ObjectMeta t)) (rest (Inr cl))"
    by (rule Team_apply_split) blast
  show ?thesis
  proof (rule handler_ends [OF refl _ appends_resolvers(1) rest(2) N fresh])
    show "run_state (dispatch E Ctl_Team (key_of (Team_ObjectMeta t))) s =
        run_state (State_Monad.bind (resolveInstanceForTeam E t') rest) ?u"
      using t'(3) run_Team_Reconcile_live [OF t'(1)] by (simp add: live_def rest(1))
    assume "fresh E (trace (snd (run_state (resolveInstanceForTeam E t') ?u)))"
    from resolveInstance_up [OF chain _ t'(2) _ this] N up obtain cl v where
      "run_state (resolveInstanceForTeam E t') ?u = (Inr cl, v)" by (auto simp: up_trace)
    with rest(3) show "\<exists>a v. run_state (resolveInstanceForTeam E t') ?u = (a, v) \<and>
        ends_ready E N (KTeam, key_of (Team_ObjectMeta t)) (rest a)" by blast
  qed
qed

lemma Pipeline_link:
  assumes chain: "chain E N i t p j" and N: "N \<le> length (trace s)"
    and up: "up E (KInstance, key_of (Instance_ObjectMeta i)) s" "up E (KTeam, key_of (Team_ObjectMeta t)) s"
    and fresh: "fresh E (trace (after E Ctl_Pipeline (key_of (Pipeline_ObjectMeta p)) s))"
  shows "ended E (KPipeline, key_of (Pipeline_ObjectMeta p)) s (after E Ctl_Pipeline (key_of (Pipeline_ObjectMeta p)) s)"
proof -
  let ?u = "s\<lparr>trace := trace s @ [KGet KPipeline (key_of (Pipeline_ObjectMeta p))]\<rparr>"
  from chain N obtain p' where p': "Get_Pipeline (k8s E) (length (trace s)) (key_of (Pipeline_ObjectMeta p)) = Inr p'"
    "is_pipeline p p'" "live E (Pipeline_ObjectMeta p') pipelineFinalizer" by (rule chain_reads) blast
  from chain p'(2) obtain rest where rest: "Pipeline_apply E p' = State_Monad.bind (resolveClientForPipeline E p') rest"
    "\<And>a. appends (rest a)" "\<And>cl tn. ends_ready E N (KPipeline, key_of (Pipeline_ObjectMeta p)) (rest (Inr (cl, tn)))"
    by (rule Pipeline_apply_split) blast
  show ?thesis
  proof (rule handler_ends [OF refl _ appends_resolvers(2) rest(2) N fresh])
    show "run_state (dispatch E Ctl_Pipeline (key_of (Pipeline_ObjectMeta p))) s =
        run_state (State_Monad.bind (resolveClientForPipeline E p') rest) ?u"
      using p'(1,3) by (simp add: Pipeline_Reconcile_def run_simps live_def flip: rest(1))
    assume "fresh E (trace (snd (run_state (resolveClientForPipeline E p') ?u)))"
    from resolvePipeline_up [OF chain _ p'(2) _ _ this] N up obtain cl tn v where
      "run_state (resolveClientForPipeline E p') ?u = (Inr (cl, tn), v)" by (auto simp: up_trace)
    with rest(3) show "\<exists>a v. run_state (resolveClientForPipeline E p') ?u = (a, v) \<and>
        ends_ready E N (KPipeline, key_of (Pipeline_ObjectMeta p)) (rest a)" by blast
  qed
qed

lemma Job_link:
  assumes chain: "chain E N i t p j" and N: "N \<le> length (trace s)"
    and up: "up E (KInstance, key_of (Instance_ObjectMeta i)) s" "up E (KTeam, key_of (Team_ObjectMeta t)) s"
      "up E (KPipeline, key_of (Pipeline_ObjectMeta p)) s"
    and fresh: "fresh E (trace (after E Ctl_Job (key_of (Job_ObjectMeta j)) s))"
  shows "ended E (KJob, key_of (Job_ObjectMeta j)) s (after E Ctl_Job (key_of (Job_ObjectMeta j)) s)"
proof -
  let ?u = "s\<lparr>trace := trace s @ [KGet KJob (key_of (Job_ObjectMeta j))]\<rparr>"
  from chain N obtain j' where j': "Get_Job (k8s E) (length (trace s)) (key_of (Job_ObjectMeta j)) = Inr j'" "is_job j j'"
    "IsZero (lib E) (DeletionTimestamp (Job_ObjectMeta j'))" by (rule chain_reads) blast
  from Job_Reconcile_split [OF chain j'(2,1,3)] obtain rest where
    run: "run_state (Job_Reconcile E (key_of (Job_ObjectMeta j))) s =
      run_state (State_Monad.bind (resolveClientForJob E j') rest) ?u"
    and rest: "\<And>a. appends (rest a)"
      "\<And>cl tn pn. ends_ready E N (KJob, key_of (Job_ObjectMeta j)) (rest (Inr (cl, tn, pn)))" by blast
  show ?thesis
  proof (rule handler_ends [OF refl _ appends_resolvers(3) rest(1) N fresh])
    show "run_state (dispatch E Ctl_Job (key_of (Job_ObjectMeta j))) s =
        run_state (State_Monad.bind (resolveClientForJob E j') rest) ?u"
      using run by simp
    assume "fresh E (trace (snd (run_state (resolveClientForJob E j') ?u)))"
    moreover have "N \<le> length (trace ?u)" "up E (KInstance, key_of (Instance_ObjectMeta i)) ?u"
      "up E (KTeam, key_of (Team_ObjectMeta t)) ?u" "up E (KPipeline, key_of (Pipeline_ObjectMeta p)) ?u"
      using N up by (simp_all add: up_trace)
    ultimately obtain cl tn pn v where "run_state (resolveClientForJob E j') ?u = (Inr (cl, tn, pn), v)"
      using resolveJob_up [OF chain _ j'(2)] by blast
    with rest(2) show "\<exists>a v. run_state (resolveClientForJob E j') ?u = (a, v) \<and>
        ends_ready E N (KJob, key_of (Job_ObjectMeta j)) (rest a)" by blast
  qed
qed

subsection \<open>Histories\<close>

text \<open>
  A link of the chain: whenever what it rests on is there, a reconciliation of its object ends by reporting
  Ready. What it rests on stays, so the object's status, once Ready, stands; and the two together are what the
  next link rests on. An object may be excused for good by something in the trace.
\<close>

locale link =
  fixes E :: "'cl env"
    and ctl :: controller
    and req :: ObjectKey
    and below :: "'cl op_state \<Rightarrow> bool"
    and excused :: "'cl call list \<Rightarrow> bool"
  assumes below_keyed: "below s \<Longrightarrow> keyed E"
    and below_stays: "below s \<Longrightarrow> fresh E (trace (after E c r s)) \<Longrightarrow> below (after E c r s)"
    and below_ends: "below s \<Longrightarrow> fresh E (trace (after E ctl req s)) \<Longrightarrow>
      ended E (kind_of ctl, req) s (after E ctl req s) \<or> excused (trace (after E ctl req s))"
    and excused_append: "excused tr \<Longrightarrow> excused (tr @ cs)"
begin

abbreviation reached :: "'cl op_state \<Rightarrow> bool" where
  "reached s \<equiv> below s \<and> (up E (kind_of ctl, req) s \<or> excused (trace s))"

lemma rises: "below s \<Longrightarrow> fresh E (trace (after E ctl req s)) \<Longrightarrow> reached (after E ctl req s)"
  using below_ends ended_up below_stays by blast

lemma stays:
  assumes s: "reached s" and fresh: "fresh E (trace (after E c r s))"
  shows "reached (after E c r s)"
proof (cases "c = ctl \<and> r = req")
  case True
  with rises s fresh show ?thesis by blast
next
  case False
  from after_appends [of E c r s] obtain cs where tr: "trace (after E c r s) = trace s @ cs" by blast
  then have "calls (dispatch E c r) s = cs" by (simp add: calls_def after_def)
  with own_dispatch [OF below_keyed, of s c r] s have own: "list_all (own_write c r) cs"
    using emits_calls by (metis list_all_iff)
  have "(kind_of c, r) \<noteq> (kind_of ctl, req)" using False by (cases c; cases ctl) auto
  with own have "\<forall>x. KStatusUpdate x \<in> set cs \<longrightarrow> object_id x \<noteq> (kind_of ctl, req)" by (auto simp: list_all_iff)
  from standing_other [OF this] s tr below_stays fresh show ?thesis by (auto simp: up_def excused_append)
qed

lemma stays_history: "reached s \<Longrightarrow> fresh E (trace (run_history E h s)) \<Longrightarrow> reached (run_history E h s)"
proof (induction h arbitrary: s)
  case Nil
  then show ?case by simp
next
  case (Cons a h)
  obtain c r where a: "a = (c, r)" by (cases a)
  from run_history_appends [of E h "after E c r s"] Cons.prems(2) a have "fresh E (trace (after E c r s))"
    by (auto dest: fresh_append)
  from stays [OF Cons.prems(1) this] Cons.IH Cons.prems(2) a show ?case by simp
qed

lemma below_history: "below s \<Longrightarrow> fresh E (trace (run_history E h s)) \<Longrightarrow> below (run_history E h s)"
proof (induction h arbitrary: s)
  case Nil
  then show ?case by simp
next
  case (Cons a h)
  obtain c r where a: "a = (c, r)" by (cases a)
  from run_history_appends [of E h "after E c r s"] Cons.prems(2) a have "fresh E (trace (after E c r s))"
    by (auto dest: fresh_append)
  from below_stays [OF Cons.prems(1) this] Cons.IH Cons.prems(2) a show ?case by simp
qed

lemma reached_history:
  assumes "below s" and "fresh E (trace (run_history E (h @ (ctl, req) # h') s))"
  shows "reached (run_history E (h @ (ctl, req) # h') s)"
proof -
  let ?u = "run_history E h s"
  have split: "run_history E (h @ (ctl, req) # h') s = run_history E h' (after E ctl req ?u)"
    by (induction h arbitrary: s) auto
  from run_history_appends [of E h' "after E ctl req ?u"] assms(2) split
  have fresh: "fresh E (trace (after E ctl req ?u))" by (auto dest: fresh_append)
  with after_appends [of E ctl req ?u] have "fresh E (trace ?u)" by (auto dest: fresh_append)
  from stays_history [OF rises [OF below_history [OF assms(1) this] fresh]] assms(2) split show ?thesis by simp
qed

end

definition chain_from :: "'cl env \<Rightarrow> nat \<Rightarrow> Instance \<Rightarrow> Team \<Rightarrow> Pipeline \<Rightarrow> Job \<Rightarrow> 'cl op_state \<Rightarrow> bool" where
  "chain_from E N i t p j s \<longleftrightarrow> chain E N i t p j \<and> N \<le> length (trace s)"

lemma chain_from_after: "chain_from E N i t p j s \<Longrightarrow> chain_from E N i t p j (after E c r s)"
  using after_appends [of E c r s] by (auto simp: chain_from_def)

interpretation il: link E Ctl_Instance "key_of (Instance_ObjectMeta i)" "chain_from E N i t p j" "\<lambda>_. False"
  for E :: "'cl env" and N :: nat and i :: Instance and t :: Team and p :: Pipeline and j :: Job
proof
  fix s
  assume c: "chain_from E N i t p j s"
  from c show "keyed E" by (simp add: chain_from_def chain_def)
  from chain_from_after [OF c] show "chain_from E N i t p j (after E ctl r s)" for ctl r .
  from c ends_Instance [of E N i t p j] show "ended E (kind_of Ctl_Instance, key_of (Instance_ObjectMeta i)) s
      (after E Ctl_Instance (key_of (Instance_ObjectMeta i)) s) \<or> False"
    by (simp add: chain_from_def ends_ready_def after_def)
qed

definition instance_up :: "'cl env \<Rightarrow> nat \<Rightarrow> Instance \<Rightarrow> Team \<Rightarrow> Pipeline \<Rightarrow> Job \<Rightarrow> 'cl op_state \<Rightarrow> bool" where
  "instance_up E N i t p j s \<longleftrightarrow> chain_from E N i t p j s \<and> up E (KInstance, key_of (Instance_ObjectMeta i)) s"

definition team_up :: "'cl env \<Rightarrow> nat \<Rightarrow> Instance \<Rightarrow> Team \<Rightarrow> Pipeline \<Rightarrow> Job \<Rightarrow> 'cl op_state \<Rightarrow> bool" where
  "team_up E N i t p j s \<longleftrightarrow> instance_up E N i t p j s \<and> up E (KTeam, key_of (Team_ObjectMeta t)) s"

definition pipeline_up :: "'cl env \<Rightarrow> nat \<Rightarrow> Instance \<Rightarrow> Team \<Rightarrow> Pipeline \<Rightarrow> Job \<Rightarrow> 'cl op_state \<Rightarrow> bool" where
  "pipeline_up E N i t p j s \<longleftrightarrow> team_up E N i t p j s \<and> up E (KPipeline, key_of (Pipeline_ObjectMeta p)) s"

lemmas ups = instance_up_def team_up_def pipeline_up_def

interpretation tl: link E Ctl_Team "key_of (Team_ObjectMeta t)" "instance_up E N i t p j" "\<lambda>_. False"
  for E :: "'cl env" and N :: nat and i :: Instance and t :: Team and p :: Pipeline and j :: Job
proof (unfold_locales, goal_cases)
  case (1 s)
  then show ?case using il.below_keyed unfolding ups by blast
next
  case (2 s c r)
  then show ?case using il.stays [of E N i t p j s c r] by (simp add: ups)
next
  case (3 s)
  then show ?case using Team_link [of E N i t p j s] by (simp add: ups chain_from_def)
qed

interpretation pll: link E Ctl_Pipeline "key_of (Pipeline_ObjectMeta p)" "team_up E N i t p j" "\<lambda>_. False"
  for E :: "'cl env" and N :: nat and i :: Instance and t :: Team and p :: Pipeline and j :: Job
proof (unfold_locales, goal_cases)
  case (1 s)
  then show ?case using il.below_keyed unfolding ups by blast
next
  case (2 s c r)
  then show ?case using tl.stays [of E N i t p j s c r] by (simp add: team_up_def)
next
  case (3 s)
  then show ?case using Pipeline_link [of E N i t p j s] by (simp add: ups chain_from_def)
qed

interpretation jl: link E Ctl_Job "key_of (Job_ObjectMeta j)" "pipeline_up E N i t p j" "\<lambda>_. False"
  for E :: "'cl env" and N :: nat and i :: Instance and t :: Team and p :: Pipeline and j :: Job
proof (unfold_locales, goal_cases)
  case (1 s)
  then show ?case using il.below_keyed unfolding ups by blast
next
  case (2 s c r)
  then show ?case using pll.stays [of E N i t p j s c r] by (simp add: pipeline_up_def)
next
  case (3 s)
  then show ?case using Job_link [of E N i t p j s] by (simp add: ups chain_from_def)
qed

lemma run_history_append: "run_history E (g @ h) s = run_history E h (run_history E g s)"
  by (induction g arbitrary: s) auto

lemma fresh_history: "fresh E (trace (run_history E (g @ h) s)) \<Longrightarrow> fresh E (trace (run_history E g s))"
  using run_history_appends [of E h "run_history E g s"] by (auto simp: run_history_append dest: fresh_append)

text \<open>
  The chain comes up and stays up, and recovers from whatever was before. From any state of the process,
  with any earlier failures in its trace, if from then on the objects of a chain are there, statuses written
  are what reads show, the instance's credentials can be read, and Concourse answers and accepts, then in every
  history in which the instance, the team, the pipeline and the job are reconciled in that order, with any
  reconciliations of any objects before, between and after, the last status the operator sent for each of
  the four is Ready.
\<close>

lemma chain_comes_up:
  assumes chain: "chain E (length (trace s)) i t p j"
    and h: "h = h0 @ (Ctl_Instance, key_of (Instance_ObjectMeta i)) # h1 @ (Ctl_Team, key_of (Team_ObjectMeta t)) #
      h2 @ (Ctl_Pipeline, key_of (Pipeline_ObjectMeta p)) # h3 @ (Ctl_Job, key_of (Job_ObjectMeta j)) # h4"
    and fresh: "fresh E (trace (run_history E h s))"
  shows "up E (KInstance, key_of (Instance_ObjectMeta i)) (run_history E h s) \<and>
    up E (KTeam, key_of (Team_ObjectMeta t)) (run_history E h s) \<and>
    up E (KPipeline, key_of (Pipeline_ObjectMeta p)) (run_history E h s) \<and>
    up E (KJob, key_of (Job_ObjectMeta j)) (run_history E h s)"
proof -
  let ?N = "length (trace s)"
  define a where "a = h0 @ [(Ctl_Instance, key_of (Instance_ObjectMeta i))]"
  define b where "b = h1 @ [(Ctl_Team, key_of (Team_ObjectMeta t))]"
  define c where "c = h2 @ [(Ctl_Pipeline, key_of (Pipeline_ObjectMeta p))]"
  define d where "d = h3 @ (Ctl_Job, key_of (Job_ObjectMeta j)) # h4"
  have h': "h = a @ b @ c @ d" by (simp add: h a_def b_def c_def d_def)
  have "chain_from E ?N i t p j s" using chain by (simp add: chain_from_def)
  from il.reached_history [OF this, of h0 "[]"] fresh_history [of E a "b @ c @ d" s] fresh
  have "instance_up E ?N i t p j (run_history E a s)" by (simp add: instance_up_def h' a_def)
  from tl.reached_history [OF this, of h1 "[]"] fresh_history [of E "a @ b" "c @ d" s] fresh
  have "team_up E ?N i t p j (run_history E (a @ b) s)" by (simp add: team_up_def h' b_def run_history_append)
  from pll.reached_history [OF this, of h2 "[]"] fresh_history [of E "a @ b @ c" d s] fresh
  have "pipeline_up E ?N i t p j (run_history E (a @ b @ c) s)"
    by (simp add: pipeline_up_def h' c_def run_history_append)
  from jl.reached_history [OF this, of h3 h4] fresh show ?thesis
    by (simp add: h' d_def run_history_append ups)
qed

subsection \<open>An instance of it\<close>

text \<open>
  A cluster that keeps what is written: no object is Ready at first, and from the moment a status was sent the
  reads of the object show it.
\<close>

abbreviation ex_now :: "nat \<Rightarrow> go_time" where
  "ex_now n \<equiv> 1000 * Minute + int n"

abbreviation ex_key :: "string \<Rightarrow> ObjectKey" where
  "ex_key n \<equiv> \<lparr>key_Namespace = ''ns'', key_Name = n\<rparr>"

definition ex_fresh_instance :: Instance where
  "ex_fresh_instance = ex_instance\<lparr>Instance_Status := (Instance_Status ex_instance)\<lparr>InstanceStatus_Conditions := []\<rparr>\<rparr>"

definition ex_fresh_team :: Team where
  "ex_fresh_team = ex_team\<lparr>Team_Status := (Team_Status ex_team)\<lparr>TeamStatus_Conditions := []\<rparr>\<rparr>"

definition ex_fresh_pipeline :: Pipeline where
  "ex_fresh_pipeline = ex_pipeline\<lparr>Pipeline_Status := (Pipeline_Status ex_pipeline)\<lparr>PipelineStatus_Conditions := []\<rparr>\<rparr>"

definition ex_up_instance :: Instance where
  "ex_up_instance = ex_fresh_instance\<lparr>Instance_Status := (Instance_Status ex_fresh_instance)
     \<lparr>InstanceStatus_Version := ''7.11'', InstanceStatus_WorkerVersion := ''2.5'',
      InstanceStatus_ClusterName := ''main'', InstanceStatus_ExternalURL := ''https://ci'',
      InstanceStatus_WorkerCount := 2, InstanceStatus_ObservedGeneration := 2, InstanceStatus_StalledWorkers := 1,
      InstanceStatus_RunningWorkers := 1,
      InstanceStatus_Conditions := set_cond ex_lib (ex_now 6) (set_cond ex_lib (ex_now 5) (set_cond ex_lib (ex_now 4) []
        ConditionWorkersHealthy ConditionFalse ''WorkersStalled'' (Itoa 1 @ '' worker(s) stalled''))
        ConditionAuthenticated ConditionTrue ''Authenticated'' '''') ConditionReady ConditionTrue ''Ready'' ''''\<rparr>\<rparr>"

definition ex_up_team :: Team where
  "ex_up_team = ex_fresh_team\<lparr>Team_Status := (Team_Status ex_fresh_team)
     \<lparr>TeamStatus_TeamID := 5, TeamStatus_LastApplied := Some (ex_now 11), TeamStatus_ObservedGeneration := 2,
      TeamStatus_Conditions := set_cond ex_lib (ex_now 13) (set_cond ex_lib (ex_now 12) [] ConditionConfigWarning
        ConditionFalse ''NoWarnings'' '''') ConditionReady ConditionTrue ''Ready'' ''''\<rparr>\<rparr>"

definition ex_up_pipeline :: Pipeline where
  "ex_up_pipeline = ex_fresh_pipeline\<lparr>Pipeline_Status := (Pipeline_Status ex_fresh_pipeline)
     \<lparr>PipelineStatus_ConfigHash := sha256_hex ''abc'', PipelineStatus_Exposed := True, PipelineStatus_PipelineID := 11,
      PipelineStatus_GroupCount := 1, PipelineStatus_LastUpdated := Some (Unix 100),
      PipelineStatus_ObservedGeneration := 2,
      PipelineStatus_Conditions := set_cond ex_lib (ex_now 24) (set_cond ex_lib (ex_now 20) (set_cond ex_lib (ex_now 19) []
        ConditionConfigWarning ConditionFalse ''NoWarnings'' '''') ConditionConfigSynced ConditionTrue ''Synced'' '''')
        ConditionReady ConditionTrue ''Ready'' ''''\<rparr>\<rparr>"

definition ex_growing_k8s :: k8s_api where
  "ex_growing_k8s = ex_keyed_k8s
     \<lparr>Get_Instance := (\<lambda>n k. let i = if n < 8 then ex_fresh_instance else ex_up_instance
        in Inr (i\<lparr>Instance_ObjectMeta := ex_named k (ex_meta ''ci'')\<rparr>)),
      Get_Team := (\<lambda>n k. let t = if n < 15 then ex_fresh_team else ex_up_team
        in Inr (t\<lparr>Team_ObjectMeta := ex_named k (ex_meta ''dev'')\<rparr>)),
      Get_Pipeline := (\<lambda>n k. let p = if n < 26 then ex_fresh_pipeline else ex_up_pipeline
        in Inr (p\<lparr>Pipeline_ObjectMeta := ex_named k (ex_meta ''hello'')\<rparr>))\<rparr>"

definition ex_growing :: "ex_client env" where
  "ex_growing = ex_env\<lparr>k8s := ex_growing_k8s\<rparr>"

lemma ex_growing_sel [simp]:
  "lib ex_growing = ex_lib" "atc ex_growing = ex_atc" "clock ex_growing n = 1000 * Minute + int n"
  "k8s ex_growing = ex_growing_k8s"
  by (simp_all add: ex_growing_def)

lemma ex_growing_k8s_sel [simp]:
  "Get_Instance ex_growing_k8s n k =
     Inr ((if n < 8 then ex_fresh_instance else ex_up_instance)\<lparr>Instance_ObjectMeta := ex_named k (ex_meta ''ci'')\<rparr>)"
  "Get_Team ex_growing_k8s n k =
     Inr ((if n < 15 then ex_fresh_team else ex_up_team)\<lparr>Team_ObjectMeta := ex_named k (ex_meta ''dev'')\<rparr>)"
  "Get_Pipeline ex_growing_k8s n k =
     Inr ((if n < 26 then ex_fresh_pipeline else ex_up_pipeline)\<lparr>Pipeline_ObjectMeta := ex_named k (ex_meta ''hello'')\<rparr>)"
  "Get_Job ex_growing_k8s n k = Inr (ex_job\<lparr>Job_ObjectMeta := ex_named k (ex_meta ''unit'')\<rparr>)"
  "Get_Secret ex_growing_k8s = Get_Secret ex_k8s" "Status_Instance ex_growing_k8s = Status_Instance ex_k8s"
  "Status_Team ex_growing_k8s = Status_Team ex_k8s" "Status_Pipeline ex_growing_k8s = Status_Pipeline ex_k8s"
  "Status_Job ex_growing_k8s = Status_Job ex_k8s" "Create_Build ex_growing_k8s = Create_Build ex_k8s"
  by (simp_all add: ex_growing_k8s_def ex_keyed_k8s_def)

lemma ex_growing_own [simp]:
  "ex_named (ex_key n) (ex_meta n) = ex_meta n"
  "ex_fresh_instance\<lparr>Instance_ObjectMeta := ex_meta ''ci''\<rparr> = ex_fresh_instance"
  "ex_up_instance\<lparr>Instance_ObjectMeta := ex_meta ''ci''\<rparr> = ex_up_instance"
  "ex_fresh_team\<lparr>Team_ObjectMeta := ex_meta ''dev''\<rparr> = ex_fresh_team"
  "ex_up_team\<lparr>Team_ObjectMeta := ex_meta ''dev''\<rparr> = ex_up_team"
  "ex_fresh_pipeline\<lparr>Pipeline_ObjectMeta := ex_meta ''hello''\<rparr> = ex_fresh_pipeline"
  "ex_up_pipeline\<lparr>Pipeline_ObjectMeta := ex_meta ''hello''\<rparr> = ex_up_pipeline"
  "ex_job\<lparr>Job_ObjectMeta := ex_meta ''unit''\<rparr> = ex_job"
  by (simp_all add: ex_named_def ex_fresh_instance_def ex_fresh_team_def ex_fresh_pipeline_def ex_up_instance_def
      ex_up_team_def ex_up_pipeline_def ex_objects)

lemma ex_growing_parts [simp]:
  "Instance_ObjectMeta ex_fresh_instance = ex_meta ''ci''" "Instance_ObjectMeta ex_up_instance = ex_meta ''ci''"
  "Instance_Spec ex_fresh_instance = Instance_Spec ex_instance" "Instance_Spec ex_up_instance = Instance_Spec ex_instance"
  "Team_ObjectMeta ex_fresh_team = ex_meta ''dev''" "Team_ObjectMeta ex_up_team = ex_meta ''dev''"
  "Team_Spec ex_fresh_team = Team_Spec ex_team" "Team_Spec ex_up_team = Team_Spec ex_team"
  "Pipeline_ObjectMeta ex_fresh_pipeline = ex_meta ''hello''" "Pipeline_ObjectMeta ex_up_pipeline = ex_meta ''hello''"
  "Pipeline_Spec ex_fresh_pipeline = Pipeline_Spec ex_pipeline" "Pipeline_Spec ex_up_pipeline = Pipeline_Spec ex_pipeline"
  "InstanceStatus_Conditions (Instance_Status ex_fresh_instance) = []"
  "TeamStatus_Conditions (Team_Status ex_fresh_team) = []"
  "PipelineStatus_Conditions (Pipeline_Status ex_fresh_pipeline) = []"
  by (simp_all add: ex_fresh_instance_def ex_fresh_team_def ex_fresh_pipeline_def ex_up_instance_def
      ex_up_team_def ex_up_pipeline_def)

lemma ex_ups_ready:
  "isReady ex_growing (InstanceStatus_Conditions (Instance_Status ex_up_instance))"
  "isReady ex_growing (TeamStatus_Conditions (Team_Status ex_up_team))"
  "isReady ex_growing (PipelineStatus_Conditions (Pipeline_Status ex_up_pipeline))"
  by (simp_all add: ex_up_instance_def ex_up_team_def ex_up_pipeline_def)

lemmas ex_ups_true [simp] = ex_ups_ready [unfolded isReady_def ex_growing_sel ex_lib_sel]

lemma ex_chain: "chain ex_growing 0 ex_instance ex_team ex_pipeline ex_job"
proof -
  have "keyed ex_growing"
    by (auto simp: keyed_def keyed_reads_def keyed_updates_def metadata_laws_def ex_growing_k8s_def ex_keyed_k8s_def
        ex_named_def key_of_def Let_def split: if_splits)
  moreover have "declared ex_growing 0 ex_instance ex_team ex_pipeline ex_job"
    by (simp add: declared_def live_def ex_named_def instanceFinalizer_def teamFinalizer_def pipelineFinalizer_def
        ex_finalizers_def)
  moreover have "linked ex_instance ex_team ex_pipeline ex_job"
    by (simp add: linked_def key_of_def)
  moreover have "cooperative ex_growing 0 ex_instance ex_pipeline"
    by (simp add: cooperative_def BuildHTTPClient_def buildTLSConfig_def readSecretKey_def run_simps Let_def
        loadPipelineConfig_def ex_atc_def ex_pipeline_def)
  ultimately show ?thesis by (simp add: chain_def)
qed

lemma ex_instance_run:
  "trace (after ex_growing Ctl_Instance (ex_key ''ci'') op_init) = [KGet KInstance (ex_key ''ci''),
     ex_get KSecret ''cred'', CGetInfo ex_cl, CListWorkers ex_cl, Clock, Clock, Clock, KStatusUpdate (OInstance ex_up_instance)] \<and>
   Cache_Get (store (after ex_growing Ctl_Instance (ex_key ''ci'') op_init)) ex_instance = Some ex_cl"
  by (simp add: after_def Instance_Reconcile_def Instance_apply_def run_simps GetOrBuild_def BuildHTTPClient_def
    buildTLSConfig_def readSecretKey_def Let_def Instance_status_def ex_atc_def instanceFinalizer_def ex_finalizers_def
    ex_atc_worker_def NewConcourseClient_def ex_up_instance_def ex_get_def ex_cl_def Cache_Get_def NewCache_def Cache_Set_def cacheKey_def)

lemma ex_up_instance_cached [simp]: "Cache_Get st ex_up_instance = Cache_Get st ex_instance"
  by (simp add: Cache_Get_def cacheKey_def)

lemma ex_up_instance_built [simp]:
  "Cache_Get (store s) ex_instance = Some cl \<Longrightarrow> run_state (GetOrBuild E ex_up_instance) s = (Inr cl, s)"
  by (simp add: GetOrBuild_hit)

lemma ex_team_run:
  assumes "length (trace s) = 8" and "Cache_Get (store s) ex_instance = Some cl"
  shows "trace (after ex_growing Ctl_Team (ex_key ''dev'') s) = trace s @ [KGet KTeam (ex_key ''dev''),
      KGet KInstance (ex_key ''ci''), TCreateOrUpdate cl ''developers'' (wanted_team ex_team), Clock, Clock, Clock,
      KStatusUpdate (OTeam ex_up_team)] \<and>
    Cache_Get (store (after ex_growing Ctl_Team (ex_key ''dev'') s)) ex_instance = Some cl"
  using assms
  by (simp add: after_def Team_Reconcile_def Team_apply_def resolveInstanceForTeam_def run_simps Let_def teamFinalizer_def
      ex_finalizers_def isReady_def [symmetric] wanted_team_def teamName_of_def default_name_def Team_applied_def
      ex_up_team_def)

lemma ex_pipeline_run:
  assumes "length (trace s) = 15" and "Cache_Get (store s) ex_instance = Some cl"
  shows "trace (after ex_growing Ctl_Pipeline (ex_key ''hello'') s) = trace s @ [KGet KPipeline (ex_key ''hello''),
      KGet KTeam (ex_key ''dev''), KGet KInstance (ex_key ''ci''),
      TCreateOrUpdatePipelineConfig cl ''developers'' \<lparr>PipelineRef_Name = ''hello''\<rparr> '''' ''abc'' False, Clock, Clock,
      TUnpausePipeline cl ''developers'' \<lparr>PipelineRef_Name = ''hello''\<rparr>,
      TExposePipeline cl ''developers'' \<lparr>PipelineRef_Name = ''hello''\<rparr>,
      TPipeline cl ''developers'' \<lparr>PipelineRef_Name = ''hello''\<rparr>, Clock, KStatusUpdate (OPipeline ex_up_pipeline)] \<and>
    Cache_Get (store (after ex_growing Ctl_Pipeline (ex_key ''hello'') s)) ex_instance = Some cl"
  using assms
  by (simp add: after_def Pipeline_Reconcile_def Pipeline_apply_def resolveClientForPipeline_def resolveInstanceForTeam_def
      run_simps Let_def pipelineFinalizer_def ex_finalizers_def loadPipelineConfig_def Pipeline_sync_def applyConfig_def
      needs_upload_def syncPause_def syncExpose_def fetchMetadata_def ex_up_pipeline_def ex_fresh_pipeline_def ex_pipeline_def
      ex_atc_def)

text \<open>Freshness of a trace, one call at a time.\<close>

fun reads_fresh :: "'cl env \<Rightarrow> 'cl call list \<Rightarrow> 'cl call list \<Rightarrow> bool" where
  "reads_fresh E tr [] = True"
| "reads_fresh E tr (c # cs) \<longleftrightarrow>
     (\<forall>k key x. c = KGet k key \<longrightarrow> standing (k, key) tr = Some x \<longrightarrow> shown E (length tr) key x) \<and>
     reads_fresh E (tr @ [c]) cs"

lemma fresh_snoc:
  "fresh E (tr @ [c]) \<longleftrightarrow> fresh E tr \<and>
     (\<forall>k key x. c = KGet k key \<longrightarrow> standing (k, key) tr = Some x \<longrightarrow> shown E (length tr) key x)"
proof
  assume "fresh E (tr @ [c])"
  then show "fresh E tr \<and> (\<forall>k key x. c = KGet k key \<longrightarrow> standing (k, key) tr = Some x \<longrightarrow> shown E (length tr) key x)"
    using fresh_append [of E tr "[c]"] fresh_read [of E tr _ _ "[]"] by auto
next
  assume "fresh E tr \<and> (\<forall>k key x. c = KGet k key \<longrightarrow> standing (k, key) tr = Some x \<longrightarrow> shown E (length tr) key x)"
  then show "fresh E (tr @ [c])"
    unfolding fresh_def by (auto simp: nth_append less_Suc_eq)
qed

lemma fresh_append_iff: "fresh E (tr @ cs) \<longleftrightarrow> fresh E tr \<and> reads_fresh E tr cs"
proof (induction cs arbitrary: tr)
  case Nil
  then show ?case by simp
next
  case (Cons c cs)
  from Cons.IH [of "tr @ [c]"] show ?case by (auto simp: fresh_snoc)
qed

lemma reads_fresh_none: "\<forall>k key. KGet k key \<notin> set cs \<Longrightarrow> reads_fresh E tr cs"
  by (induction cs arbitrary: tr) auto

lemma standing_quiet: "concat (map status_sent cs) = [] \<Longrightarrow> standing oid (tr @ cs) = standing oid tr"
  by (simp add: standing_def statuses_of_def)

lemma standing_last: "concat (map status_sent cs) = [x] \<Longrightarrow>
   standing oid (tr @ cs) = (if object_id x = oid then Some x else standing oid tr)"
  by (simp add: standing_def statuses_of_def)

lemma fresh_Nil: "fresh E []"
  by (simp add: fresh_def)

end
