(* ===== verification/Readiness.thy ===== *)
theory Readiness
  imports Convergence
begin

section \<open>Ready is not claimed without reason\<close>

text \<open>
  The converse of coming up: whenever the instance, team, pipeline or build controller reports Ready, something
  Concourse answered earlier in the same reconciliation backs the claim, and it is about what the object's spec
  says.
\<close>

subsection \<open>What backs a Ready status\<close>

text \<open>The call \<open>c\<close> was made as the \<open>n\<close>-th interaction, in the part of the trace that begins at \<open>b\<close>.\<close>

definition made :: "nat \<Rightarrow> 'cl call list \<Rightarrow> nat \<Rightarrow> 'cl call \<Rightarrow> bool" where
  "made b tr n c \<longleftrightarrow> b \<le> n \<and> n < length tr \<and> tr ! n = c"

lemma made_append: "made b tr n c \<Longrightarrow> made b (tr @ cs) n c"
  by (simp add: made_def nth_append)

lemma made_last: "b \<le> length tr \<Longrightarrow> made b (tr @ [c]) (length tr) c"
  by (simp add: made_def)

text \<open>The text the pipeline's spec gives as its configuration: the inline one, or what a ConfigMap held.\<close>

definition config_text :: "'cl env \<Rightarrow> nat \<Rightarrow> 'cl call list \<Rightarrow> Pipeline \<Rightarrow> string \<Rightarrow> bool" where
  "config_text E b tr p y \<longleftrightarrow>
     (let cfg = PipelineSpec_Config (Pipeline_Spec p) in
      if PipelineConfig_Inline cfg \<noteq> '''' then y = PipelineConfig_Inline cfg
      else \<exists>ref n data. PipelineConfig_ConfigMapRef cfg = Some ref \<and>
        made b tr n (KGet KConfigMap \<lparr>key_Namespace = Namespace (Pipeline_ObjectMeta p), key_Name = ConfigMapKeyRef_Name ref\<rparr>) \<and>
        Get_ConfigMap (k8s E) n \<lparr>key_Namespace = Namespace (Pipeline_ObjectMeta p), key_Name = ConfigMapKeyRef_Name ref\<rparr> = Inr data \<and>
        data (ConfigMapKeyRef_Key ref) = Some y)"

text \<open>The API server answered with the pipeline \<open>p\<close>.\<close>

definition pipeline_answered :: "'cl env \<Rightarrow> nat \<Rightarrow> 'cl call list \<Rightarrow> Pipeline \<Rightarrow> bool" where
  "pipeline_answered E b tr p \<longleftrightarrow>
     (\<exists>n k. made b tr n (KGet KPipeline k) \<and> Get_Pipeline (k8s E) n k = Inr p) \<or>
     (\<exists>n q. made b tr n (KUpdate (OPipeline q)) \<and> Update_Pipeline (k8s E) n q = Inr p)"

definition pipelineName_of :: "Pipeline \<Rightarrow> string" where
  "pipelineName_of p = default_name (PipelineSpec_PipelineName (Pipeline_Spec p)) (Pipeline_ObjectMeta p)"

text \<open>
  An instance: its info was answered, and is what the status shows. A team: Concourse accepted the team the
  spec describes, under the id shown. A pipeline: the hash shown is that of the configuration the spec gives,
  which Concourse accepted now, or of which the object recorded already that it was accepted. A build: its id is
  one Concourse gave now, or the object recorded already.
\<close>

fun backed :: "'cl env \<Rightarrow> nat \<Rightarrow> 'cl call list \<Rightarrow> k8s_object \<Rightarrow> bool" where
  "backed E b tr (OInstance i) \<longleftrightarrow>
     (\<exists>n cl info. made b tr n (CGetInfo cl) \<and> Client_GetInfo (atc E) n cl = Inr info \<and>
        InstanceStatus_Version (Instance_Status i) = Info_Version info \<and>
        InstanceStatus_ExternalURL (Instance_Status i) = Info_ExternalURL info)"
| "backed E b tr (OTeam t) \<longleftrightarrow>
     (\<exists>n cl r ws. made b tr n (TCreateOrUpdate cl (teamName_of t) (wanted_team t)) \<and>
        Team_CreateOrUpdate (atc E) n cl (teamName_of t) (wanted_team t) = Inr (r, ws) \<and>
        TeamStatus_TeamID (Team_Status t) = atcTeam_ID r)"
| "backed E b tr (OPipeline p) \<longleftrightarrow>
     (\<exists>y. PipelineStatus_ConfigHash (Pipeline_Status p) = sha256_hex y \<and> config_text E b tr p y \<and>
        ((\<exists>n cl tn ws. made b tr n (TCreateOrUpdatePipelineConfig cl tn \<lparr>PipelineRef_Name = pipelineName_of p\<rparr> '''' y False) \<and>
            Team_CreateOrUpdatePipelineConfig (atc E) n cl tn \<lparr>PipelineRef_Name = pipelineName_of p\<rparr> '''' y False = Inr ws) \<or>
         (\<exists>q. pipeline_answered E b tr q \<and> Pipeline_Spec q = Pipeline_Spec p \<and>
            PipelineStatus_ConfigHash (Pipeline_Status q) = sha256_hex y \<and> PipelineStatus_PipelineID (Pipeline_Status q) \<noteq> 0)))"
| "backed E b tr (OBuild x) \<longleftrightarrow>
     (\<exists>n cl tn r jn a. made b tr n (TCreateJobBuild cl tn r jn) \<and> Team_CreateJobBuild (atc E) n cl tn r jn = Inr a \<and>
        BuildStatus_BuildID (Build_Status x) = atcBuild_ID a) \<or>
     (\<exists>n k q. made b tr n (KGet KBuild k) \<and> Get_Build (k8s E) n k = Inr q \<and> BuildStatus_BuildID (Build_Status q) \<noteq> 0 \<and>
        BuildStatus_BuildID (Build_Status x) = BuildStatus_BuildID (Build_Status q))"
| "backed E b tr _ \<longleftrightarrow> False"

lemma config_text_append: "config_text E b tr p y \<Longrightarrow> config_text E b (tr @ cs) p y"
  unfolding config_text_def Let_def by (auto split: if_splits dest: made_append)

lemma pipeline_answered_append: "pipeline_answered E b tr p \<Longrightarrow> pipeline_answered E b (tr @ cs) p"
  unfolding pipeline_answered_def by (blast dest: made_append)

lemma backed_append: "backed E b tr x \<Longrightarrow> backed E b (tr @ cs) x"
proof (cases x)
  case (OPipeline p)
  assume "backed E b tr x"
  with OPipeline show ?thesis
    by simp (meson config_text_append pipeline_answered_append made_append)
next
  case (OBuild z)
  assume "backed E b tr x"
  with OBuild show ?thesis by simp (meson made_append)
qed (auto dest: made_append)

subsection \<open>Handlers that claim nothing unbacked\<close>

fun claims_ready :: "'cl env \<Rightarrow> (k8s_object \<Rightarrow> bool) \<Rightarrow> 'cl call \<Rightarrow> bool" where
  "claims_ready E P (KStatusUpdate x) = (object_ready E x \<longrightarrow> P x)"
| "claims_ready E P _ = True"

definition honest :: "'cl env \<Rightarrow> nat \<Rightarrow> ('cl, 'a) op \<Rightarrow> 'cl op_state \<Rightarrow> bool" where
  "honest E b m s \<longleftrightarrow> (\<forall>pre x post. trace (snd (run_state m s)) = trace s @ pre @ KStatusUpdate x # post \<longrightarrow>
     object_ready E x \<longrightarrow> backed E b (trace s @ pre) x)"

lemma honest_backed:
  assumes "state_io_rel (emits (claims_ready E P)) m" and "\<And>x. P x \<Longrightarrow> backed E b (trace s) x"
  shows "honest E b m s"
  unfolding honest_def
proof (intro allI impI)
  fix pre x post
  assume tr: "trace (snd (run_state m s)) = trace s @ pre @ KStatusUpdate x # post" and "object_ready E x"
  then have "KStatusUpdate x \<in> set (calls m s)" by (simp add: calls_def)
  from emits_calls [OF assms(1) this] \<open>object_ready E x\<close> have "P x" by simp
  from backed_append [OF assms(2) [OF this]] show "backed E b (trace s @ pre) x" .
qed

lemma honest_unready: "state_io_rel (emits (claims_ready E (\<lambda>_. False))) m \<Longrightarrow> honest E b m s"
  by (rule honest_backed [where P = "\<lambda>_. False"]) simp_all

lemma honest_bind:
  assumes quiet: "state_io_rel (emits (\<lambda>c. status_sent c = [])) m" and "\<And>a. appends (f a)"
    and "\<And>a u cs. run_state m s = (a, u) \<Longrightarrow> trace u = trace s @ cs \<Longrightarrow> honest E b (f a) u"
  shows "honest E b (State_Monad.bind m f) s"
  unfolding honest_def
proof (intro allI impI)
  fix pre x post
  assume tr: "trace (snd (run_state (State_Monad.bind m f) s)) = trace s @ pre @ KStatusUpdate x # post"
    and ready: "object_ready E x"
  obtain a u where run: "run_state m s = (a, u)" by (meson prod.exhaust)
  from emits_run [OF quiet run] obtain cs where u: "trace u = trace s @ cs" "\<forall>c \<in> set cs. status_sent c = []"
    by (auto simp: emits_def list_all_iff)
  from run_appends [OF assms(2), of a u] obtain ds where ds: "trace (snd (run_state (f a) u)) = trace u @ ds" by blast
  with tr run u have eq: "cs @ ds = pre @ KStatusUpdate x # post" by simp
  have "KStatusUpdate x \<notin> set cs" using u(2) by auto
  with eq obtain pre' where "pre = cs @ pre'" "ds = pre' @ KStatusUpdate x # post"
    by (auto simp: append_eq_append_conv2 append_eq_Cons_conv)
  with assms(3) [OF run u(1)] ds ready u(1) show "backed E b (trace s @ pre) x" unfolding honest_def by simp
qed

lemma honest_ask:
  assumes "status_sent c = []" and "\<And>a. appends (f a)"
    and "honest E b (f (g (length (trace s)))) (s\<lparr>trace := trace s @ [c]\<rparr>)"
  shows "honest E b (State_Monad.bind (ask c g) f) s"
  by (rule honest_bind [OF emits_ask]) (use assms in \<open>auto simp: run_simps\<close>)

lemma honest_branches:
  "(c \<Longrightarrow> honest E b m s) \<Longrightarrow> (\<not> c \<Longrightarrow> honest E b n s) \<Longrightarrow> honest E b (if c then m else n) s"
  "(\<And>e. x = Inl e \<Longrightarrow> honest E b (f e) s) \<Longrightarrow> (\<And>a. x = Inr a \<Longrightarrow> honest E b (g a) s) \<Longrightarrow>
     honest E b (case x of Inl e \<Rightarrow> f e | Inr a \<Rightarrow> g a) s"
  "(y = None \<Longrightarrow> honest E b k s) \<Longrightarrow> (\<And>a. y = Some a \<Longrightarrow> honest E b (h a) s) \<Longrightarrow>
     honest E b (case y of None \<Rightarrow> k | Some a \<Rightarrow> h a) s"
  "(\<And>u v. z = (u, v) \<Longrightarrow> honest E b (q u v) s) \<Longrightarrow> honest E b (case z of (u, v) \<Rightarrow> q u v) s"
  by (cases x; cases y; cases z; simp)+

lemma quiet_resolvers:
  "state_io_rel (emits (\<lambda>c. status_sent c = [])) (resolveInstanceForTeam E t)"
  "state_io_rel (emits (\<lambda>c. status_sent c = [])) (resolveClientForPipeline E p)"
  "state_io_rel (emits (\<lambda>c. status_sent c = [])) (resolveClientForJob E j)"
  "state_io_rel (emits (\<lambda>c. status_sent c = [])) (GetOrBuild E i)"
  by (rule emits_resolvers_if, simp)+

lemma honest_return: "honest E b (State_Monad.return a) s"
  by (rule honest_unready) (rule em.effect_return)

lemmas honest_rules = em.effect_rules emits_resolvers_if emits_ask emits_setCondition emits_Now

text \<open>The failure exits claim nothing.\<close>

lemma unready_exits:
  assumes "condition_laws (lib E)"
  shows "state_io_rel (emits (claims_ready E P)) (Instance_failed E i reason err)"
    and "state_io_rel (emits (claims_ready E P)) (Team_not_ready E t reason err)"
    and "state_io_rel (emits (claims_ready E P)) (Pipeline_not_ready E p reason err)"
    and "state_io_rel (emits (claims_ready E P)) (Pipeline_upload_failed E p err)"
    and "state_io_rel (emits (claims_ready E P)) (Build_not_ready E x reason msg r)"
  unfolding Instance_failed_def Team_not_ready_def Pipeline_not_ready_def Pipeline_upload_failed_def Build_not_ready_def
  by (intro honest_rules; simp add: not_ready_setCondition [OF assms])+

lemma appends_exits:
  "appends (Instance_failed E i reason err)" "appends (Team_not_ready E t reason err)"
  "appends (Pipeline_not_ready E p reason err)" "appends (Pipeline_upload_failed E p err)"
  "appends (Build_not_ready E x reason msg r)" "appends (Instance_status E i info ws)" "appends (Team_applied E t res ws2)"
  unfolding Instance_failed_def Team_not_ready_def Pipeline_not_ready_def Pipeline_upload_failed_def Build_not_ready_def
    Instance_status_def Team_applied_def
  by (intro appends_rules; simp)+

lemma honest_Instance_apply:
  assumes cond: "condition_laws (lib E)" and b: "b \<le> length (trace u)"
  shows "honest E b (Instance_apply E i) u"
  unfolding Instance_apply_def
proof (rule honest_bind [OF quiet_resolvers(4)], goal_cases)
  case (1 a)
  show ?case by (intro appends_rules appends_exits; simp)
next
  case (2 a v cs)
  then have bv: "b \<le> length (trace v)" using b by simp
  show ?case
  proof (cases a)
    case (Inl e)
    then show ?thesis by (simp add: honest_unready unready_exits [OF cond])
  next
    case (Inr cl)
    let ?n = "length (trace v)"
    show ?thesis
      unfolding Inr sum.case
    proof (rule honest_ask, simp, goal_cases)
      case (1 a)
      show ?case by (intro appends_rules appends_exits; simp)
    next
      case 2
      show ?case
      proof (cases "Client_GetInfo (atc E) ?n cl")
        case (Inl e)
        then show ?thesis by (simp add: honest_unready unready_exits [OF cond])
      next
        case (Inr info)
        let ?P = "\<lambda>x. \<exists>j. x = OInstance j \<and> InstanceStatus_Version (Instance_Status j) = Info_Version info \<and>
          InstanceStatus_ExternalURL (Instance_Status j) = Info_ExternalURL info"
        have "state_io_rel (emits (claims_ready E ?P)) (Instance_status E i info ws)" for ws
          unfolding Instance_status_def by (intro honest_rules) simp_all
        then have "state_io_rel (emits (claims_ready E ?P)) (State_Monad.bind (ask (CListWorkers cl) (\<lambda>n. Client_ListWorkers (atc E) n cl))
            (\<lambda>(workers, err). Instance_status E i info workers))"
          by (intro honest_rules) simp_all
        moreover have "backed E b (trace v @ [CGetInfo cl]) x" if "?P x" for x
          using that Inr made_last [of b "trace v" "CGetInfo cl", OF bv] by auto blast
        ultimately show ?thesis by (simp add: Inr honest_backed [where P = ?P])
      qed
    qed
  qed
qed

lemma honest_Team_apply:
  assumes cond: "condition_laws (lib E)" and b: "b \<le> length (trace u)"
  shows "honest E b (Team_apply E t) u"
  unfolding Team_apply_def
proof (rule honest_bind [OF quiet_resolvers(1)], goal_cases)
  case (1 a)
  show ?case by (intro appends_rules appends_exits; simp)
next
  case (2 a v cs)
  then have bv: "b \<le> length (trace v)" using b by simp
  show ?case
  proof (cases a)
    case (Inl e)
    then show ?thesis by (simp add: honest_unready unready_exits [OF cond])
  next
    case (Inr cl)
    let ?c = "TCreateOrUpdate cl (teamName_of t) (wanted_team t)"
    have "honest E b (State_Monad.bind (ask ?c (\<lambda>n. Team_CreateOrUpdate (atc E) n cl (teamName_of t) (wanted_team t)))
        (\<lambda>w. case w of Inl err \<Rightarrow> Team_not_ready E t ''CreateOrUpdateFailed'' err
          | Inr (result, warnings) \<Rightarrow> Team_applied E t result warnings)) v"
    proof (rule honest_ask, simp, goal_cases)
      case (1 a)
      show ?case by (intro appends_rules appends_exits)
    next
      case 2
      show ?case
      proof (cases "Team_CreateOrUpdate (atc E) (length (trace v)) cl (teamName_of t) (wanted_team t)")
        case (Inl e)
        then show ?thesis by (simp add: honest_unready unready_exits [OF cond])
      next
        case (Inr w)
        then obtain res ws where w: "Team_CreateOrUpdate (atc E) (length (trace v)) cl (teamName_of t) (wanted_team t) = Inr (res, ws)"
          by (cases w) auto
        let ?P = "\<lambda>x. \<exists>t'. x = OTeam t' \<and> teamName_of t' = teamName_of t \<and> wanted_team t' = wanted_team t \<and>
          TeamStatus_TeamID (Team_Status t') = atcTeam_ID res"
        have "state_io_rel (emits (claims_ready E ?P)) (Team_applied E t res ws)"
          unfolding Team_applied_def by (intro honest_rules) (simp_all add: teamName_of_def wanted_team_def)
        moreover have "backed E b (trace v @ [?c]) x" if "?P x" for x
          using that w made_last [of b "trace v" ?c, OF bv] by auto blast
        ultimately show ?thesis by (simp add: w honest_backed [where P = ?P])
      qed
    qed
    then show ?thesis by (simp add: Inr Let_def teamName_of_def wanted_team_def default_name_def)
  qed
qed

text \<open>The build: its id was given by Concourse now, or it is the one the object had.\<close>

lemma triggerIfNew_backing:
  assumes run: "run_state (triggerIfNew E cl tn pn jn (Build_Status x)) u = (Inr st, v)" and b: "b \<le> length (trace u)"
    and read: "made b (trace u) n (KGet KBuild k)" "Get_Build (k8s E) n k = Inr x"
    and id: "BuildStatus_BuildID (Build_Status y) = BuildStatus_BuildID st"
  shows "backed E b (trace v) (OBuild y)"
proof (cases "has_id x")
  case True
  with run have "st = Build_Status x" "trace v = trace u" by (simp_all add: triggerIfNew_def)
  with read True id show ?thesis by auto blast
next
  case False
  let ?c = "TCreateJobBuild cl tn \<lparr>PipelineRef_Name = pn\<rparr> jn"
  from run False obtain ab where "trace v = trace u @ [?c]" "BuildStatus_BuildID st = atcBuild_ID ab"
    "Team_CreateJobBuild (atc E) (length (trace u)) cl tn \<lparr>PipelineRef_Name = pn\<rparr> jn = Inr ab"
    by (auto simp: triggerIfNew_def run_simps Let_def split: sum.splits if_splits)
  with id made_last [of b "trace u" ?c, OF b] show ?thesis by auto blast
qed

lemma refreshStatus_keeps_id:
  assumes "st' \<in> set_state (refreshStatus E cl st)"
  shows "BuildStatus_BuildID st' = BuildStatus_BuildID st"
proof -
  have "returns (\<lambda>st'. BuildStatus_BuildID st' = BuildStatus_BuildID st) (refreshStatus E cl st)"
    unfolding refreshStatus_def Let_def by (intro returns_rules) (simp_all split: option.split)
  from returns_set_state [OF this assms] show ?thesis .
qed

lemma Build_stages_claim_nothing:
  "state_io_rel (emits (claims_ready E P)) (startWatcher E cl y)"
  "state_io_rel (emits (claims_ready E P)) (abortIfAsked E cl spec st)"
  "state_io_rel (emits (claims_ready E P)) (refreshStatus E cl st)"
  "state_io_rel (emits (claims_ready E P)) (setComplete E st)"
  unfolding startWatcher_def abortIfAsked_def refreshStatus_def setComplete_def
  by (intro honest_rules em.effect_modify; simp add: emits_def)+

lemma honest_Build_track:
  assumes cond: "condition_laws (lib E)" and b: "b \<le> length (trace u)"
    and read: "made b (trace u) n (KGet KBuild k)" "Get_Build (k8s E) n k = Inr x"
  shows "honest E b (Build_track E cl tn pn jn x) u"
  unfolding Build_track_def
proof (rule honest_bind, goal_cases)
  case 1
  show ?case unfolding triggerIfNew_def by (intro honest_rules) simp_all
next
  case (2 a)
  show ?case
    unfolding abortIfAsked_def refreshStatus_def setComplete_def
    by (intro appends_rules appends_exits appends_startWatcher; simp)
next
  case (3 a v cs)
  show ?case
  proof (cases a)
    case (Inl e)
    then show ?thesis by (simp add: honest_unready unready_exits [OF cond])
  next
    case (Inr st)
    let ?P = "\<lambda>z. \<exists>y. z = OBuild y \<and> BuildStatus_BuildID (Build_Status y) = BuildStatus_BuildID st"
    show ?thesis
      unfolding Inr sum.case
    proof (rule honest_backed [where P = ?P], goal_cases)
      case 1
      show ?case
        by (intro honest_rules Build_stages_claim_nothing) (simp_all add: setDuration_fields refreshStatus_keeps_id)
    next
      case (2 x)
      then show ?case using triggerIfNew_backing [OF 3(1) [unfolded Inr] b read] by blast
    qed
  qed
qed

text \<open>The pipeline: the configuration was accepted now, or it is the one the object's status records.\<close>

lemma quiet_loadPipelineConfig: "state_io_rel (emits (\<lambda>c. status_sent c = [])) (loadPipelineConfig E p)"
  unfolding loadPipelineConfig_def by (intro honest_rules; simp)

lemma loaded_config_text:
  assumes run: "run_state (loadPipelineConfig E p) s = (Inr y, u)" and b: "b \<le> length (trace s)"
  shows "config_text E b (trace u) p y"
proof (cases "PipelineConfig_Inline (PipelineSpec_Config (Pipeline_Spec p)) = ''''")
  case False
  with run show ?thesis by (auto simp: loadPipelineConfig_def config_text_def Let_def run_simps)
next
  case True
  with run obtain ref where ref: "PipelineConfig_ConfigMapRef (PipelineSpec_Config (Pipeline_Spec p)) = Some ref"
    by (cases "PipelineConfig_ConfigMapRef (PipelineSpec_Config (Pipeline_Spec p))")
       (auto simp: loadPipelineConfig_def Let_def run_simps)
  let ?k = "\<lparr>key_Namespace = Namespace (Pipeline_ObjectMeta p), key_Name = ConfigMapKeyRef_Name ref\<rparr>"
  from run True ref obtain data where "trace u = trace s @ [KGet KConfigMap ?k]"
    "Get_ConfigMap (k8s E) (length (trace s)) ?k = Inr data" "data (ConfigMapKeyRef_Key ref) = Some y"
    by (auto simp: loadPipelineConfig_def Let_def run_simps split: sum.splits option.splits)
  with True ref made_last [OF b, of "KGet KConfigMap ?k"] show ?thesis
    unfolding config_text_def by (auto simp: Let_def)
qed

lemma ask_made:
  assumes run: "run_state (State_Monad.bind (ask c g) f) s = (a, u)" and "\<And>a. appends (f a)" and b: "b \<le> length (trace s)"
  shows "made b (trace u) (length (trace s)) c"
proof -
  from run_appends [OF assms(2), of "g (length (trace s))" "s\<lparr>trace := trace s @ [c]\<rparr>"] run
  obtain ds where "trace u = (trace s @ [c]) @ ds" by (auto simp: run_simps)
  with made_append [OF made_last [OF b]] show ?thesis by metis
qed

lemma config_text_same_object:
  "Pipeline_Spec q = Pipeline_Spec p \<Longrightarrow> Pipeline_ObjectMeta q = Pipeline_ObjectMeta p \<Longrightarrow>
     config_text E b tr q y = config_text E b tr p y"
  by (simp add: config_text_def)

lemma later_stages_keep_hash:
  assumes "st1 \<in> set_state (syncPause E cl tn ref b1 st)" and "st2 \<in> set_state (syncExpose E cl tn ref b2 st1)"
    and "st3 \<in> set_state (fetchMetadata E cl tn ref st2)"
  shows "PipelineStatus_ConfigHash st3 = PipelineStatus_ConfigHash st"
proof -
  have "returns (\<lambda>st3. PipelineStatus_ConfigHash st3 = PipelineStatus_ConfigHash st2) (fetchMetadata E cl tn ref st2)"
    unfolding fetchMetadata_def Let_def by (intro returns_rules) simp_all
  from returns_set_state [OF this assms(3)] hash_syncPause [OF assms(1)] hash_syncExpose [OF assms(2)] show ?thesis by simp
qed

text \<open>What the upload leaves behind when it returns a status.\<close>

lemma applyConfig_backing:
  assumes run: "run_state (applyConfig E cl tn (pipelineName_of p) y (Pipeline_Status p)) s = (Inr st, u)"
    and b: "b \<le> length (trace s)"
    and src: "config_text E b (trace s) p y" and answered: "pipeline_answered E b (trace s) p"
    and same: "Pipeline_Spec z = Pipeline_Spec p" "Pipeline_ObjectMeta z = Pipeline_ObjectMeta p"
    and hash: "PipelineStatus_ConfigHash (Pipeline_Status z) = sha256_hex y"
  shows "backed E b (trace u) (OPipeline z)"
proof -
  let ?c = "TCreateOrUpdatePipelineConfig cl tn \<lparr>PipelineRef_Name = pipelineName_of p\<rparr> '''' y False"
  let ?g = "\<lambda>n. Team_CreateOrUpdatePipelineConfig (atc E) n cl tn \<lparr>PipelineRef_Name = pipelineName_of p\<rparr> '''' y False"
  from run_appends [OF appends_applyConfig] run obtain cs where u: "trace u = trace s @ cs" by (metis snd_conv)
  have text': "config_text E b (trace u) z y"
    using src unfolding u config_text_same_object [OF same] by (rule config_text_append)
  have name: "pipelineName_of z = pipelineName_of p" by (simp add: pipelineName_of_def same)
  show ?thesis
  proof (cases "needs_upload (Pipeline_Status p) (sha256_hex y)")
    case True
    have "made b (trace u) (length (trace s)) ?c"
      by (rule ask_made [OF run [unfolded applyConfig_def Let_def if_P [OF True]] _ b]) (intro appends_rules; simp)
    moreover from run True obtain ws where "?g (length (trace s)) = Inr ws"
      by (cases "?g (length (trace s))") (auto simp: applyConfig_def Let_def run_simps)
    ultimately show ?thesis using text' hash name by auto blast
  next
    case False
    then have "PipelineStatus_ConfigHash (Pipeline_Status p) = sha256_hex y" "PipelineStatus_PipelineID (Pipeline_Status p) \<noteq> 0"
      by (simp_all add: needs_upload_def)
    with text' hash pipeline_answered_append [OF answered, of cs] u same show ?thesis by auto
  qed
qed

lemma honest_Pipeline_sync:
  assumes cond: "condition_laws (lib E)" and b: "b \<le> length (trace s)"
    and src: "config_text E b (trace s) p y" and answered: "pipeline_answered E b (trace s) p"
  shows "honest E b (Pipeline_sync E cl tn (pipelineName_of p) y p) s"
  unfolding Pipeline_sync_def
proof (rule honest_bind, goal_cases)
  case 1
  show ?case unfolding applyConfig_def by (intro honest_rules; simp)
next
  case (2 a)
  show ?case
    unfolding syncPause_def syncExpose_def fetchMetadata_def by (intro appends_rules appends_exits; simp)
next
  case (3 a u cs)
  show ?case
  proof (cases a)
    case (Inl e)
    then show ?thesis by (simp add: honest_unready unready_exits [OF cond])
  next
    case (Inr st)
    let ?P = "\<lambda>x. \<exists>z. x = OPipeline z \<and> Pipeline_Spec z = Pipeline_Spec p \<and> Pipeline_ObjectMeta z = Pipeline_ObjectMeta p \<and>
      PipelineStatus_ConfigHash (Pipeline_Status z) = sha256_hex y"
    have hash: "PipelineStatus_ConfigHash st = sha256_hex y"
      using 3(1) Inr by (intro hash_applyConfig [of _ E cl tn "pipelineName_of p" y "Pipeline_Status p"]) (auto simp: set_state_iff)
    have stages: "state_io_rel (emits (claims_ready E ?P)) (syncPause E cl tn ref v st)"
      "state_io_rel (emits (claims_ready E ?P)) (syncExpose E cl tn ref v st)"
      "state_io_rel (emits (claims_ready E ?P)) (fetchMetadata E cl tn ref st)" for ref v st
      unfolding syncPause_def syncExpose_def fetchMetadata_def by (intro honest_rules; simp)+
    show ?thesis
      unfolding Inr sum.case
    proof (rule honest_backed [where P = ?P], goal_cases)
      case 1
      show ?case by (intro honest_rules stages) (simp_all add: later_stages_keep_hash hash)
    next
      case (2 x)
      then show ?case using applyConfig_backing [OF _ b src answered, of cl tn st u] 3(1) Inr by blast
    qed
  qed
qed

lemma appends_Pipeline_sync: "appends (Pipeline_sync E cl tn pn y p)"
  unfolding Pipeline_sync_def applyConfig_def syncPause_def syncExpose_def fetchMetadata_def
  by (intro appends_rules appends_exits; simp)

lemma honest_Pipeline_apply:
  assumes cond: "condition_laws (lib E)" and b: "b \<le> length (trace s)" and answered: "pipeline_answered E b (trace s) p"
  shows "honest E b (Pipeline_apply E p) s"
  unfolding Pipeline_apply_def
proof (rule honest_bind [OF quiet_resolvers(2)], goal_cases)
  case (1 a)
  show ?case
    unfolding loadPipelineConfig_def by (intro appends_rules appends_exits appends_Pipeline_sync; simp)
next
  case (2 a u cs)
  then have bu: "b \<le> length (trace u)" and answered_u: "pipeline_answered E b (trace u) p"
    using b pipeline_answered_append [OF answered] by simp_all
  show ?case
  proof (cases a)
    case (Inl e)
    then show ?thesis by (simp add: honest_unready unready_exits [OF cond])
  next
    case (Inr w)
    obtain cl tn where w: "w = (cl, tn)" by (cases w)
    have "honest E b (State_Monad.bind (loadPipelineConfig E p) (\<lambda>y. case y of
         Inl err \<Rightarrow> Pipeline_not_ready E p ''ConfigLoadFailed'' err
       | Inr yamlBytes \<Rightarrow> Pipeline_sync E cl tn (pipelineName_of p) yamlBytes p)) u"
    proof (rule honest_bind [OF quiet_loadPipelineConfig], goal_cases)
      case (1 a)
      show ?case by (intro appends_rules appends_exits appends_Pipeline_sync)
    next
      case (2 r v ds)
      show ?case
      proof (cases r)
        case (Inl e)
        then show ?thesis by (simp add: honest_unready unready_exits [OF cond])
      next
        case (Inr y)
        have "b \<le> length (trace v)" "pipeline_answered E b (trace v) p"
          using 2(2) bu pipeline_answered_append [OF answered_u] by simp_all
        moreover have "config_text E b (trace v) p y" using 2(1) Inr bu by (intro loaded_config_text) simp_all
        ultimately show ?thesis by (simp add: Inr honest_Pipeline_sync [OF cond])
      qed
    qed
    then show ?thesis unfolding Inr w Let_def sum.case prod.case pipelineName_of_def default_name_def .
  qed
qed

subsection \<open>The four controllers\<close>

lemma honest_finalized:
  assumes "status_sent c = []" and k: "\<And>z. appends (k z)"
    and kept: "\<And>u. trace u = trace s \<Longrightarrow> honest E b (k y) u"
    and added: "\<And>u z. trace u = trace s @ [c] \<Longrightarrow> g (length (trace s)) = Inr z \<Longrightarrow> honest E b (k z) u"
  shows "honest E b (State_Monad.bind (if t then ask c g else State_Monad.return (Inr y))
           (\<lambda>f. case f of Inl e \<Rightarrow> State_Monad.return (r e) | Inr z \<Rightarrow> k z)) s"
proof (rule honest_bind, goal_cases)
  case 1
  show ?case by (intro honest_rules) (simp_all add: assms(1))
next
  case (2 a)
  show ?case by (intro appends_rules k)
next
  case (3 a u cs)
  then show ?case
    by (cases a) (auto simp: run_simps honest_return kept added split: if_splits)
qed

lemma appends_applies:
  "appends (Instance_apply E i)" "appends (Team_apply E t)" "appends (Pipeline_apply E p)"
  "appends (Build_track E cl tn pn jn x)"
proof -
  show "appends (Instance_apply E i)" "appends (Team_apply E t)"
    unfolding Instance_apply_def Team_apply_def by (intro appends_rules appends_exits; simp)+
  show "appends (Pipeline_apply E p)"
    unfolding Pipeline_apply_def loadPipelineConfig_def by (intro appends_rules appends_exits appends_Pipeline_sync; simp)
  show "appends (Build_track E cl tn pn jn x)"
    unfolding Build_track_def triggerIfNew_def abortIfAsked_def refreshStatus_def setComplete_def
    by (intro appends_rules appends_exits appends_startWatcher; simp)
qed

lemma emits_Evict: "state_io_rel (emits P) (Evict i)"
  unfolding Evict_def by (rule em.effect_modify) (simp add: emits_def)

lemma emits_deletions:
  "state_io_rel (emits (claims_ready E P)) (deleteTeam E t)"
  "state_io_rel (emits (claims_ready E P)) (deletePipeline E p)"
  unfolding deleteTeam_def deletePipeline_def by (intro honest_rules; simp)+

lemma honest_Instance_Reconcile:
  assumes cond: "condition_laws (lib E)"
  shows "honest E (length (trace s)) (Instance_Reconcile E req) s"
  unfolding Instance_Reconcile_def
proof (rule honest_ask, simp, goal_cases)
  case (1 a)
  show ?case by (intro appends_rules appends_applies appends_Evict; simp)
next
  case 2
  show ?case
    unfolding Let_def
    apply (intro honest_branches honest_finalized honest_return honest_Instance_apply [OF cond] appends_applies)
    apply (simp_all)
    apply (rule honest_unready, intro honest_rules emits_Evict; simp)
    done
qed

lemma honest_Team_Reconcile:
  assumes cond: "condition_laws (lib E)"
  shows "honest E (length (trace s)) (Team_Reconcile E req) s"
  unfolding Team_Reconcile_def
proof (rule honest_ask, simp, goal_cases)
  case (1 a)
  show ?case unfolding deleteTeam_def by (intro appends_rules appends_applies; simp)
next
  case 2
  show ?case
    unfolding Let_def
    apply (intro honest_branches honest_finalized honest_return honest_Team_apply [OF cond] appends_applies)
    apply (simp_all)
    apply (rule honest_unready, intro honest_rules emits_deletions; simp)
    done
qed

lemma pipeline_answered_read:
  "b \<le> length tr \<Longrightarrow> Get_Pipeline (k8s E) (length tr) k = Inr p \<Longrightarrow> pipeline_answered E b (tr @ [KGet KPipeline k]) p"
  "b \<le> length tr \<Longrightarrow> Update_Pipeline (k8s E) (length tr) q = Inr p \<Longrightarrow> pipeline_answered E b (tr @ [KUpdate (OPipeline q)]) p"
  "b \<le> length tr \<Longrightarrow> Update_Pipeline (k8s E) (Suc (length tr)) q = Inr p \<Longrightarrow> pipeline_answered E b (tr @ [c, KUpdate (OPipeline q)]) p"
  unfolding pipeline_answered_def using made_last [of b "tr @ [c]"] by (auto dest: made_last) (blast dest: made_last)+

lemma honest_Pipeline_Reconcile:
  assumes cond: "condition_laws (lib E)"
  shows "honest E (length (trace s)) (Pipeline_Reconcile E req) s"
  unfolding Pipeline_Reconcile_def
proof (rule honest_ask, simp, goal_cases)
  case (1 a)
  show ?case unfolding deletePipeline_def by (intro appends_rules appends_applies; simp)
next
  case 2
  show ?case
    unfolding Let_def
    apply (intro honest_branches honest_finalized honest_return honest_Pipeline_apply [OF cond] appends_applies)
    apply (simp_all add: pipeline_answered_read)
    apply (rule honest_unready, intro honest_rules emits_deletions; simp)
    done
qed

lemma honest_Build_resolved:
  assumes cond: "condition_laws (lib E)" and get: "Get_Build (k8s E) b req = Inr x"
    and u: "trace u = tr @ KGet KBuild req # cs" "length tr = b"
  shows "honest E b (State_Monad.bind (resolveClientForJob E job) (\<lambda>c. case c of
      Inl err \<Rightarrow> Build_not_ready E x ''ChainNotReady'' (Error err) (Requeue (30 * Second))
    | Inr (cl, teamName, pipelineName) \<Rightarrow>
        let jobName = JobSpec_JobName (Job_Spec job);
            jobName = (if jobName = '''' then Name (Job_ObjectMeta job) else jobName)
        in Build_track E cl teamName pipelineName jobName x)) u"
proof (rule honest_bind [OF quiet_resolvers(3)], goal_cases)
  case (1 a)
  show ?case by (intro appends_rules appends_applies appends_exits)
next
  case (2 a v ds)
  have "made b (trace v) b (KGet KBuild req)" "b \<le> length (trace v)"
    using 2(2) u by (simp_all add: made_def nth_append)
  then show ?case
    unfolding Let_def
    by (intro honest_branches honest_Build_track [OF cond _ _ get] honest_unready [OF unready_exits(5) [OF cond]])
qed

lemma honest_Build_Reconcile:
  assumes cond: "condition_laws (lib E)"
  shows "honest E (length (trace s)) (Build_Reconcile E req) s"
  unfolding Build_Reconcile_def
proof (rule honest_ask, simp, goal_cases)
  case (1 a)
  show ?case by (intro appends_rules appends_applies appends_exits; simp)
next
  case 2
  let ?b = "length (trace s)"
  show ?case
  proof (intro honest_branches honest_return honest_unready [OF unready_exits(5) [OF cond]], goal_cases)
    case (1 x jobRef)
    show ?case
      unfolding Let_def
    proof (rule honest_ask, simp, goal_cases)
      case (1 a)
      show ?case by (intro appends_rules appends_applies appends_exits; simp)
    next
      case 2
      show ?case
        using honest_Build_resolved [OF cond \<open>Get_Build (k8s E) ?b req = Inr x\<close>, unfolded Let_def]
        by (intro honest_branches honest_return) simp
    qed
  qed
qed

subsection \<open>The property\<close>

text \<open>
  C6: nobody is told Ready without reason: whenever a reconciliation by the instance, team, pipeline or
  build controller sends a status with Ready True, what it says was answered before, in the same
  reconciliation: the instance shows the version and URL its server gave; the team was accepted under the
  shown id with exactly the auth the spec asks for; the configuration whose hash the pipeline shows is the
  one the spec gives, and Concourse accepted it now or the object already recorded that it had; the
  build's id is one Concourse gave now or one the object already had.
\<close>

theorem ready_is_backed:
  assumes "condition_laws (lib E)" and "ctl \<in> {Ctl_Instance, Ctl_Team, Ctl_Pipeline, Ctl_Build}"
    and "calls (dispatch E ctl req) s = pre @ KStatusUpdate x # post" and "object_ready E x"
  shows "backed E (length (trace s)) (trace s @ pre) x"
proof -
  have "honest E (length (trace s)) (dispatch E ctl req) s"
    using assms(2) honest_Instance_Reconcile [OF assms(1)] honest_Team_Reconcile [OF assms(1)]
      honest_Pipeline_Reconcile [OF assms(1)] honest_Build_Reconcile [OF assms(1)] by auto
  moreover have "trace (snd (run_state (dispatch E ctl req) s)) = trace s @ pre @ KStatusUpdate x # post"
    using after_appends [of E ctl req s] assms(3) by (auto simp: after_def calls_def)
  ultimately show ?thesis using assms(4) unfolding honest_def by blast
qed

lemma ex_instance_calls:
  "calls (dispatch ex_growing Ctl_Instance (ex_key ''ci'')) op_init = [KGet KInstance (ex_key ''ci''),
     ex_get KSecret ''cred'', CGetInfo ex_cl, CListWorkers ex_cl, Clock, Clock, Clock] @
     KStatusUpdate (OInstance ex_up_instance) # []"
  using ex_instance_run [THEN conjunct1] unfolding after_def calls_def by simp

theorem ready_is_backed_witness:
  "object_ready ex_growing (OInstance ex_up_instance) \<and>
   backed ex_growing 0 [KGet KInstance (ex_key ''ci''), ex_get KSecret ''cred'', CGetInfo ex_cl, CListWorkers ex_cl,
     Clock, Clock, Clock] (OInstance ex_up_instance)"
  using ready_is_backed [OF _ _ ex_instance_calls] ex_ups_ready(1) by simp

end
