(* ===== verification/Leaves.thy ===== *)
theory Leaves
  imports Readiness
begin

section \<open>The leaves of the chain\<close>

text \<open>
  Workers rest on their instance, resources on their pipeline and its ancestors, builds on their job's. Their
  reconciliations, too, end by reporting Ready once what they rest on is up; a build is excused when it was read
  finished, because a finished build is not touched any more.
\<close>

subsection \<open>What follows the resolution ends well\<close>

lemma ends_Worker_track:
  assumes "condition_laws (lib E)"
  shows "ends_ready E N (KWorker, key_of (Worker_ObjectMeta w)) (Worker_track E cl w)"
proof -
  have "appends (applyDesiredState E cl spec)" for spec
    unfolding applyDesiredState_def by (intro appends_rules; simp)
  then show ?thesis
    unfolding Worker_track_def
    by (intro ends_ready_bind ends_ready_branches ends_ready_last kp.effect_rules appends_rules copyFirstWorker_effects(1))
       (auto dest: ready_setCondition [OF assms] simp: Let_def)
qed

lemma ends_Resource_track:
  assumes "condition_laws (lib E)"
  shows "ends_ready E N (KResource, key_of (Resource_ObjectMeta r)) (Resource_track E cl tn p r)"
proof -
  have "appends (checkResource E cl tn pn rn r)" "appends (fetchLatestVersion E cl tn pn rn st)" for pn rn st
    unfolding checkResource_def fetchLatestVersion_def shouldCheck_def by (intro appends_rules; simp)+
  then show ?thesis
    unfolding Resource_track_def
    by (intro ends_ready_bind ends_ready_branches ends_ready_last kp.effect_rules appends_rules)
       (auto dest: ready_setCondition [OF assms] simp: Let_def)
qed

lemma ends_Build_track:
  assumes "condition_laws (lib E)"
    and accepted: "\<And>n r jn. n \<ge> N \<Longrightarrow> \<exists>x. Team_CreateJobBuild (atc E) n cl tn r jn = Inr x"
  shows "ends_ready E N (KBuild, key_of (Build_ObjectMeta b)) (Build_track E cl tn pn jn b)"
proof -
  have stages: "appends (triggerIfNew E cl tn pn jn st)" "appends (abortIfAsked E cl spec st)"
      "appends (refreshStatus E cl st)" "appends (setComplete E st)" for st spec
    unfolding triggerIfNew_def abortIfAsked_def refreshStatus_def setComplete_def by (intro appends_rules; simp)+
  have started: "Inl err \<notin> late N (triggerIfNew E cl tn pn jn st)" for err st
  proof
    assume "Inl err \<in> late N (triggerIfNew E cl tn pn jn st)"
    then obtain s u where N: "N \<le> length (trace s)" and run: "run_state (triggerIfNew E cl tn pn jn st) s = (Inl err, u)"
      by (auto simp: late_def)
    with accepted [OF N, of "\<lparr>PipelineRef_Name = pn\<rparr>" jn] show False
      by (auto simp: triggerIfNew_def run_simps Let_def split: if_splits)
  qed
  have watch: "state_io_rel (keeps trace) (startWatcher E cl y)" for y
    unfolding startWatcher_def by (intro kp.effect_rules kp.effect_modify) (simp add: keeps_def claimWatcher_def Let_def)
  show ?thesis
    unfolding Build_track_def
    by (intro ends_ready_bind ends_ready_branches ends_ready_last kp.effect_rules appends_rules stages watch)
       (auto dest: ready_setCondition [OF assms(1)] simp: Let_def started)
qed

subsection \<open>The leaves as declared\<close>

text \<open>As for the chain: the object is there from the \<open>N\<close>-th interaction on, and refers to its parent.\<close>

definition worker_declared :: "'cl env \<Rightarrow> nat \<Rightarrow> Instance \<Rightarrow> Worker \<Rightarrow> bool" where
  "worker_declared E N i w \<longleftrightarrow>
     key_of (Instance_ObjectMeta i) = \<lparr>key_Namespace = Namespace (Worker_ObjectMeta w),
       key_Name = LocalObjectReference_Name (WorkerSpec_InstanceRef (Worker_Spec w))\<rparr> \<and>
     (\<forall>n \<ge> N. \<exists>y. Get_Worker (k8s E) n (key_of (Worker_ObjectMeta w)) = Inr y \<and>
        Worker_Spec y = Worker_Spec w \<and> IsZero (lib E) (DeletionTimestamp (Worker_ObjectMeta y)))"

definition resource_declared :: "'cl env \<Rightarrow> nat \<Rightarrow> Pipeline \<Rightarrow> Resource \<Rightarrow> bool" where
  "resource_declared E N p r \<longleftrightarrow>
     key_of (Pipeline_ObjectMeta p) = \<lparr>key_Namespace = Namespace (Resource_ObjectMeta r),
       key_Name = LocalObjectReference_Name (ResourceSpec_PipelineRef (Resource_Spec r))\<rparr> \<and>
     (\<forall>n \<ge> N. \<exists>y. Get_Resource (k8s E) n (key_of (Resource_ObjectMeta r)) = Inr y \<and>
        Resource_Spec y = Resource_Spec r \<and> IsZero (lib E) (DeletionTimestamp (Resource_ObjectMeta y)))"

definition build_declared :: "'cl env \<Rightarrow> nat \<Rightarrow> Job \<Rightarrow> Build \<Rightarrow> bool" where
  "build_declared E N j b \<longleftrightarrow>
     (\<exists>ref. BuildSpec_JobRef (Build_Spec b) = Some ref \<and> key_of (Job_ObjectMeta j) =
        \<lparr>key_Namespace = Namespace (Build_ObjectMeta b), key_Name = LocalObjectReference_Name ref\<rparr>) \<and>
     (\<forall>n \<ge> N. \<exists>y. Get_Build (k8s E) n (key_of (Build_ObjectMeta b)) = Inr y \<and>
        Build_Spec y = Build_Spec b \<and> IsZero (lib E) (DeletionTimestamp (Build_ObjectMeta y))) \<and>
     (\<forall>n \<ge> N. \<forall>cl tn r jn. \<exists>x. Team_CreateJobBuild (atc E) n cl tn r jn = Inr x)"

text \<open>A read since the \<open>N\<close>-th interaction showed the build finished.\<close>

definition build_finished :: "'cl env \<Rightarrow> nat \<Rightarrow> ObjectKey \<Rightarrow> 'cl call list \<Rightarrow> bool" where
  "build_finished E N k tr \<longleftrightarrow>
     (\<exists>n y. made N tr n (KGet KBuild k) \<and> Get_Build (k8s E) n k = Inr y \<and>
        isTerminal (BuildStatus_ConcourseStatus (Build_Status y)))"

lemma reads_first_ask: "reads_first k key (ask (KGet k key) f)"
  by (simp add: reads_first_def run_simps)

lemma Worker_link:
  assumes chain: "chain E N i t p j" and N: "N \<le> length (trace s)"
    and w: "worker_declared E N i w" and up: "up E (KInstance, key_of (Instance_ObjectMeta i)) s"
    and fresh: "fresh E (trace (after E Ctl_Worker (key_of (Worker_ObjectMeta w)) s))"
  shows "ended E (KWorker, key_of (Worker_ObjectMeta w)) s (after E Ctl_Worker (key_of (Worker_ObjectMeta w)) s)"
proof -
  let ?k = "key_of (Worker_ObjectMeta w)" and ?ki = "key_of (Instance_ObjectMeta i)"
  let ?u = "s\<lparr>trace := trace s @ [KGet KWorker ?k]\<rparr>"
  from w N obtain y where y: "Get_Worker (k8s E) (length (trace s)) ?k = Inr y" "Worker_Spec y = Worker_Spec w"
    "IsZero (lib E) (DeletionTimestamp (Worker_ObjectMeta y))" unfolding worker_declared_def by blast
  have key: "key_of (Worker_ObjectMeta y) = ?k" by (rule keyed_get(7) [OF chain_parts(2) [OF chain] y(1)])
  with w y(2) have ref: "\<lparr>key_Namespace = Namespace (Worker_ObjectMeta y),
      key_Name = LocalObjectReference_Name (WorkerSpec_InstanceRef (Worker_Spec y))\<rparr> = ?ki"
    by (auto simp: worker_declared_def key_of_def)
  let ?get = "ask (KGet KInstance ?ki) (\<lambda>n. Get_Instance (k8s E) n ?ki)"
  define rest where "rest = (\<lambda>x. case x of
      Inl err \<Rightarrow> State_Monad.return (Result0, IgnoreNotFound (lib E) err)
    | Inr instance \<Rightarrow>
        if \<not> isReady E (InstanceStatus_Conditions (Instance_Status instance))
        then Worker_not_ready E y ''InstanceNotReady'' ''instance is not ready''
        else do {
          c \<leftarrow> GetOrBuild E instance;
          case c of
            Inl err \<Rightarrow> Worker_not_ready E y ''ClientFailed'' (Error err)
          | Inr cl \<Rightarrow> Worker_track E cl y
        })"
  have tracked: "appends (Worker_track E cl y)" for cl
    unfolding Worker_track_def applyDesiredState_def by (intro appends_rules copyFirstWorker_effects(1); simp)
  show ?thesis
  proof (rule handler_ends [OF refl _ _ _ N fresh, where m = ?get and rest = rest])
    show "run_state (dispatch E Ctl_Worker ?k) s = run_state (State_Monad.bind ?get rest) ?u"
      using y(1,3) by (simp add: Worker_Reconcile_def run_simps ref Let_def rest_def)
    show "appends ?get" by (rule emits_ask) simp
    show "appends (rest a)" for a
      unfolding rest_def Worker_not_ready_def by (intro appends_rules tracked; simp)
    assume f: "fresh E (trace (snd (run_state ?get ?u)))"
    have N': "N \<le> length (trace ?u)" using N by simp
    from chain N' obtain i' where i': "Get_Instance (k8s E) (length (trace ?u)) ?ki = Inr i'"
      "Instance_Spec i' = Instance_Spec i" "key_of (Instance_ObjectMeta i') = ?ki" by (rule chain_reads) blast
    have "isReady E (InstanceStatus_Conditions (Instance_Status i'))"
      using read_up(1) [OF f reads_first_ask _ i'(1)] up by (simp add: up_trace)
    moreover have "ends_ready E N (KWorker, ?k) (State_Monad.bind (GetOrBuild E i') (\<lambda>c. case c of
        Inl err \<Rightarrow> Worker_not_ready E y ''ClientFailed'' (Error err) | Inr cl \<Rightarrow> Worker_track E cl y))"
      using ends_Worker_track [OF chain_parts(1) [OF chain], of N y]
      by (intro ends_ready_bind ends_ready_branches appends_rules) (auto simp: key late_GetOrBuild [OF chain i'(2,3)])
    ultimately have "ends_ready E N (KWorker, ?k) (rest (Inr i'))" by (simp add: rest_def)
    with i'(1) show "\<exists>a v. run_state ?get ?u = (a, v) \<and> ends_ready E N (KWorker, ?k) (rest a)"
      by (simp add: run_simps)
  qed
qed

lemma Resource_link:
  assumes chain: "chain E N i t p j" and N: "N \<le> length (trace s)" and r: "resource_declared E N p r"
    and up: "up E (KInstance, key_of (Instance_ObjectMeta i)) s" "up E (KTeam, key_of (Team_ObjectMeta t)) s"
      "up E (KPipeline, key_of (Pipeline_ObjectMeta p)) s"
    and fresh: "fresh E (trace (after E Ctl_Resource (key_of (Resource_ObjectMeta r)) s))"
  shows "ended E (KResource, key_of (Resource_ObjectMeta r)) s (after E Ctl_Resource (key_of (Resource_ObjectMeta r)) s)"
proof -
  let ?k = "key_of (Resource_ObjectMeta r)" and ?kp = "key_of (Pipeline_ObjectMeta p)"
  let ?v = "s\<lparr>trace := trace s @ [KGet KResource ?k]\<rparr>"
  let ?u = "s\<lparr>trace := trace s @ [KGet KResource ?k, KGet KPipeline ?kp]\<rparr>"
  from r N obtain y where y: "Get_Resource (k8s E) (length (trace s)) ?k = Inr y" "Resource_Spec y = Resource_Spec r"
    "IsZero (lib E) (DeletionTimestamp (Resource_ObjectMeta y))" unfolding resource_declared_def by blast
  have key: "key_of (Resource_ObjectMeta y) = ?k" by (rule keyed_get(6) [OF chain_parts(2) [OF chain] y(1)])
  with r y(2) have ref: "\<lparr>key_Namespace = Namespace (Resource_ObjectMeta y),
      key_Name = LocalObjectReference_Name (ResourceSpec_PipelineRef (Resource_Spec y))\<rparr> = ?kp"
    by (auto simp: resource_declared_def key_of_def)
  have N': "N \<le> length (trace ?v)" using N by simp
  from chain N' obtain p' where p': "Get_Pipeline (k8s E) (length (trace ?v)) ?kp = Inr p'" "is_pipeline p p'"
    by (rule chain_reads) blast
  define rest where "rest = (\<lambda>q c. case c of
      Inl err \<Rightarrow> Resource_not_ready E y ''ChainNotReady'' (Error err)
    | Inr (cl, teamName) \<Rightarrow> Resource_track E cl teamName q y)"
  define found where "found = (\<lambda>x. case x of
      Inl err \<Rightarrow> State_Monad.return (Result0, IgnoreNotFound (lib E) err)
    | Inr q \<Rightarrow>
        if \<not> isReady E (PipelineStatus_Conditions (Pipeline_Status q))
        then Resource_not_ready E y ''PipelineNotReady'' ''pipeline is not ready''
        else State_Monad.bind (resolveClientForPipeline E q) (rest q))"
  have rests: "appends (rest q a)" for q a
    unfolding rest_def Resource_not_ready_def Resource_track_def checkResource_def fetchLatestVersion_def shouldCheck_def
    by (intro appends_rules; simp)
  have run: "run_state (dispatch E Ctl_Resource ?k) s =
      run_state (State_Monad.bind (ask (KGet KPipeline ?kp) (\<lambda>n. Get_Pipeline (k8s E) n ?kp)) found) ?v"
    unfolding found_def rest_def using y(1,3) by (simp add: Resource_Reconcile_def run_simps ref Let_def)
  have "reads_first KPipeline ?kp (State_Monad.bind (ask (KGet KPipeline ?kp) (\<lambda>n. Get_Pipeline (k8s E) n ?kp)) found)"
    unfolding found_def Resource_not_ready_def by (intro reads_firstI appends_rules rests; simp)
  from read_up(3) [OF _ this _ p'(1)] fresh run up(3)
  have ready: "isReady E (PipelineStatus_Conditions (Pipeline_Status p'))" by (simp add: after_def up_trace)
  show ?thesis
  proof (rule handler_ends [OF refl _ appends_resolvers(2) rests N fresh])
    show "run_state (dispatch E Ctl_Resource ?k) s =
        run_state (State_Monad.bind (resolveClientForPipeline E p') (rest p')) ?u"
      unfolding run using p'(1) ready by (simp add: found_def run_simps)
    assume "fresh E (trace (snd (run_state (resolveClientForPipeline E p') ?u)))"
    from resolvePipeline_up [OF chain _ p'(2) _ _ this] N up(1,2) obtain cl tn v where
      "run_state (resolveClientForPipeline E p') ?u = (Inr (cl, tn), v)"
      using up_trace [of E _ ?v] by (auto simp: up_trace)
    moreover have "ends_ready E N (KResource, ?k) (rest p' (Inr (cl, tn)))"
      using ends_Resource_track [OF chain_parts(1) [OF chain], of N y cl tn p'] by (simp add: rest_def key)
    ultimately show "\<exists>a v. run_state (resolveClientForPipeline E p') ?u = (a, v) \<and>
        ends_ready E N (KResource, ?k) (rest p' a)" by blast
  qed
qed

lemma Build_running_link:
  assumes chain: "chain E N i t p j" and N: "N \<le> length (trace s)" and b: "build_declared E N j b"
    and up: "up E (KInstance, key_of (Instance_ObjectMeta i)) s" "up E (KTeam, key_of (Team_ObjectMeta t)) s"
      "up E (KPipeline, key_of (Pipeline_ObjectMeta p)) s"
    and fresh: "fresh E (trace (after E Ctl_Build (key_of (Build_ObjectMeta b)) s))"
    and y: "Get_Build (k8s E) (length (trace s)) (key_of (Build_ObjectMeta b)) = Inr y" "Build_Spec y = Build_Spec b"
      "IsZero (lib E) (DeletionTimestamp (Build_ObjectMeta y))"
    and running: "\<not> isTerminal (BuildStatus_ConcourseStatus (Build_Status y))"
  shows "ended E (KBuild, key_of (Build_ObjectMeta b)) s (after E Ctl_Build (key_of (Build_ObjectMeta b)) s)"
proof -
  let ?k = "key_of (Build_ObjectMeta b)" and ?kj = "key_of (Job_ObjectMeta j)"
  let ?u = "s\<lparr>trace := trace s @ [KGet KBuild ?k, KGet KJob ?kj]\<rparr>"
  have key: "key_of (Build_ObjectMeta y) = ?k" by (rule keyed_get(5) [OF chain_parts(2) [OF chain] y(1)])
  from b y(2) key obtain ref where ref: "BuildSpec_JobRef (Build_Spec y) = Some ref"
    "\<lparr>key_Namespace = Namespace (Build_ObjectMeta y), key_Name = LocalObjectReference_Name ref\<rparr> = ?kj"
    by (auto simp: build_declared_def key_of_def)
  have "N \<le> Suc (length (trace s))" using N by simp
  with chain obtain j' where j': "Get_Job (k8s E) (Suc (length (trace s))) ?kj = Inr j'" "is_job j j'"
    by (rule chain_reads) blast
  define rest where "rest = (\<lambda>c. case c of
      Inl err \<Rightarrow> Build_not_ready E y ''ChainNotReady'' (Error err) (Requeue (30 * Second))
    | Inr (cl, teamName, pipelineName) \<Rightarrow>
        Build_track E cl teamName pipelineName (if JobSpec_JobName (Job_Spec j') = '''' then Name (Job_ObjectMeta j')
          else JobSpec_JobName (Job_Spec j')) y)"
  have rests: "appends (rest a)" for a
    unfolding rest_def by (intro appends_rules appends_exits appends_applies)
  show ?thesis
  proof (rule handler_ends [OF refl _ appends_resolvers(3) rests N fresh])
    show "run_state (dispatch E Ctl_Build ?k) s = run_state (State_Monad.bind (resolveClientForJob E j') rest) ?u"
      using y(1,3) running j'(1) ref by (simp add: Build_Reconcile_def run_simps Let_def rest_def)
    assume "fresh E (trace (snd (run_state (resolveClientForJob E j') ?u)))"
    moreover have "N \<le> length (trace ?u)" "up E oid ?u = up E oid s" for oid
      using N up_trace [of E oid "s\<lparr>trace := trace s @ [KGet KBuild ?k]\<rparr>"] by (simp_all add: up_trace)
    ultimately obtain cl tn pn v where "run_state (resolveClientForJob E j') ?u = (Inr (cl, tn, pn), v)"
      using resolveJob_up [OF chain _ j'(2)] up by metis
    moreover have "ends_ready E N (KBuild, ?k) (rest (Inr (cl, tn, pn)))"
      unfolding rest_def sum.case prod.case key [symmetric]
      by (rule ends_Build_track [OF chain_parts(1) [OF chain]]) (use b in \<open>unfold build_declared_def, blast\<close>)
    ultimately show "\<exists>a v. run_state (resolveClientForJob E j') ?u = (a, v) \<and> ends_ready E N (KBuild, ?k) (rest a)"
      by blast
  qed
qed

lemma Build_link:
  assumes chain: "chain E N i t p j" and N: "N \<le> length (trace s)" and b: "build_declared E N j b"
    and up: "up E (KInstance, key_of (Instance_ObjectMeta i)) s" "up E (KTeam, key_of (Team_ObjectMeta t)) s"
      "up E (KPipeline, key_of (Pipeline_ObjectMeta p)) s"
    and fresh: "fresh E (trace (after E Ctl_Build (key_of (Build_ObjectMeta b)) s))"
  shows "ended E (KBuild, key_of (Build_ObjectMeta b)) s (after E Ctl_Build (key_of (Build_ObjectMeta b)) s) \<or>
    build_finished E N (key_of (Build_ObjectMeta b)) (trace (after E Ctl_Build (key_of (Build_ObjectMeta b)) s))"
proof -
  let ?k = "key_of (Build_ObjectMeta b)"
  from b N obtain y where y: "Get_Build (k8s E) (length (trace s)) ?k = Inr y" "Build_Spec y = Build_Spec b"
    "IsZero (lib E) (DeletionTimestamp (Build_ObjectMeta y))" unfolding build_declared_def by blast
  show ?thesis
  proof (cases "isTerminal (BuildStatus_ConcourseStatus (Build_Status y))")
    case True
    from after_reads [of E Ctl_Build ?k s] obtain cs where
      "trace (after E Ctl_Build ?k s) = (trace s @ [KGet KBuild ?k]) @ cs" by auto
    with made_append [OF made_last [OF N]] have "made N (trace (after E Ctl_Build ?k s)) (length (trace s)) (KGet KBuild ?k)"
      by metis
    with y(1) True show ?thesis unfolding build_finished_def by blast
  qed (use Build_running_link [OF assms y] in blast)
qed

subsection \<open>All of them\<close>

interpretation wl: link E Ctl_Worker "key_of (Worker_ObjectMeta w)"
    "\<lambda>s. instance_up E N i t p j s \<and> worker_declared E N i w" "\<lambda>_. False"
  for E :: "'cl env" and N :: nat and i :: Instance and t :: Team and p :: Pipeline and j :: Job and w :: Worker
proof (unfold_locales, goal_cases)
  case (1 s)
  then show ?case using tl.below_keyed by blast
next
  case (2 s c r)
  then show ?case using tl.below_stays by blast
next
  case (3 s)
  then show ?case using Worker_link [of E N i t p j s w] by (simp add: instance_up_def chain_from_def)
qed

interpretation rl: link E Ctl_Resource "key_of (Resource_ObjectMeta r)"
    "\<lambda>s. pipeline_up E N i t p j s \<and> resource_declared E N p r" "\<lambda>_. False"
  for E :: "'cl env" and N :: nat and i :: Instance and t :: Team and p :: Pipeline and j :: Job and r :: Resource
proof (unfold_locales, goal_cases)
  case (1 s)
  then show ?case using jl.below_keyed by blast
next
  case (2 s c r)
  then show ?case using jl.below_stays by blast
next
  case (3 s)
  then show ?case using Resource_link [of E N i t p j s r] by (simp add: ups chain_from_def)
qed

lemma build_finished_append: "build_finished E N k tr \<Longrightarrow> build_finished E N k (tr @ cs)"
  unfolding build_finished_def by (blast intro: made_append)

interpretation bl: link E Ctl_Build "key_of (Build_ObjectMeta b)"
    "\<lambda>s. pipeline_up E N i t p j s \<and> build_declared E N j b" "build_finished E N (key_of (Build_ObjectMeta b))"
  for E :: "'cl env" and N :: nat and i :: Instance and t :: Team and p :: Pipeline and j :: Job and b :: Build
proof (unfold_locales, goal_cases)
  case (1 s)
  then show ?case using jl.below_keyed by blast
next
  case (2 s c r)
  then show ?case using jl.below_stays by blast
next
  case (3 s)
  then show ?case using Build_link [of E N i t p j s b] by (simp add: ups chain_from_def)
next
  case (4 tr cs)
  then show ?case by (rule build_finished_append)
qed

text \<open>
  C4: everything comes up and stays up, and recovers from whatever was before. From any state of the process,
  with any earlier failures in its trace, if from then on the objects are there, statuses written are what reads
  show, the instance's credentials can be read, and Concourse answers and accepts, then in every history in
  which the instance, the team and the pipeline are reconciled in that order, with any reconciliations of any
  objects before, between and after, the last status the operator sent for each of the three is Ready; so is
  that of the job, of a resource of the pipeline and of a build of the job if they are reconciled after the
  pipeline, and of a worker reconciled after the instance. The one exception is a build that was read finished:
  it is not touched any more.
\<close>

theorem everything_comes_up:
  assumes chain: "chain E (length (trace s)) i t p j"
    and leaves: "worker_declared E (length (trace s)) i w" "resource_declared E (length (trace s)) p r"
      "build_declared E (length (trace s)) j b"
    and h: "h = h0 @ (Ctl_Instance, key_of (Instance_ObjectMeta i)) # h1 @ (Ctl_Team, key_of (Team_ObjectMeta t)) #
      h2 @ (Ctl_Pipeline, key_of (Pipeline_ObjectMeta p)) # h3"
    and fresh: "fresh E (trace (run_history E h s))"
  shows "up E (KInstance, key_of (Instance_ObjectMeta i)) (run_history E h s) \<and>
    up E (KTeam, key_of (Team_ObjectMeta t)) (run_history E h s) \<and>
    up E (KPipeline, key_of (Pipeline_ObjectMeta p)) (run_history E h s) \<and>
    ((Ctl_Worker, key_of (Worker_ObjectMeta w)) \<in> set (h1 @ h2 @ h3) \<longrightarrow>
       up E (KWorker, key_of (Worker_ObjectMeta w)) (run_history E h s)) \<and>
    ((Ctl_Job, key_of (Job_ObjectMeta j)) \<in> set h3 \<longrightarrow> up E (KJob, key_of (Job_ObjectMeta j)) (run_history E h s)) \<and>
    ((Ctl_Resource, key_of (Resource_ObjectMeta r)) \<in> set h3 \<longrightarrow>
       up E (KResource, key_of (Resource_ObjectMeta r)) (run_history E h s)) \<and>
    ((Ctl_Build, key_of (Build_ObjectMeta b)) \<in> set h3 \<longrightarrow>
       up E (KBuild, key_of (Build_ObjectMeta b)) (run_history E h s) \<or>
       build_finished E (length (trace s)) (key_of (Build_ObjectMeta b)) (trace (run_history E h s)))"
proof -
  let ?N = "length (trace s)"
  define a where "a = h0 @ [(Ctl_Instance, key_of (Instance_ObjectMeta i))]"
  define c where "c = h1 @ [(Ctl_Team, key_of (Team_ObjectMeta t))]"
  define d where "d = h2 @ [(Ctl_Pipeline, key_of (Pipeline_ObjectMeta p))]"
  have h': "h = a @ c @ d @ h3" by (simp add: h a_def c_def d_def)
  note split = run_history_append [symmetric]
  have "chain_from E ?N i t p j s" using chain by (simp add: chain_from_def)
  from il.reached_history [OF this, of h0 "[]"] fresh_history [of E a "c @ d @ h3" s] fresh
  have I: "instance_up E ?N i t p j (run_history E a s)" by (simp add: instance_up_def h' a_def)
  from tl.reached_history [OF I, of h1 "[]"] fresh_history [of E "a @ c" "d @ h3" s] fresh
  have "team_up E ?N i t p j (run_history E (a @ c) s)" by (simp add: team_up_def h' c_def run_history_append)
  from pll.reached_history [OF this, of h2 "[]"] fresh_history [of E "a @ c @ d" h3 s] fresh
  have P: "pipeline_up E ?N i t p j (run_history E (a @ c @ d) s)" by (simp add: pipeline_up_def h' d_def run_history_append)
  have "pipeline_up E ?N i t p j (run_history E h s)"
    using jl.below_history [OF P, of h3] fresh by (simp add: h' run_history_append)
  then have three: "up E (KInstance, key_of (Instance_ObjectMeta i)) (run_history E h s)"
    "up E (KTeam, key_of (Team_ObjectMeta t)) (run_history E h s)"
    "up E (KPipeline, key_of (Pipeline_ObjectMeta p)) (run_history E h s)" by (simp_all add: ups)
  have W: "up E (KWorker, key_of (Worker_ObjectMeta w)) (run_history E h s)"
    if "(Ctl_Worker, key_of (Worker_ObjectMeta w)) \<in> set (h1 @ h2 @ h3)"
  proof -
    from that have "(Ctl_Worker, key_of (Worker_ObjectMeta w)) \<in> set (c @ d @ h3)" by (auto simp: c_def d_def)
    then obtain g g' where "c @ d @ h3 = g @ (Ctl_Worker, key_of (Worker_ObjectMeta w)) # g'" by (meson split_list)
    with wl.reached_history [OF conjI [OF I leaves(1)], of g g'] fresh
    show ?thesis by (simp add: h' run_history_append [of E a])
  qed
  have after_P: "run_history E h s = run_history E h3 (run_history E (a @ c @ d) s)" by (simp add: h' run_history_append)
  have J: "up E (KJob, key_of (Job_ObjectMeta j)) (run_history E h s)" if "(Ctl_Job, key_of (Job_ObjectMeta j)) \<in> set h3"
    using split_list [OF that] jl.reached_history [OF P] fresh unfolding after_P by fastforce
  have R: "up E (KResource, key_of (Resource_ObjectMeta r)) (run_history E h s)"
    if "(Ctl_Resource, key_of (Resource_ObjectMeta r)) \<in> set h3"
    using split_list [OF that] rl.reached_history [OF conjI [OF P leaves(2)]] fresh unfolding after_P by fastforce
  have B: "up E (KBuild, key_of (Build_ObjectMeta b)) (run_history E h s) \<or>
      build_finished E ?N (key_of (Build_ObjectMeta b)) (trace (run_history E h s))"
    if "(Ctl_Build, key_of (Build_ObjectMeta b)) \<in> set h3"
    using split_list [OF that] bl.reached_history [OF conjI [OF P leaves(3)]] fresh unfolding after_P by fastforce
  from three W J R B show ?thesis by blast
qed

subsection \<open>An instance of it\<close>

text \<open>The growing cluster of \<open>Convergence\<close>, with a worker, a resource and a build in it.\<close>

lemma ex_growing_leaves [simp]:
  "Get_Worker ex_growing_k8s n k = Inr (ex_worker\<lparr>Worker_ObjectMeta := ex_named k (ex_meta ''w-1'')\<rparr>)"
  "Get_Resource ex_growing_k8s n k = Inr (ex_resource\<lparr>Resource_ObjectMeta := ex_named k (ex_meta ''repo'')\<rparr>)"
  "Get_Build ex_growing_k8s n k = Inr (ex_build\<lparr>Build_ObjectMeta := ex_named k (ex_meta ''unit-build-1'')\<rparr>)"
  "Status_Worker ex_growing_k8s = Status_Worker ex_k8s" "Status_Resource ex_growing_k8s = Status_Resource ex_k8s"
  "Status_Build ex_growing_k8s = Status_Build ex_k8s"
  by (simp_all add: ex_growing_k8s_def ex_keyed_k8s_def)

lemma ex_leaves_own [simp]:
  "ex_worker\<lparr>Worker_ObjectMeta := ex_meta ''w-1''\<rparr> = ex_worker"
  "ex_resource\<lparr>Resource_ObjectMeta := ex_meta ''repo''\<rparr> = ex_resource"
  "ex_build\<lparr>Build_ObjectMeta := ex_meta ''unit-build-1''\<rparr> = ex_build"
  by (simp_all add: ex_objects)

lemma ex_key_of_meta [simp]: "key_of (ex_meta n) = ex_key n"
  by (simp add: key_of_def)

lemma ex_declared:
  "worker_declared ex_growing 0 ex_instance ex_worker"
  "resource_declared ex_growing 0 ex_pipeline ex_resource"
  "build_declared ex_growing 0 ex_job ex_build"
  by (simp_all add: worker_declared_def resource_declared_def build_declared_def ex_named_def ex_worker_def
      ex_resource_def ex_build_def ex_atc_def)

text \<open>A part of a reconciliation that reads nothing more and sends statuses of one kind of object only.\<close>

fun calm :: "object_kind \<Rightarrow> 'cl call \<Rightarrow> bool" where
  "calm k (KGet k' key) = False"
| "calm k (KStatusUpdate x) = (fst (object_id x) = k)"
| "calm k _ = True"

lemma calm_reads: "list_all (calm k) cs \<Longrightarrow> reads_fresh E tr cs"
  by (rule reads_fresh_none) (auto simp: list_all_iff)

lemma calm_standing: "list_all (calm k) cs \<Longrightarrow> fst oid \<noteq> k \<Longrightarrow> standing oid (tr @ cs) = standing oid tr"
  by (rule standing_other) (auto simp: list_all_iff)

text \<open>The statuses that stand when the pipeline is up.\<close>

definition ex_standing :: "object_kind \<times> ObjectKey \<Rightarrow> k8s_object option" where
  "ex_standing oid =
     (if oid = (KInstance, ex_key ''ci'') then Some (OInstance ex_up_instance)
      else if oid = (KTeam, ex_key ''dev'') then Some (OTeam ex_up_team)
      else if oid = (KPipeline, ex_key ''hello'') then Some (OPipeline ex_up_pipeline) else None)"

definition ex_stage :: "object_kind set \<Rightarrow> ex_client op_state \<Rightarrow> bool" where
  "ex_stage ks s \<longleftrightarrow> fresh ex_growing (trace s) \<and> 26 \<le> length (trace s) \<and>
     Cache_Get (store s) ex_instance = Some ex_cl \<and>
     (\<forall>oid. fst oid \<notin> ks \<longrightarrow> standing oid (trace s) = ex_standing oid)"

lemma ex_stage_next:
  assumes "ex_stage ks s" and "trace u = trace s @ gets @ cs" and "list_all (calm k) cs"
    and "reads_fresh ex_growing (trace s) gets" and "concat (map status_sent gets) = []"
    and "Cache_Get (store u) ex_instance = Some ex_cl"
  shows "ex_stage (insert k ks) u"
  using assms calm_standing [OF assms(3)] calm_reads [OF assms(3)]
  by (auto simp: ex_stage_def fresh_append_iff standing_quiet simp flip: append_assoc)

lemma ex_stage_pipeline: "ex_stage {} (run_history ex_growing
   [(Ctl_Instance, ex_key ''ci''), (Ctl_Team, ex_key ''dev''), (Ctl_Pipeline, ex_key ''hello'')] op_init)"
proof -
  define s1 where "s1 = after ex_growing Ctl_Instance (ex_key ''ci'') op_init"
  define s2 where "s2 = after ex_growing Ctl_Team (ex_key ''dev'') s1"
  define s3 where "s3 = after ex_growing Ctl_Pipeline (ex_key ''hello'') s2"
  note r1 = ex_instance_run [folded s1_def]
  have l1: "length (trace s1) = 8" using r1 by simp
  note r2 = ex_team_run [OF l1 r1 [THEN conjunct2], folded s2_def]
  have l2: "length (trace s2) = 15" using r2 l1 by simp
  note r3 = ex_pipeline_run [OF l2 r2 [THEN conjunct2], folded s3_def]
  have l3: "length (trace s3) = 26" using r3 l2 by simp
  have "fresh ex_growing ([] @ trace s1)"
    unfolding fresh_append_iff using r1 by (simp add: fresh_Nil standing_quiet [of _ _ "[]", simplified])
  then have f1: "fresh ex_growing (trace s1)" by simp
  have st1: "standing oid (trace s1) = (if oid = (KInstance, ex_key ''ci'') then Some (OInstance ex_up_instance) else None)" for oid
    using r1 standing_last [of "trace s1" "OInstance ex_up_instance" oid "[]"] by (auto simp: key_of_def ex_get_def)
  have f2: "fresh ex_growing (trace s2)"
    using f1 r2 by (simp add: fresh_append_iff standing_quiet st1 l1)
  have st2: "standing oid (trace s2) =
      (if oid = (KTeam, ex_key ''dev'') then Some (OTeam ex_up_team) else standing oid (trace s1))" for oid
    using r2 by (auto simp: standing_last)
  have f3: "fresh ex_growing (trace s3)"
    using f2 r3 by (simp add: fresh_append_iff standing_quiet st1 st2 l2)
  have st3: "standing oid (trace s3) =
      (if oid = (KPipeline, ex_key ''hello'') then Some (OPipeline ex_up_pipeline) else standing oid (trace s2))" for oid
    using r3 by (auto simp: standing_last)
  have "standing oid (trace s3) = ex_standing oid" for oid by (simp add: st1 st2 st3 ex_standing_def)
  with f3 l3 r3 [THEN conjunct2] have "ex_stage {} s3" by (simp add: ex_stage_def)
  then show ?thesis by (simp add: s1_def s2_def s3_def)
qed

text \<open>One reconciliation of each leaf.\<close>

lemma ex_standing_simps [simp]:
  "ex_standing (KInstance, ex_key ''ci'') = Some (OInstance ex_up_instance)"
  "ex_standing (KTeam, ex_key ''dev'') = Some (OTeam ex_up_team)"
  "ex_standing (KPipeline, ex_key ''hello'') = Some (OPipeline ex_up_pipeline)"
  "k \<notin> {KInstance, KTeam, KPipeline} \<Longrightarrow> ex_standing (k, key) = None"
  by (simp_all add: ex_standing_def)

lemma ex_worker_run:
  assumes "26 \<le> length (trace s)" and "Cache_Get (store s) ex_instance = Some ex_cl"
  shows "\<exists>cs. trace (after ex_growing Ctl_Worker (ex_key ''w-1'') s) =
      trace s @ [KGet KWorker (ex_key ''w-1''), KGet KInstance (ex_key ''ci'')] @ cs \<and> list_all (calm KWorker) cs \<and>
    Cache_Get (store (after ex_growing Ctl_Worker (ex_key ''w-1'') s)) ex_instance = Some ex_cl"
  using assms
  by (simp add: after_def Worker_Reconcile_def run_simps Let_def Worker_track_def applyDesiredState_def ex_worker_def
      ex_atc_def ex_atc_worker_def copyWorker_def isReady_def WorkerDesiredStateRetire_def WorkerDesiredStateLand_def)

lemma ex_resource_run:
  assumes "26 \<le> length (trace s)" and "Cache_Get (store s) ex_instance = Some ex_cl"
  shows "\<exists>cs. trace (after ex_growing Ctl_Resource (ex_key ''repo'') s) =
      trace s @ [KGet KResource (ex_key ''repo''), KGet KPipeline (ex_key ''hello''), KGet KTeam (ex_key ''dev''),
        KGet KInstance (ex_key ''ci'')] @ cs \<and> list_all (calm KResource) cs \<and>
    Cache_Get (store (after ex_growing Ctl_Resource (ex_key ''repo'') s)) ex_instance = Some ex_cl"
  using assms
  by (simp add: after_def Resource_Reconcile_def resolveClientForPipeline_def resolveInstanceForTeam_def run_simps Let_def
      Resource_track_def checkResource_def shouldCheck_def fetchLatestVersion_def ex_resource_def ex_atc_def isReady_def)

lemma ex_build_run:
  assumes "26 \<le> length (trace s)" and "Cache_Get (store s) ex_instance = Some ex_cl"
  shows "\<exists>cs. trace (after ex_growing Ctl_Build (ex_key ''unit-build-1'') s) =
      trace s @ [KGet KBuild (ex_key ''unit-build-1''), KGet KJob (ex_key ''unit''), KGet KPipeline (ex_key ''hello''),
        KGet KTeam (ex_key ''dev''), KGet KInstance (ex_key ''ci'')] @ cs \<and> list_all (calm KBuild) cs \<and>
    Cache_Get (store (after ex_growing Ctl_Build (ex_key ''unit-build-1'') s)) ex_instance = Some ex_cl"
  using assms
  by (simp add: after_def Build_Reconcile_def resolveClientForJob_def resolveClientForPipeline_def resolveInstanceForTeam_def
      run_simps Let_def Build_track_def triggerIfNew_def abortIfAsked_def refreshStatus_def setComplete_def setDuration_def
      startWatcher_def claimWatcher_def ex_build_def ex_atc_def ex_atc_build_def isReady_def isTerminal_def build_phases)

lemma ex_job_run:
  assumes "26 \<le> length (trace s)" and "Cache_Get (store s) ex_instance = Some ex_cl"
  shows "\<exists>cs. trace (after ex_growing Ctl_Job (ex_key ''unit'') s) =
      trace s @ [KGet KJob (ex_key ''unit''), KGet KPipeline (ex_key ''hello''), KGet KTeam (ex_key ''dev''),
        KGet KInstance (ex_key ''ci'')] @ cs \<and> list_all (calm KJob) cs \<and>
    Cache_Get (store (after ex_growing Ctl_Job (ex_key ''unit'') s)) ex_instance = Some ex_cl"
  using assms
  by (simp add: after_def Job_Reconcile_def resolveClientForJob_def resolveClientForPipeline_def resolveInstanceForTeam_def
      run_simps Let_def Job_track_def syncJobPause_def triggerBuild_def trigger_due_def reportLastBuild_def ex_job_def
      ex_atc_def ex_atc_build_def isReady_def)

lemma ex_stage_leaf:
  assumes "ex_stage ks s" and "\<exists>cs. trace u = trace s @ gets @ cs \<and> list_all (calm k) cs \<and>
      Cache_Get (store u) ex_instance = Some ex_cl"
    and "reads_fresh ex_growing (trace s) gets" and "concat (map status_sent gets) = []"
  shows "ex_stage (insert k ks) u"
  using assms(2) ex_stage_next [OF assms(1) _ _ assms(3,4)] by blast

lemma ex_stages:
  assumes "ex_stage ks s"
  shows "KWorker \<notin> ks \<Longrightarrow> KInstance \<notin> ks \<Longrightarrow> ex_stage (insert KWorker ks) (after ex_growing Ctl_Worker (ex_key ''w-1'') s)"
    and "ks \<inter> {KResource, KPipeline, KTeam, KInstance} = {} \<Longrightarrow>
      ex_stage (insert KResource ks) (after ex_growing Ctl_Resource (ex_key ''repo'') s)"
    and "ks \<inter> {KBuild, KJob, KPipeline, KTeam, KInstance} = {} \<Longrightarrow>
      ex_stage (insert KBuild ks) (after ex_growing Ctl_Build (ex_key ''unit-build-1'') s)"
    and "ks \<inter> {KJob, KPipeline, KTeam, KInstance} = {} \<Longrightarrow>
      ex_stage (insert KJob ks) (after ex_growing Ctl_Job (ex_key ''unit'') s)"
proof -
  from assms have s: "26 \<le> length (trace s)" "Cache_Get (store s) ex_instance = Some ex_cl"
    and st: "\<And>k key. k \<notin> ks \<Longrightarrow> standing (k, key) (trace s) = ex_standing (k, key)"
    by (simp_all add: ex_stage_def)
  note quiet = standing_quiet
  show "ex_stage (insert KWorker ks) (after ex_growing Ctl_Worker (ex_key ''w-1'') s)" if "KWorker \<notin> ks" "KInstance \<notin> ks"
    using that s by (intro ex_stage_leaf [OF assms ex_worker_run [OF s]]) (simp_all add: quiet st)
  show "ex_stage (insert KResource ks) (after ex_growing Ctl_Resource (ex_key ''repo'') s)"
    if "ks \<inter> {KResource, KPipeline, KTeam, KInstance} = {}"
    using that s by (intro ex_stage_leaf [OF assms ex_resource_run [OF s]]) (simp_all add: quiet st)
  show "ex_stage (insert KBuild ks) (after ex_growing Ctl_Build (ex_key ''unit-build-1'') s)"
    if "ks \<inter> {KBuild, KJob, KPipeline, KTeam, KInstance} = {}"
    using that s by (intro ex_stage_leaf [OF assms ex_build_run [OF s]]) (simp_all add: quiet st)
  show "ex_stage (insert KJob ks) (after ex_growing Ctl_Job (ex_key ''unit'') s)"
    if "ks \<inter> {KJob, KPipeline, KTeam, KInstance} = {}"
    using that s by (intro ex_stage_leaf [OF assms ex_job_run [OF s]]) (simp_all add: quiet st)
qed

abbreviation ex_leaf_history :: history where
  "ex_leaf_history \<equiv> [(Ctl_Worker, ex_key ''w-1''), (Ctl_Resource, ex_key ''repo''),
     (Ctl_Build, ex_key ''unit-build-1''), (Ctl_Job, ex_key ''unit'')]"

abbreviation ex_full_history :: history where
  "ex_full_history \<equiv> [(Ctl_Instance, ex_key ''ci''), (Ctl_Team, ex_key ''dev''), (Ctl_Pipeline, ex_key ''hello'')] @
     ex_leaf_history"

lemma ex_full_fresh: "fresh ex_growing (trace (run_history ex_growing ex_full_history op_init))"
proof -
  note s0 = ex_stage_pipeline
  note s1 = ex_stages(1) [OF s0, simplified]
  note s2 = ex_stages(2) [OF s1, simplified]
  note s3 = ex_stages(3) [OF s2, simplified]
  note s4 = ex_stages(4) [OF s3, simplified]
  then show ?thesis by (simp add: ex_stage_def)
qed

theorem everything_comes_up_witness:
  "up ex_growing (KJob, ex_key ''unit'') (run_history ex_growing ex_full_history op_init) \<and>
   up ex_growing (KWorker, ex_key ''w-1'') (run_history ex_growing ex_full_history op_init) \<and>
   up ex_growing (KResource, ex_key ''repo'') (run_history ex_growing ex_full_history op_init)"
  using everything_comes_up [of ex_growing op_init ex_instance ex_team ex_pipeline ex_job ex_worker ex_resource ex_build
      ex_full_history "[]" "[]" "[]" ex_leaf_history] ex_chain ex_declared ex_full_fresh
  by simp

end
