(* ===== verification/Flags.thy ===== *)
theory Flags
  imports Prelude
begin

section \<open>Command line flags (cmd/main.go)\<close>

text \<open>
  The variables \<open>main\<close> declares, the flags it binds to them with their defaults, and what
  \<open>flag.Parse\<close> of Go's standard library does with the arguments: one dash or two, a value after \<open>=\<close> or in
  the next argument, boolean flags that need no value, \<open>--\<close> and the first other argument end the flags. The
  flags that zap and controller-runtime add to the same set are a parameter: for each name whether it is
  boolean and which values it accepts.
\<close>

record main_vars =
  metricsAddr :: string
  probeAddr :: string
  enableLeaderElection :: bool
  secureMetrics :: bool
  webhookCertPath :: string
  webhookCertName :: string
  webhookCertKey :: string
  metricsCertPath :: string
  metricsCertName :: string
  metricsCertKey :: string
  enableHTTP2 :: bool

definition default_vars :: main_vars where
  "default_vars =
     \<lparr>metricsAddr = ''0'', probeAddr = '':8081'', enableLeaderElection = False, secureMetrics = True,
      webhookCertPath = '''', webhookCertName = ''tls.crt'', webhookCertKey = ''tls.key'',
      metricsCertPath = '''', metricsCertName = ''tls.crt'', metricsCertKey = ''tls.key'',
      enableHTTP2 = False\<rparr>"

datatype flag_var =
    StringVar "string \<Rightarrow> main_vars \<Rightarrow> main_vars"
  | BoolVar "bool \<Rightarrow> main_vars \<Rightarrow> main_vars"
  | OtherVar bool "string \<Rightarrow> bool"

definition main_flags :: "(string \<times> flag_var) list" where
  "main_flags =
     [(''metrics-bind-address'', StringVar (\<lambda>x v. v\<lparr>metricsAddr := x\<rparr>)),
      (''health-probe-bind-address'', StringVar (\<lambda>x v. v\<lparr>probeAddr := x\<rparr>)),
      (''leader-elect'', BoolVar (\<lambda>x v. v\<lparr>enableLeaderElection := x\<rparr>)),
      (''metrics-secure'', BoolVar (\<lambda>x v. v\<lparr>secureMetrics := x\<rparr>)),
      (''webhook-cert-path'', StringVar (\<lambda>x v. v\<lparr>webhookCertPath := x\<rparr>)),
      (''webhook-cert-name'', StringVar (\<lambda>x v. v\<lparr>webhookCertName := x\<rparr>)),
      (''webhook-cert-key'', StringVar (\<lambda>x v. v\<lparr>webhookCertKey := x\<rparr>)),
      (''metrics-cert-path'', StringVar (\<lambda>x v. v\<lparr>metricsCertPath := x\<rparr>)),
      (''metrics-cert-name'', StringVar (\<lambda>x v. v\<lparr>metricsCertName := x\<rparr>)),
      (''metrics-cert-key'', StringVar (\<lambda>x v. v\<lparr>metricsCertKey := x\<rparr>)),
      (''enable-http2'', BoolVar (\<lambda>x v. v\<lparr>enableHTTP2 := x\<rparr>))]"

subsection \<open>Parsing\<close>

type_synonym other_flags = "string \<rightharpoonup> bool \<times> (string \<Rightarrow> bool)"

definition lookup_flag :: "other_flags \<Rightarrow> string \<Rightarrow> flag_var option" where
  "lookup_flag other name =
     (case map_of main_flags name of
        Some f \<Rightarrow> Some f
      | None \<Rightarrow> map_option (\<lambda>(b, ok). OtherVar b ok) (other name))"

definition ParseBool :: "string \<Rightarrow> bool option" where
  "ParseBool s =
     (if s \<in> set [''1'', ''t'', ''T'', ''TRUE'', ''true'', ''True''] then Some True
      else if s \<in> set [''0'', ''f'', ''F'', ''FALSE'', ''false'', ''False''] then Some False
      else None)"

fun set_flag :: "flag_var \<Rightarrow> string \<Rightarrow> main_vars \<Rightarrow> main_vars option" where
  "set_flag (StringVar f) x v = Some (f x v)"
| "set_flag (BoolVar f) x v = map_option (\<lambda>b. f b v) (ParseBool x)"
| "set_flag (OtherVar _ ok) x v = (if ok x then Some v else None)"

fun is_bool_flag :: "flag_var \<Rightarrow> bool" where
  "is_bool_flag (StringVar _) = False"
| "is_bool_flag (BoolVar _) = True"
| "is_bool_flag (OtherVar b _) = b"

datatype token = NonFlag | Terminator | BadFlag | FlagArg string "string option"

definition scan :: "string \<Rightarrow> token" where
  "scan s =
     (if length s < 2 \<or> hd s \<noteq> CHR ''-'' then NonFlag
      else if s = ''--'' then Terminator
      else
        (let name = (if s ! 1 = CHR ''-'' then drop 2 s else drop 1 s) in
         if name = [] \<or> hd name = CHR ''-'' \<or> hd name = CHR ''='' then BadFlag
         else (case dropWhile (\<lambda>c. c \<noteq> CHR ''='') name of
                 [] \<Rightarrow> FlagArg name None
               | _ # x \<Rightarrow> FlagArg (takeWhile (\<lambda>c. c \<noteq> CHR ''='') name) (Some x))))"

datatype parse_error = ErrHelp | BadSyntax string | NotDefined string | NeedsArgument string | InvalidValue string string

fun parse :: "other_flags \<Rightarrow> string list \<Rightarrow> main_vars \<Rightarrow> parse_error + main_vars \<times> string list" where
  "parse other [] v = Inr (v, [])"
| "parse other (s # args) v =
     (case scan s of
        NonFlag \<Rightarrow> Inr (v, s # args)
      | Terminator \<Rightarrow> Inr (v, args)
      | BadFlag \<Rightarrow> Inl (BadSyntax s)
      | FlagArg name x \<Rightarrow>
          (case lookup_flag other name of
             None \<Rightarrow> Inl (if name = ''help'' \<or> name = ''h'' then ErrHelp else NotDefined name)
           | Some f \<Rightarrow>
               if is_bool_flag f then
                 (let val = (case x of None \<Rightarrow> ''true'' | Some y \<Rightarrow> y) in
                  case set_flag f val v of
                    None \<Rightarrow> Inl (InvalidValue name val)
                  | Some v' \<Rightarrow> parse other args v')
               else
                 (case x of
                    Some y \<Rightarrow>
                      (case set_flag f y v of None \<Rightarrow> Inl (InvalidValue name y) | Some v' \<Rightarrow> parse other args v')
                  | None \<Rightarrow>
                      (case args of
                         [] \<Rightarrow> Inl (NeedsArgument name)
                       | y # rest \<Rightarrow>
                           (case set_flag f y v of None \<Rightarrow> Inl (InvalidValue name y) | Some v' \<Rightarrow> parse other rest v')))))"

subsection \<open>Writing arguments down\<close>

text \<open>How a deployment passes the variables; \<open>joined\<close> chooses for each string flag one argument or two.\<close>

definition string_arg :: "(string \<Rightarrow> bool) \<Rightarrow> string \<Rightarrow> string \<Rightarrow> string list" where
  "string_arg joined name x =
     (if joined name then [''--'' @ name @ ''='' @ x] else [''--'' @ name, x])"

definition bool_arg :: "string \<Rightarrow> bool \<Rightarrow> string list" where
  "bool_arg name b = [''--'' @ name @ ''='' @ (if b then ''true'' else ''false'')]"

definition render :: "(string \<Rightarrow> bool) \<Rightarrow> main_vars \<Rightarrow> string list" where
  "render joined v =
     string_arg joined ''metrics-bind-address'' (metricsAddr v) @
     string_arg joined ''health-probe-bind-address'' (probeAddr v) @
     bool_arg ''leader-elect'' (enableLeaderElection v) @
     bool_arg ''metrics-secure'' (secureMetrics v) @
     string_arg joined ''webhook-cert-path'' (webhookCertPath v) @
     string_arg joined ''webhook-cert-name'' (webhookCertName v) @
     string_arg joined ''webhook-cert-key'' (webhookCertKey v) @
     string_arg joined ''metrics-cert-path'' (metricsCertPath v) @
     string_arg joined ''metrics-cert-name'' (metricsCertName v) @
     string_arg joined ''metrics-cert-key'' (metricsCertKey v) @
     bool_arg ''enable-http2'' (enableHTTP2 v)"

definition plain_name :: "string \<Rightarrow> bool" where
  "plain_name n \<longleftrightarrow> n \<noteq> [] \<and> hd n \<noteq> CHR ''-'' \<and> CHR ''='' \<notin> set n"

lemma scan_plain:
  assumes "plain_name n"
  shows "scan (''--'' @ n) = FlagArg n None" and "scan (''--'' @ n @ ''='' @ x) = FlagArg n (Some x)"
proof -
  have eq: "\<And>c. c \<in> set n \<Longrightarrow> c \<noteq> CHR ''=''" and hd: "hd n \<noteq> CHR ''-''" "hd n \<noteq> CHR ''=''" and ne: "n \<noteq> []"
    using assms by (cases n; auto simp: plain_name_def)+
  from eq have none: "dropWhile (\<lambda>c. c \<noteq> CHR ''='') n = []" by (simp add: dropWhile_eq_Nil_conv)
  from eq have all: "dropWhile (\<lambda>c. c \<noteq> CHR ''='') (n @ ''='' @ x) = ''='' @ x"
    "takeWhile (\<lambda>c. c \<noteq> CHR ''='') (n @ ''='' @ x) = n"
    by (simp_all add: dropWhile_append2 takeWhile_append2)
  show "scan (''--'' @ n) = FlagArg n None" using hd ne by (simp add: scan_def none)
  show "scan (''--'' @ n @ ''='' @ x) = FlagArg n (Some x)"
    using hd ne by (simp add: scan_def all [simplified])
qed

lemma parse_string_arg:
  assumes "lookup_flag other n = Some (StringVar f)" and "plain_name n"
  shows "parse other (string_arg joined n x @ rest) v = parse other rest (f x v)"
  using scan_plain [OF assms(2)] assms(1) by (simp add: string_arg_def)

lemma parse_bool_arg:
  assumes "lookup_flag other n = Some (BoolVar f)" and "plain_name n"
  shows "parse other (bool_arg n b @ rest) v = parse other rest (f b v)"
  using scan_plain(2) [OF assms(2)] assms(1) by (simp add: bool_arg_def ParseBool_def)

text \<open>
  C19: whatever the variables are to be, the arguments that say so are parsed back to exactly those
  variables, from any earlier values, with values that contain dashes or equal signs, and with each string
  flag written as one argument or as two; what follows is parsed as if it stood alone.
\<close>

theorem flags_roundtrip: "parse other (render joined v @ rest) v0 = parse other rest v"
proof -
  have "parse other (render joined v @ rest) v0 = parse other rest
    (v0\<lparr>metricsAddr := metricsAddr v, probeAddr := probeAddr v, enableLeaderElection := enableLeaderElection v,
       secureMetrics := secureMetrics v, webhookCertPath := webhookCertPath v, webhookCertName := webhookCertName v,
       webhookCertKey := webhookCertKey v, metricsCertPath := metricsCertPath v, metricsCertName := metricsCertName v,
       metricsCertKey := metricsCertKey v, enableHTTP2 := enableHTTP2 v\<rparr>)"
    by (simp add: render_def parse_string_arg parse_bool_arg lookup_flag_def main_flags_def plain_name_def
        del: parse.simps)
  then show ?thesis by (cases v; cases v0) simp
qed

end
