(* ===== verification/Go_Memory.thy ===== *)
theory Go_Memory
  imports Prelude
begin

section \<open>Go values in memory\<close>

text \<open>
  Elsewhere in the development an API object is a HOL value, which nobody can change behind somebody
  else's back. In Go it is a struct whose pointers, slices and maps lead to memory that two variables
  may share; the generated \<open>DeepCopy\<close> methods exist to break such sharing. This theory has the memory
  they work on: values as Go lays them out (a slice is an array's address with an offset and a length),
  the shapes of the struct types, and \<open>view\<close>, which reads a value of a given shape and collects the
  addresses it depends on. \<open>deep_copies\<close> is the contract of a copying function, and the rules at the
  end give the contract of a struct's copier from those of its fields.
\<close>

named_theorems copier \<open>functions that keep the contract of a deep copy\<close>

subsection \<open>Values, shapes and memory\<close>

type_synonym addr = nat

datatype basic = BStr string | BInt int | BBool bool

datatype gval =
    GBasic basic
  | GNil
  | GPtr addr
  | GSlice addr nat nat
  | GMap addr
  | GStruct "(string \<times> gval) list"

datatype cell = CVal gval | CArray "gval list" | CMap "(string \<times> string) list"

record memory =
  cells :: "addr \<rightharpoonup> cell"
  next_addr :: addr

type_synonym 'a mem = "(memory, 'a) state"

datatype gotype =
    TBasic
  | TPtr gotype
  | TSlice gotype
  | TMap
  | TStruct "(string \<times> gotype) list"

fun flat :: "gotype \<Rightarrow> bool" where
  "flat TBasic = True"
| "flat (TPtr T) = False"
| "flat (TSlice T) = False"
| "flat TMap = False"
| "flat (TStruct fs) = list_all (\<lambda>f. flat (snd f)) fs"

text \<open>Allocation: addresses from \<open>next_addr\<close> on are unused.\<close>

definition new :: "cell \<Rightarrow> addr mem" where
  "new c = State (\<lambda>m. (next_addr m, m\<lparr>cells := (cells m)(next_addr m \<mapsto> c), next_addr := Suc (next_addr m)\<rparr>))"

definition mem_ok :: "memory \<Rightarrow> bool" where
  "mem_ok m \<longleftrightarrow> (\<forall>a. next_addr m \<le> a \<longrightarrow> cells m a = None)"

definition extends :: "memory \<Rightarrow> memory \<Rightarrow> bool" where
  "extends m m' \<longleftrightarrow> next_addr m \<le> next_addr m' \<and> (\<forall>a < next_addr m. cells m' a = cells m a)"

interpretation ex: effect_relation extends
  by unfold_locales (auto simp: extends_def)

subsection \<open>Reading a value\<close>

lemma zip_fst_in: "p \<in> set (zip xs ys) \<Longrightarrow> fst p \<in> set xs"
  by (cases p) (simp add: set_zip_leftD)

lemma map2_second: "length xs = length ys \<Longrightarrow> map2 (\<lambda>_. f) xs ys = map f ys"
  by (induction xs ys rule: list_induct2) simp_all

datatype tree =
    RBasic basic
  | RNil
  | RPtr tree
  | RSlice "tree list"
  | RMap "string \<rightharpoonup> string"
  | RStruct "(string \<times> tree) list"

definition gather :: "(tree \<times> addr set) option list \<Rightarrow> (tree list \<times> addr set) option" where
  "gather rs = (if None \<in> set rs then None
                else Some (map (\<lambda>r. fst (the r)) rs, \<Union> ((\<lambda>r. snd (the r)) ` set rs)))"

lemma gather_simps [simp]:
  "gather [] = Some ([], {})"
  "gather (r # rs) = (case r of None \<Rightarrow> None | Some (t, A) \<Rightarrow>
     (case gather rs of None \<Rightarrow> None | Some (ts, B) \<Rightarrow> Some (t # ts, A \<union> B)))"
  by (auto simp: gather_def split: option.split)

text \<open>
  \<open>None\<close> is a value that is not of the shape: a pointer to a cell of another kind, a slice that
  overruns its array, a struct with other fields.
\<close>

function (sequential) view :: "memory \<Rightarrow> gotype \<Rightarrow> gval \<Rightarrow> (tree \<times> addr set) option" where
  "view m TBasic (GBasic b) = Some (RBasic b, {})"
| "view m (TPtr T) GNil = Some (RNil, {})"
| "view m (TPtr T) (GPtr a) =
     (case cells m a of
        Some (CVal x) \<Rightarrow> (case view m T x of Some (t, A) \<Rightarrow> Some (RPtr t, insert a A) | None \<Rightarrow> None)
      | _ \<Rightarrow> None)"
| "view m (TSlice T) GNil = Some (RNil, {})"
| "view m (TSlice T) (GSlice a off n) =
     (case cells m a of
        Some (CArray xs) \<Rightarrow>
          if off + n \<le> length xs then
            (case gather (map (\<lambda>x. view m T x) (take n (drop off xs))) of
               Some (ts, A) \<Rightarrow> Some (RSlice ts, insert a A) | None \<Rightarrow> None)
          else None
      | _ \<Rightarrow> None)"
| "view m TMap GNil = Some (RNil, {})"
| "view m TMap (GMap a) =
     (case cells m a of
        Some (CMap kvs) \<Rightarrow> if distinct (map fst kvs) then Some (RMap (map_of kvs), {a}) else None
      | _ \<Rightarrow> None)"
| "view m (TStruct fs) (GStruct vs) =
     (if map fst fs = map fst vs then
        (case gather (map (\<lambda>p. view m (snd (fst p)) (snd (snd p))) (zip fs vs)) of
           Some (ts, A) \<Rightarrow> Some (RStruct (zip (map fst fs) ts), A) | None \<Rightarrow> None)
      else None)"
| "view m _ _ = None"
  by pat_completeness auto

termination
proof (relation "measure (\<lambda>(m, T, v). size T)")
  fix m :: memory and fs :: "(string \<times> gotype) list" and vs :: "(string \<times> gval) list" and z
  assume "z \<in> set (zip fs vs)"
  then have "fst z \<in> set fs" by (rule zip_fst_in)
  then have "size (snd (fst z)) < Suc (size_list (size_prod (\<lambda>_. 0) size) fs)"
    by (intro le_imp_less_Suc size_list_estimation') (auto simp: size_prod_simp)
  then show "((m, snd (fst z), snd (snd z)), m, TStruct fs, GStruct vs) \<in> measure (\<lambda>(m, T, v). size T)"
    by simp
qed auto

lemma gather_elem:
  "gather (map f xs) = Some (ts, A) \<Longrightarrow> x \<in> set xs \<Longrightarrow> \<exists>t B. f x = Some (t, B) \<and> B \<subseteq> A"
  by (induction xs arbitrary: ts A) (fastforce split: option.splits)+

lemma gather_member:
  "gather (map f xs) = Some (ts, A) \<Longrightarrow> a \<in> A \<Longrightarrow> \<exists>x t B. x \<in> set xs \<and> f x = Some (t, B) \<and> a \<in> B \<and> B \<subseteq> A"
  by (induction xs arbitrary: ts A) (fastforce split: option.splits)+

lemma gather_frame:
  assumes "gather (map f xs) = Some (ts, A)"
    and "\<And>x t B. x \<in> set xs \<Longrightarrow> f x = Some (t, B) \<Longrightarrow> B \<subseteq> A \<Longrightarrow> g x = Some (t, B)"
  shows "gather (map g xs) = Some (ts, A)"
proof -
  have "g x = f x" if "x \<in> set xs" for x
    using gather_elem [OF assms(1) that] assms(2) [OF that] by force
  then have "map g xs = map f xs" by (intro map_cong) simp_all
  with assms(1) show ?thesis by (simp only:)
qed

text \<open>Induction over the parts of a value that could be read.\<close>

lemma view_parts [consumes 1, case_names Basic Nil Ptr Slice Map Struct]:
  assumes "view m T v = Some (t, A)"
    and "\<And>b. P TBasic (GBasic b) (RBasic b) {}"
    and "\<And>T. view m T GNil = Some (RNil, {}) \<Longrightarrow> \<not> flat T \<Longrightarrow> P T GNil RNil {}"
    and "\<And>T a x t A. cells m a = Some (CVal x) \<Longrightarrow> view m T x = Some (t, A) \<Longrightarrow> P T x t A \<Longrightarrow>
      P (TPtr T) (GPtr a) (RPtr t) (insert a A)"
    and "\<And>T a off n xs ts A. cells m a = Some (CArray xs) \<Longrightarrow> off + n \<le> length xs \<Longrightarrow>
      gather (map (view m T) (take n (drop off xs))) = Some (ts, A) \<Longrightarrow>
      (\<And>x t B. x \<in> set (take n (drop off xs)) \<Longrightarrow> view m T x = Some (t, B) \<Longrightarrow> P T x t B) \<Longrightarrow>
      P (TSlice T) (GSlice a off n) (RSlice ts) (insert a A)"
    and "\<And>a kvs. cells m a = Some (CMap kvs) \<Longrightarrow> distinct (map fst kvs) \<Longrightarrow> P TMap (GMap a) (RMap (map_of kvs)) {a}"
    and "\<And>fs vs ts A. map fst fs = map fst vs \<Longrightarrow>
      gather (map (\<lambda>p. view m (snd (fst p)) (snd (snd p))) (zip fs vs)) = Some (ts, A) \<Longrightarrow>
      (\<And>p t B. p \<in> set (zip fs vs) \<Longrightarrow> view m (snd (fst p)) (snd (snd p)) = Some (t, B) \<Longrightarrow>
         P (snd (fst p)) (snd (snd p)) t B) \<Longrightarrow>
      P (TStruct fs) (GStruct vs) (RStruct (zip (map fst fs) ts)) A"
  shows "P T v t A"
  using assms(1)
proof (induction T arbitrary: v t A)
  case TBasic
  with assms(2) show ?case by (cases v) auto
next
  case (TPtr T)
  show ?case
  proof (cases v)
    case (GPtr a)
    with TPtr.prems obtain x t' A' where "cells m a = Some (CVal x)" "view m T x = Some (t', A')"
      "t = RPtr t'" "A = insert a A'" by (auto split: option.splits cell.splits)
    with GPtr show ?thesis by (simp add: assms(4) TPtr.IH)
  qed (use TPtr.prems assms(3) in simp_all)
next
  case (TSlice T)
  show ?case
  proof (cases v)
    case (GSlice a off n)
    with TSlice.prems obtain xs ts B where "cells m a = Some (CArray xs)" "off + n \<le> length xs"
      "gather (map (view m T) (take n (drop off xs))) = Some (ts, B)" "t = RSlice ts" "A = insert a B"
      by (auto split: option.splits cell.splits if_splits)
    with GSlice show ?thesis by (simp add: assms(5) TSlice.IH)
  qed (use TSlice.prems assms(3) in simp_all)
next
  case TMap
  then show ?case
    by (cases v) (auto simp: assms(3,6) split: option.splits cell.splits if_splits)
next
  case (TStruct fs)
  show ?case
  proof (cases v)
    case (GStruct vs)
    with TStruct.prems obtain ts where c: "map fst fs = map fst vs" "t = RStruct (zip (map fst fs) ts)"
      "gather (map (\<lambda>p. view m (snd (fst p)) (snd (snd p))) (zip fs vs)) = Some (ts, A)"
      by (auto split: option.splits if_splits)
    have "P (snd (fst p)) (snd (snd p)) t' B"
      if "p \<in> set (zip fs vs)" "view m (snd (fst p)) (snd (snd p)) = Some (t', B)" for p t' B
      using TStruct.IH [OF zip_fst_in [OF that(1)] _ that(2)] by (simp add: snds.simps)
    from assms(7) [OF c(1,3) this] c(2) GStruct show ?thesis by simp
  qed (use TStruct.prems in simp_all)
qed

text \<open>A reading depends on nothing but the addresses it collects, and these are in use.\<close>

lemma view_frame:
  "view m T v = Some (t, A) \<Longrightarrow> \<forall>a \<in> A. cells m' a = cells m a \<Longrightarrow> view m' T v = Some (t, A)"
proof (induction rule: view_parts)
  case (Nil T)
  then show ?case by (cases T) simp_all
next
  case (Slice T a off n xs ts A)
  have "gather (map (view m' T) (take n (drop off xs))) = Some (ts, A)"
    using Slice(3) by (rule gather_frame) (rule Slice(4), use Slice(5) in auto)
  with Slice show ?case by simp
next
  case (Struct fs vs ts A)
  have "gather (map (\<lambda>p. view m' (snd (fst p)) (snd (snd p))) (zip fs vs)) = Some (ts, A)"
    using Struct(2) by (rule gather_frame) (rule Struct(3), use Struct(4) in auto)
  with Struct show ?case by simp
qed simp_all

lemma view_in_use: "view m T v = Some (t, A) \<Longrightarrow> a \<in> A \<Longrightarrow> cells m a \<noteq> None"
proof (induction rule: view_parts)
  case (Slice T b off n xs ts A)
  then show ?case using gather_member [OF Slice(3)] by blast
next
  case (Struct fs vs ts A)
  then show ?case using gather_member [OF Struct(2)] by blast
qed auto

lemma view_bound: "mem_ok m \<Longrightarrow> view m T v = Some (t, A) \<Longrightarrow> A \<subseteq> {..<next_addr m}"
  using view_in_use [of m T v t A] unfolding mem_ok_def by (meson lessThan_iff not_le subsetI)

lemma view_extends:
  assumes "mem_ok m" and "extends m m'" and "view m T v = Some (t, A)"
  shows "view m' T v = Some (t, A)"
  using assms(3) by (rule view_frame) (use assms(2) view_bound [OF assms(1,3)] in \<open>auto simp: extends_def\<close>)

lemma view_flat: "view m T v = Some (t, A) \<Longrightarrow> flat T \<Longrightarrow> A = {}"
proof (induction rule: view_parts)
  case (Struct fs vs ts A)
  have "flat (snd (fst p))" if "p \<in> set (zip fs vs)" for p
    using Struct(4) that by (cases p) (auto simp: list_all_iff dest: set_zip_leftD)
  then show ?case using gather_member [OF Struct(2)] Struct(3) by blast
qed simp_all

subsection \<open>Copying\<close>

text \<open>
  The contract of a function that copies values of a shape: whatever the memory and the value, the
  copy reads the same as the original, everything it leads to is memory allocated by the call, and
  no memory that was in use has changed.
\<close>

definition deep_copies :: "gotype \<Rightarrow> (gval \<Rightarrow> gval mem) \<Rightarrow> bool" where
  "deep_copies T f \<longleftrightarrow> (\<forall>m v t A v' m'. mem_ok m \<and> view m T v = Some (t, A) \<and> run_state (f v) m = (v', m') \<longrightarrow>
     mem_ok m' \<and> extends m m' \<and>
     (\<exists>A'. view m' T v' = Some (t, A') \<and> A' \<subseteq> {next_addr m ..< next_addr m'}))"

text \<open>
  The statements the generated methods are made of. An assignment copies a value without what it leads
  to; a pointer that is not nil gets a new cell, a slice a new array filled element by element, and a map
  a new map filled key by key. \<open>copy_struct\<close> is \<open>*out = *in\<close> followed by one statement for each field of
  the table.
\<close>

definition load :: "gval \<Rightarrow> gval mem" where
  "load p = State (\<lambda>m. (case p of GPtr a \<Rightarrow> (case cells m a of Some (CVal x) \<Rightarrow> x | _ \<Rightarrow> GNil) | _ \<Rightarrow> GNil, m))"

definition elements :: "gval \<Rightarrow> gval list mem" where
  "elements s = State (\<lambda>m. (case s of
     GSlice a off n \<Rightarrow> (case cells m a of Some (CArray xs) \<Rightarrow> take n (drop off xs) | _ \<Rightarrow> []) | _ \<Rightarrow> [], m))"

definition entries :: "gval \<Rightarrow> (string \<times> string) list mem" where
  "entries p = State (\<lambda>m. (case p of GMap a \<Rightarrow> (case cells m a of Some (CMap kvs) \<Rightarrow> kvs | _ \<Rightarrow> []) | _ \<Rightarrow> [], m))"

definition assign :: "gval \<Rightarrow> gval mem" where
  "assign v = State_Monad.return v"

definition copy_ptr :: "(gval \<Rightarrow> gval mem) \<Rightarrow> gval \<Rightarrow> gval mem" where
  "copy_ptr f p =
     (if p \<noteq> GNil then do {
        x \<leftarrow> load p;
        y \<leftarrow> f x;
        a \<leftarrow> new (CVal y);
        State_Monad.return (GPtr a)
      }
      else State_Monad.return p)"

definition copy_slice :: "(gval \<Rightarrow> gval mem) \<Rightarrow> gval \<Rightarrow> gval mem" where
  "copy_slice f s =
     (if s \<noteq> GNil then do {
        xs \<leftarrow> elements s;
        ys \<leftarrow> State_Monad.traverse_list f xs;
        a \<leftarrow> new (CArray ys);
        State_Monad.return (GSlice a 0 (length xs))
      }
      else State_Monad.return s)"

primrec map_put :: "string \<Rightarrow> string \<Rightarrow> (string \<times> string) list \<Rightarrow> (string \<times> string) list" where
  "map_put k v [] = [(k, v)]"
| "map_put k v (e # es) = (if fst e = k then (k, v) # es else e # map_put k v es)"

definition copy_map :: "gval \<Rightarrow> gval mem" where
  "copy_map p =
     (if p \<noteq> GNil then do {
        kvs \<leftarrow> entries p;
        a \<leftarrow> new (CMap (foldl (\<lambda>out e. map_put (fst e) (snd e) out) [] kvs));
        State_Monad.return (GMap a)
      }
      else State_Monad.return p)"

definition copy_struct :: "(string \<times> (gval \<Rightarrow> gval mem)) list \<Rightarrow> gval \<Rightarrow> gval mem" where
  "copy_struct table s =
     (case s of
        GStruct vs \<Rightarrow> do {
          ws \<leftarrow> State_Monad.traverse_list
                 (\<lambda>e. case map_of table (fst e) of None \<Rightarrow> assign (snd e) | Some f \<Rightarrow> f (snd e)) vs;
          State_Monad.return (GStruct (zip (map fst vs) ws))
        }
      | _ \<Rightarrow> State_Monad.return s)"

lemma run_memory [run_simps]:
  "run_state (new c) m = (next_addr m, m\<lparr>cells := (cells m)(next_addr m \<mapsto> c), next_addr := Suc (next_addr m)\<rparr>)"
  "run_state (load (GPtr a)) m = (case cells m a of Some (CVal x) \<Rightarrow> x | _ \<Rightarrow> GNil, m)"
  "run_state (elements (GSlice a off n)) m =
     (case cells m a of Some (CArray xs) \<Rightarrow> take n (drop off xs) | _ \<Rightarrow> [], m)"
  "run_state (entries (GMap a)) m = (case cells m a of Some (CMap kvs) \<Rightarrow> kvs | _ \<Rightarrow> [], m)"
  by (simp_all add: new_def load_def elements_def entries_def)

lemma deep_copiesD:
  assumes "deep_copies T f" and "mem_ok m" and "view m T v = Some (t, A)" and "run_state (f v) m = (v', m')"
  obtains A' where "mem_ok m'" "extends m m'" "view m' T v' = Some (t, A')" "A' \<subseteq> {next_addr m ..< next_addr m'}"
  using assms unfolding deep_copies_def by blast

lemma new_ok:
  assumes "mem_ok m" and "run_state (new c) m = (a, m')"
  shows "a = next_addr m \<and> mem_ok m' \<and> extends m m' \<and> cells m' a = Some c \<and> next_addr m' = Suc a"
  using assms by (auto simp: run_simps mem_ok_def extends_def)

lemma deep_copies_assign [copier]: "flat T \<Longrightarrow> deep_copies T assign"
  by (auto simp: deep_copies_def assign_def ex.effect_refl dest: view_flat)

lemma deep_copies_ptr [copier]:
  assumes "deep_copies T f"
  shows "deep_copies (TPtr T) (copy_ptr f)"
  unfolding deep_copies_def
proof (intro allI impI, elim conjE)
  fix m p t A p' m'
  assume m: "mem_ok m" and v: "view m (TPtr T) p = Some (t, A)" and run: "run_state (copy_ptr f p) m = (p', m')"
  show "mem_ok m' \<and> extends m m' \<and> (\<exists>A'. view m' (TPtr T) p' = Some (t, A') \<and> A' \<subseteq> {next_addr m..<next_addr m'})"
  proof (cases p)
    case (GPtr a)
    with v obtain x s B where x: "cells m a = Some (CVal x)" "view m T x = Some (s, B)" "t = RPtr s"
      by (auto split: option.splits cell.splits)
    obtain y m1 where y: "run_state (f x) m = (y, m1)" by fastforce
    obtain b m2 where b: "run_state (new (CVal y)) m1 = (b, m2)" by fastforce
    from run GPtr x y b have p': "p' = GPtr b" "m' = m2" by (simp_all add: copy_ptr_def run_memory(2))
    from deep_copiesD [OF assms m x(2) y] obtain B' where B': "mem_ok m1" "extends m m1"
      "view m1 T y = Some (s, B')" "B' \<subseteq> {next_addr m ..< next_addr m1}" .
    from new_ok [OF B'(1) b] have n: "b = next_addr m1" "mem_ok m2" "extends m1 m2" "cells m2 b = Some (CVal y)"
      "next_addr m2 = Suc b" by auto
    have "view m2 T y = Some (s, B')" using B'(1) n(3) B'(3) by (rule view_extends)
    moreover have "next_addr m \<le> next_addr m1" using B'(2) by (simp add: extends_def)
    ultimately show ?thesis
      using n B' p' x(3) ex.effect_trans [OF B'(2) n(3)] by (auto simp: subset_eq)
  qed (use v run m in \<open>auto simp: copy_ptr_def ex.effect_refl\<close>)
qed

text \<open>Copying one value after another: the elements of a slice, the fields of a struct.\<close>

lemma copies_traverse:
  assumes "\<And>x. x \<in> set xs \<Longrightarrow> deep_copies (ty x) (cp x)"
    and "mem_ok m" and "gather (map (\<lambda>x. view m (ty x) (val x)) xs) = Some (ts, A)"
    and "run_state (State_Monad.traverse_list (\<lambda>x. cp x (val x)) xs) m = (ys, m')"
  shows "length ys = length xs \<and> mem_ok m' \<and> extends m m' \<and>
    (\<exists>A'. gather (map2 (\<lambda>x y. view m' (ty x) y) xs ys) = Some (ts, A') \<and> A' \<subseteq> {next_addr m ..< next_addr m'})"
  using assms
proof (induction xs arbitrary: m m' ts A ys)
  case Nil
  then show ?case by (simp add: ex.effect_refl)
next
  case (Cons x xs)
  from Cons.prems(3) obtain t B us C where x: "view m (ty x) (val x) = Some (t, B)"
    and xs: "gather (map (\<lambda>x. view m (ty x) (val x)) xs) = Some (us, C)" and ts: "ts = t # us"
    by (auto split: option.splits)
  obtain y m1 where y: "run_state (cp x (val x)) m = (y, m1)" by fastforce
  obtain zs m2 where zs: "run_state (State_Monad.traverse_list (\<lambda>x. cp x (val x)) xs) m1 = (zs, m2)" by fastforce
  from Cons.prems(4) y zs have out: "ys = y # zs" "m' = m2" by simp_all
  have "deep_copies (ty x) (cp x)" using Cons.prems(1) by simp
  from deep_copiesD [OF this Cons.prems(2) x y] obtain B' where B': "mem_ok m1" "extends m m1"
    "view m1 (ty x) y = Some (t, B')" "B' \<subseteq> {next_addr m ..< next_addr m1}" .
  have "gather (map (\<lambda>x. view m1 (ty x) (val x)) xs) = Some (us, C)"
    using xs by (rule gather_frame) (rule view_extends [OF Cons.prems(2) B'(2)])
  from Cons.IH [OF _ B'(1) this zs] Cons.prems(1) obtain C' where C': "length zs = length xs" "mem_ok m2" "extends m1 m2"
    "gather (map2 (\<lambda>x y. view m2 (ty x) y) xs zs) = Some (us, C')" "C' \<subseteq> {next_addr m1 ..< next_addr m2}" by auto
  have "view m2 (ty x) y = Some (t, B')" using B'(1) C'(3) B'(3) by (rule view_extends)
  moreover have "next_addr m \<le> next_addr m1" "next_addr m1 \<le> next_addr m2"
    using B'(2) C'(3) by (simp_all add: extends_def)
  then have "B' \<union> C' \<subseteq> {next_addr m ..< next_addr m2}" using B'(4) C'(5) by (auto simp: subset_eq)
  ultimately show ?case
    using C' out ts ex.effect_trans [OF B'(2) C'(3)] by simp
qed

lemma deep_copies_slice [copier]:
  assumes "deep_copies T f"
  shows "deep_copies (TSlice T) (copy_slice f)"
  unfolding deep_copies_def
proof (intro allI impI, elim conjE)
  fix m p t A p' m'
  assume m: "mem_ok m" and v: "view m (TSlice T) p = Some (t, A)" and run: "run_state (copy_slice f p) m = (p', m')"
  show "mem_ok m' \<and> extends m m' \<and> (\<exists>A'. view m' (TSlice T) p' = Some (t, A') \<and> A' \<subseteq> {next_addr m..<next_addr m'})"
  proof (cases p)
    case (GSlice a off n)
    define us where "us xs = take n (drop off xs)" for xs :: "gval list"
    from v GSlice obtain xs ts B where x: "cells m a = Some (CArray xs)" "off + n \<le> length xs"
      "gather (map (view m T) (us xs)) = Some (ts, B)" "t = RSlice ts"
      by (auto split: option.splits cell.splits if_splits simp: us_def)
    obtain ys m1 where ys: "run_state (State_Monad.traverse_list f (us xs)) m = (ys, m1)" by fastforce
    obtain b m2 where b: "run_state (new (CArray ys)) m1 = (b, m2)" by fastforce
    from copies_traverse [of "us xs" "\<lambda>_. T" "\<lambda>_. f" m "\<lambda>x. x", OF assms m x(3) ys]
    obtain B' where B': "length ys = length (us xs)" "mem_ok m1" "extends m m1"
      "gather (map2 (\<lambda>_ y. view m1 T y) (us xs) ys) = Some (ts, B')" "B' \<subseteq> {next_addr m ..< next_addr m1}" by auto
    have vs: "gather (map (view m1 T) ys) = Some (ts, B')"
      using B'(4) map2_second [OF B'(1) [symmetric], of "view m1 T"] by simp
    from new_ok [OF B'(2) b] have n: "b = next_addr m1" "mem_ok m2" "extends m1 m2" "cells m2 b = Some (CArray ys)"
      "next_addr m2 = Suc b" by auto
    have "gather (map (view m2 T) ys) = Some (ts, B')"
      using vs by (rule gather_frame) (rule view_extends [OF B'(2) n(3)])
    moreover from run GSlice x ys b have "p' = GSlice b 0 (length ys)" "m' = m2"
      by (simp_all add: copy_slice_def run_memory(3) B'(1) flip: us_def)
    moreover have "next_addr m \<le> next_addr m1" using B'(3) by (simp add: extends_def)
    ultimately show ?thesis
      using n B' x(4) ex.effect_trans [OF B'(3) n(3)] by (auto simp: subset_eq)
  qed (use v run m in \<open>auto simp: copy_slice_def ex.effect_refl\<close>)
qed

lemma map_put_put:
  "k \<notin> fst ` set out \<Longrightarrow> map_put k v out = out @ [(k, v)]"
  by (induction out) auto

lemma copy_entries:
  "distinct (map fst (out @ kvs)) \<Longrightarrow> foldl (\<lambda>out e. map_put (fst e) (snd e) out) out kvs = out @ kvs"
  by (induction kvs arbitrary: out) (simp_all add: map_put_put)

lemma deep_copies_map [copier]: "deep_copies TMap copy_map"
  unfolding deep_copies_def
proof (intro allI impI, elim conjE)
  fix m p t A p' m'
  assume m: "mem_ok m" and v: "view m TMap p = Some (t, A)" and run: "run_state (copy_map p) m = (p', m')"
  show "mem_ok m' \<and> extends m m' \<and> (\<exists>A'. view m' TMap p' = Some (t, A') \<and> A' \<subseteq> {next_addr m..<next_addr m'})"
  proof (cases p)
    case (GMap a)
    with v obtain kvs where x: "cells m a = Some (CMap kvs)" "distinct (map fst kvs)" "t = RMap (map_of kvs)"
      by (auto split: option.splits cell.splits if_splits)
    obtain b m1 where b: "run_state (new (CMap kvs)) m = (b, m1)" by fastforce
    from run GMap x b have "p' = GMap b" "m' = m1"
      by (simp_all add: copy_map_def run_memory(4) copy_entries [of "[]", simplified])
    with new_ok [OF m b] x show ?thesis by auto
  qed (use v run m in \<open>auto simp: copy_map_def ex.effect_refl\<close>)
qed

text \<open>
  A struct is copied deeply if every field without a statement of its own leads nowhere, and every
  other field has a statement that copies it deeply.
\<close>

definition covers :: "(string \<times> (gval \<Rightarrow> gval mem)) list \<Rightarrow> string \<times> gotype \<Rightarrow> bool" where
  "covers table f \<longleftrightarrow>
     deep_copies (snd f) (case map_of table (fst f) of None \<Rightarrow> assign | Some c \<Rightarrow> c)"

lemma traverse_cong:
  "(\<And>x. x \<in> set xs \<Longrightarrow> f x = g x) \<Longrightarrow> State_Monad.traverse_list f xs = State_Monad.traverse_list g xs"
  by (induction xs) simp_all

lemma traverse_zip:
  "length xs = length ys \<Longrightarrow>
   State_Monad.traverse_list f ys = State_Monad.traverse_list (\<lambda>p. f (snd p)) (zip xs ys)"
  by (induction xs ys rule: list_induct2) simp_all

lemma deep_copies_struct:
  assumes "\<forall>f \<in> set fs. covers table f"
  shows "deep_copies (TStruct fs) (copy_struct table)"
  unfolding deep_copies_def
proof (intro allI impI, elim conjE)
  fix m s t A s' m'
  assume m: "mem_ok m" and v: "view m (TStruct fs) s = Some (t, A)"
    and run: "run_state (copy_struct table s) m = (s', m')"
  then obtain vs ts where s: "s = GStruct vs" and n: "map fst fs = map fst vs" and t: "t = RStruct (zip (map fst fs) ts)"
    and g: "gather (map (\<lambda>p. view m (snd (fst p)) (snd (snd p))) (zip fs vs)) = Some (ts, A)"
    by (cases s) (auto split: option.splits if_splits)
  define cp where "cp p = (case map_of table (fst (fst p)) of None \<Rightarrow> assign | Some c \<Rightarrow> c)"
    for p :: "(string \<times> gotype) \<times> (string \<times> gval)"
  have len: "length fs = length vs" using n by (metis length_map)
  have names: "fst (fst p) = fst (snd p)" if "p \<in> set (zip fs vs)" for p
    using that n by (metis (no_types, lifting) in_set_zip len nth_map)
  have "State_Monad.traverse_list
      (\<lambda>e. case map_of table (fst e) of None \<Rightarrow> assign (snd e) | Some f \<Rightarrow> f (snd e)) vs =
    State_Monad.traverse_list (\<lambda>p. cp p (snd (snd p))) (zip fs vs)"
    unfolding traverse_zip [OF len] by (rule traverse_cong) (simp add: cp_def names split: option.split)
  moreover obtain ws m1 where ws: "run_state (State_Monad.traverse_list (\<lambda>p. cp p (snd (snd p))) (zip fs vs)) m = (ws, m1)"
    by fastforce
  ultimately have out: "s' = GStruct (zip (map fst vs) ws)" "m' = m1"
    using run s by (simp_all add: copy_struct_def)
  have "deep_copies (snd (fst p)) (cp p)" if "p \<in> set (zip fs vs)" for p
    using assms zip_fst_in [OF that] by (simp add: covers_def cp_def)
  from copies_traverse [of "zip fs vs" "\<lambda>p. snd (fst p)" cp m "\<lambda>p. snd (snd p)", OF this m g ws] len
  obtain A' where c: "length ws = length vs" "mem_ok m1" "extends m m1" "A' \<subseteq> {next_addr m ..< next_addr m1}"
    "gather (map2 (\<lambda>p y. view m1 (snd (fst p)) y) (zip fs vs) ws) = Some (ts, A')" by auto
  have "map2 (\<lambda>p y. view m1 (snd (fst p)) y) (zip fs vs) ws =
      map (\<lambda>p. view m1 (snd (fst p)) (snd (snd p))) (zip fs (zip (map fst vs) ws))"
    using len c(1) by (intro nth_equalityI) simp_all
  with c out n t show "mem_ok m' \<and> extends m m' \<and>
      (\<exists>A'. view m' (TStruct fs) s' = Some (t, A') \<and> A' \<subseteq> {next_addr m..<next_addr m'})" by simp
qed

end
