(* ===== verification/Deepcopy.thy ===== *)
theory Deepcopy
  imports Go_Memory
begin

section \<open>The generated deep copies (zz\_generated.deepcopy.go)\<close>

text \<open>
  The struct types of \<open>api/v1alpha1\<close> as shapes of memory, field by field, and the methods
  \<open>DeepCopyInto\<close>, \<open>DeepCopy\<close> and \<open>DeepCopyObject\<close> that \<open>controller-gen\<close> generates for them. The Kubernetes
  client hands out objects copied by these methods, so what a reconciler does to the object it read must
  not show in the objects others hold. The tables follow the statements of the generated code one by one; a
  field without a row is only copied by the initial \<open>*out = *in\<close>.

  The types and methods of \<open>k8s.io/apimachinery/pkg/apis/meta/v1\<close> are not part of the repository and enter
  as the record \<open>metav1\<close>; \<open>metav1_laws\<close> says that \<open>TypeMeta\<close> leads nowhere and that the others' copiers do what
  their documentation says. Named strings, integers, booleans and durations are basic values.
\<close>

record metav1 =
  T_TypeMeta :: gotype
  T_ObjectMeta :: gotype
  T_ListMeta :: gotype
  T_Condition :: gotype
  T_Time :: gotype
  ObjectMeta_DeepCopyInto :: "gval \<Rightarrow> gval mem"
  ListMeta_DeepCopyInto :: "gval \<Rightarrow> gval mem"
  Condition_DeepCopyInto :: "gval \<Rightarrow> gval mem"
  Time_DeepCopy :: "gval \<Rightarrow> gval mem"

definition metav1_laws :: "metav1 \<Rightarrow> bool" where
  "metav1_laws M \<longleftrightarrow> flat (T_TypeMeta M) \<and>
     deep_copies (T_ObjectMeta M) (ObjectMeta_DeepCopyInto M) \<and>
     deep_copies (T_ListMeta M) (ListMeta_DeepCopyInto M) \<and>
     deep_copies (T_Condition M) (Condition_DeepCopyInto M) \<and>
     deep_copies (TPtr (T_Time M)) (Time_DeepCopy M)"

subsection \<open>The struct types\<close>

definition T_LocalObjectReference :: "gotype" where
  "T_LocalObjectReference = TStruct [(''Name'', TBasic)]"

definition T_BuildSpec :: "gotype" where
  "T_BuildSpec = TStruct [(''JobRef'', TPtr T_LocalObjectReference), (''OneOff'', TBasic), (''Abort'', TBasic)]"

definition T_BuildStatus :: "metav1 \<Rightarrow> gotype" where
  "T_BuildStatus M = TStruct [(''Conditions'', TSlice (T_Condition M)), (''BuildID'', TBasic),
     (''BuildName'', TBasic),
     (''ConcourseStatus'', TBasic), (''StartTime'', TPtr (T_Time M)), (''EndTime'', TPtr (T_Time M)),
     (''Duration'', TPtr TBasic), (''APIURL'', TBasic), (''CreatedBy'', TBasic),
     (''ObservedGeneration'', TBasic)]"

definition T_Build :: "metav1 \<Rightarrow> gotype" where
  "T_Build M = TStruct [(''TypeMeta'', T_TypeMeta M), (''ObjectMeta'', T_ObjectMeta M), (''Spec'', T_BuildSpec),
     (''Status'', T_BuildStatus M)]"

definition T_BuildList :: "metav1 \<Rightarrow> gotype" where
  "T_BuildList M = TStruct [(''TypeMeta'', T_TypeMeta M), (''ListMeta'', T_ListMeta M),
     (''Items'', TSlice (T_Build M))]"

definition T_SecretKeySelector :: "gotype" where
  "T_SecretKeySelector = TStruct [(''Name'', TBasic), (''Key'', TBasic)]"

definition T_BasicAuth :: "gotype" where
  "T_BasicAuth = TStruct [(''Username'', TBasic), (''PasswordRef'', T_SecretKeySelector)]"

definition T_TokenAuth :: "gotype" where
  "T_TokenAuth = TStruct [(''TokenRef'', T_SecretKeySelector)]"

definition T_TLSConfig :: "gotype" where
  "T_TLSConfig = TStruct [(''CARef'', TPtr T_SecretKeySelector), (''InsecureSkipVerify'', TBasic)]"

definition T_InstanceSpec :: "gotype" where
  "T_InstanceSpec = TStruct [(''URL'', TBasic), (''BasicAuth'', TPtr T_BasicAuth),
     (''TokenAuth'', TPtr T_TokenAuth),
     (''TLS'', TPtr T_TLSConfig), (''Interval'', TBasic)]"

definition T_InstanceStatus :: "metav1 \<Rightarrow> gotype" where
  "T_InstanceStatus M = TStruct [(''Conditions'', TSlice (T_Condition M)), (''Version'', TBasic),
     (''WorkerVersion'', TBasic),
     (''ClusterName'', TBasic), (''ExternalURL'', TBasic), (''WorkerCount'', TBasic),
     (''StalledWorkers'', TBasic), (''RunningWorkers'', TBasic), (''ObservedGeneration'', TBasic)]"

definition T_Instance :: "metav1 \<Rightarrow> gotype" where
  "T_Instance M = TStruct [(''TypeMeta'', T_TypeMeta M), (''ObjectMeta'', T_ObjectMeta M),
     (''Spec'', T_InstanceSpec),
     (''Status'', T_InstanceStatus M)]"

definition T_InstanceList :: "metav1 \<Rightarrow> gotype" where
  "T_InstanceList M = TStruct [(''TypeMeta'', T_TypeMeta M), (''ListMeta'', T_ListMeta M),
     (''Items'', TSlice (T_Instance M))]"

definition T_JobSpec :: "gotype" where
  "T_JobSpec = TStruct [(''PipelineRef'', T_LocalObjectReference), (''JobName'', TBasic), (''Paused'', TBasic),
     (''TriggerBuild'', TBasic)]"

definition T_JobStatus :: "metav1 \<Rightarrow> gotype" where
  "T_JobStatus M = TStruct [(''Conditions'', TSlice (T_Condition M)), (''Paused'', TBasic),
     (''NextBuildName'', TBasic),
     (''LastBuildID'', TBasic), (''LastBuildStatus'', TBasic), (''LastBuildTime'', TPtr (T_Time M)),
     (''ObservedGeneration'', TBasic)]"

definition T_Job :: "metav1 \<Rightarrow> gotype" where
  "T_Job M = TStruct [(''TypeMeta'', T_TypeMeta M), (''ObjectMeta'', T_ObjectMeta M), (''Spec'', T_JobSpec),
     (''Status'', T_JobStatus M)]"

definition T_JobList :: "metav1 \<Rightarrow> gotype" where
  "T_JobList M = TStruct [(''TypeMeta'', T_TypeMeta M), (''ListMeta'', T_ListMeta M),
     (''Items'', TSlice (T_Job M))]"

definition T_ConfigMapKeyRef :: "gotype" where
  "T_ConfigMapKeyRef = TStruct [(''Name'', TBasic), (''Key'', TBasic)]"

definition T_PipelineConfig :: "gotype" where
  "T_PipelineConfig = TStruct [(''Inline'', TBasic), (''ConfigMapRef'', TPtr T_ConfigMapKeyRef)]"

definition T_PipelineVar :: "gotype" where
  "T_PipelineVar = TStruct [(''Name'', TBasic), (''Value'', TBasic), (''ValueFrom'', TPtr T_SecretKeySelector)]"

definition T_PipelineSpec :: "gotype" where
  "T_PipelineSpec = TStruct [(''TeamRef'', T_LocalObjectReference), (''PipelineName'', TBasic),
     (''Config'', T_PipelineConfig),
     (''Vars'', TSlice T_PipelineVar), (''Paused'', TBasic), (''Exposed'', TBasic)]"

definition T_PipelineStatus :: "metav1 \<Rightarrow> gotype" where
  "T_PipelineStatus M = TStruct [(''Conditions'', TSlice (T_Condition M)), (''PipelineID'', TBasic),
     (''ConfigHash'', TBasic),
     (''Paused'', TBasic), (''Exposed'', TBasic), (''LastUpdated'', TPtr (T_Time M)),
     (''GroupCount'', TBasic), (''ObservedGeneration'', TBasic)]"

definition T_Pipeline :: "metav1 \<Rightarrow> gotype" where
  "T_Pipeline M = TStruct [(''TypeMeta'', T_TypeMeta M), (''ObjectMeta'', T_ObjectMeta M),
     (''Spec'', T_PipelineSpec),
     (''Status'', T_PipelineStatus M)]"

definition T_PipelineList :: "metav1 \<Rightarrow> gotype" where
  "T_PipelineList M = TStruct [(''TypeMeta'', T_TypeMeta M), (''ListMeta'', T_ListMeta M),
     (''Items'', TSlice (T_Pipeline M))]"

definition T_ResourceSpec :: "gotype" where
  "T_ResourceSpec = TStruct [(''PipelineRef'', T_LocalObjectReference), (''ResourceName'', TBasic),
     (''PinnedVersion'', TMap),
     (''CheckInterval'', TPtr TBasic)]"

definition T_ResourceStatus :: "metav1 \<Rightarrow> gotype" where
  "T_ResourceStatus M = TStruct [(''Conditions'', TSlice (T_Condition M)), (''LastChecked'', TPtr (T_Time M)),
     (''LatestVersion'', TMap), (''PinnedVersionID'', TBasic), (''Pinned'', TBasic),
     (''ObservedGeneration'', TBasic)]"

definition T_Resource :: "metav1 \<Rightarrow> gotype" where
  "T_Resource M = TStruct [(''TypeMeta'', T_TypeMeta M), (''ObjectMeta'', T_ObjectMeta M),
     (''Spec'', T_ResourceSpec),
     (''Status'', T_ResourceStatus M)]"

definition T_ResourceList :: "metav1 \<Rightarrow> gotype" where
  "T_ResourceList M = TStruct [(''TypeMeta'', T_TypeMeta M), (''ListMeta'', T_ListMeta M),
     (''Items'', TSlice (T_Resource M))]"

definition T_TeamRole :: "gotype" where
  "T_TeamRole = TStruct [(''Role'', TBasic), (''Users'', TSlice TBasic), (''Groups'', TSlice TBasic)]"

definition T_TeamSpec :: "gotype" where
  "T_TeamSpec = TStruct [(''InstanceRef'', T_LocalObjectReference), (''TeamName'', TBasic),
     (''Roles'', TSlice T_TeamRole)]"

definition T_TeamStatus :: "metav1 \<Rightarrow> gotype" where
  "T_TeamStatus M = TStruct [(''Conditions'', TSlice (T_Condition M)), (''TeamID'', TBasic),
     (''LastApplied'', TPtr (T_Time M)),
     (''ObservedGeneration'', TBasic)]"

definition T_Team :: "metav1 \<Rightarrow> gotype" where
  "T_Team M = TStruct [(''TypeMeta'', T_TypeMeta M), (''ObjectMeta'', T_ObjectMeta M), (''Spec'', T_TeamSpec),
     (''Status'', T_TeamStatus M)]"

definition T_TeamList :: "metav1 \<Rightarrow> gotype" where
  "T_TeamList M = TStruct [(''TypeMeta'', T_TypeMeta M), (''ListMeta'', T_ListMeta M),
     (''Items'', TSlice (T_Team M))]"

definition T_WorkerSpec :: "gotype" where
  "T_WorkerSpec = TStruct [(''InstanceRef'', T_LocalObjectReference), (''WorkerName'', TBasic),
     (''DesiredState'', TBasic)]"

definition T_WorkerStatus :: "metav1 \<Rightarrow> gotype" where
  "T_WorkerStatus M = TStruct [(''Conditions'', TSlice (T_Condition M)), (''ActualState'', TBasic),
     (''Platform'', TBasic),
     (''Tags'', TSlice TBasic), (''ActiveContainers'', TBasic), (''ActiveVolumes'', TBasic),
     (''Version'', TBasic), (''StartTime'', TPtr (T_Time M)), (''Ephemeral'', TBasic), (''Team'', TBasic),
     (''ObservedGeneration'', TBasic)]"

definition T_Worker :: "metav1 \<Rightarrow> gotype" where
  "T_Worker M = TStruct [(''TypeMeta'', T_TypeMeta M), (''ObjectMeta'', T_ObjectMeta M),
     (''Spec'', T_WorkerSpec),
     (''Status'', T_WorkerStatus M)]"

definition T_WorkerList :: "metav1 \<Rightarrow> gotype" where
  "T_WorkerList M = TStruct [(''TypeMeta'', T_TypeMeta M), (''ListMeta'', T_ListMeta M),
     (''Items'', TSlice (T_Worker M))]"

subsection \<open>The methods\<close>

text \<open>
  \<open>if_set\<close> guards a statement by \<open>in.F != nil\<close>. \<open>DeepCopy_with\<close> and \<open>Object_with\<close> are the bodies all
  \<open>DeepCopy\<close> and \<open>DeepCopyObject\<close> methods share: nil for nil, and an interface value that is nil, not a typed
  nil pointer, when there is nothing to copy.
\<close>

definition if_set :: "(gval \<Rightarrow> gval mem) \<Rightarrow> gval \<Rightarrow> gval mem" where
  "if_set f v = (if v \<noteq> GNil then f v else State_Monad.return v)"

definition DeepCopy_with :: "(gval \<Rightarrow> gval mem) \<Rightarrow> gval \<Rightarrow> gval mem" where
  "DeepCopy_with into p =
     (if p = GNil then State_Monad.return GNil
      else do {
        x \<leftarrow> load p;
        y \<leftarrow> into x;
        a \<leftarrow> new (CVal y);
        State_Monad.return (GPtr a)
      })"

definition Object_with :: "(gval \<Rightarrow> gval mem) \<Rightarrow> gval \<Rightarrow> gval option mem" where
  "Object_with copy p = do {
     c \<leftarrow> copy p;
     if c \<noteq> GNil then State_Monad.return (Some c) else State_Monad.return None
   }"

definition LocalObjectReference_DeepCopyInto :: "gval \<Rightarrow> gval mem" where
  "LocalObjectReference_DeepCopyInto = copy_struct []"

definition LocalObjectReference_DeepCopy :: "gval \<Rightarrow> gval mem" where
  "LocalObjectReference_DeepCopy = DeepCopy_with LocalObjectReference_DeepCopyInto"

definition BuildSpec_DeepCopyInto :: "gval \<Rightarrow> gval mem" where
  "BuildSpec_DeepCopyInto = copy_struct [(''JobRef'', copy_ptr assign)]"

definition BuildSpec_DeepCopy :: "gval \<Rightarrow> gval mem" where
  "BuildSpec_DeepCopy = DeepCopy_with BuildSpec_DeepCopyInto"

definition BuildStatus_DeepCopyInto :: "metav1 \<Rightarrow> gval \<Rightarrow> gval mem" where
  "BuildStatus_DeepCopyInto M = copy_struct [(''Conditions'', copy_slice (Condition_DeepCopyInto M)),
     (''StartTime'', if_set (Time_DeepCopy M)),
     (''EndTime'', if_set (Time_DeepCopy M)), (''Duration'', copy_ptr assign)]"

definition BuildStatus_DeepCopy :: "metav1 \<Rightarrow> gval \<Rightarrow> gval mem" where
  "BuildStatus_DeepCopy M = DeepCopy_with (BuildStatus_DeepCopyInto M)"

definition Build_DeepCopyInto :: "metav1 \<Rightarrow> gval \<Rightarrow> gval mem" where
  "Build_DeepCopyInto M = copy_struct [(''TypeMeta'', assign), (''ObjectMeta'', ObjectMeta_DeepCopyInto M),
     (''Spec'', BuildSpec_DeepCopyInto), (''Status'', BuildStatus_DeepCopyInto M)]"

definition Build_DeepCopy :: "metav1 \<Rightarrow> gval \<Rightarrow> gval mem" where
  "Build_DeepCopy M = DeepCopy_with (Build_DeepCopyInto M)"

definition Build_DeepCopyObject :: "metav1 \<Rightarrow> gval \<Rightarrow> gval option mem" where
  "Build_DeepCopyObject M = Object_with (Build_DeepCopy M)"

definition BuildList_DeepCopyInto :: "metav1 \<Rightarrow> gval \<Rightarrow> gval mem" where
  "BuildList_DeepCopyInto M = copy_struct [(''TypeMeta'', assign), (''ListMeta'', ListMeta_DeepCopyInto M),
     (''Items'', copy_slice (Build_DeepCopyInto M))]"

definition BuildList_DeepCopy :: "metav1 \<Rightarrow> gval \<Rightarrow> gval mem" where
  "BuildList_DeepCopy M = DeepCopy_with (BuildList_DeepCopyInto M)"

definition BuildList_DeepCopyObject :: "metav1 \<Rightarrow> gval \<Rightarrow> gval option mem" where
  "BuildList_DeepCopyObject M = Object_with (BuildList_DeepCopy M)"

definition SecretKeySelector_DeepCopyInto :: "gval \<Rightarrow> gval mem" where
  "SecretKeySelector_DeepCopyInto = copy_struct []"

definition SecretKeySelector_DeepCopy :: "gval \<Rightarrow> gval mem" where
  "SecretKeySelector_DeepCopy = DeepCopy_with SecretKeySelector_DeepCopyInto"

definition BasicAuth_DeepCopyInto :: "gval \<Rightarrow> gval mem" where
  "BasicAuth_DeepCopyInto = copy_struct [(''PasswordRef'', assign)]"

definition BasicAuth_DeepCopy :: "gval \<Rightarrow> gval mem" where
  "BasicAuth_DeepCopy = DeepCopy_with BasicAuth_DeepCopyInto"

definition TokenAuth_DeepCopyInto :: "gval \<Rightarrow> gval mem" where
  "TokenAuth_DeepCopyInto = copy_struct [(''TokenRef'', assign)]"

definition TokenAuth_DeepCopy :: "gval \<Rightarrow> gval mem" where
  "TokenAuth_DeepCopy = DeepCopy_with TokenAuth_DeepCopyInto"

definition TLSConfig_DeepCopyInto :: "gval \<Rightarrow> gval mem" where
  "TLSConfig_DeepCopyInto = copy_struct [(''CARef'', copy_ptr assign)]"

definition TLSConfig_DeepCopy :: "gval \<Rightarrow> gval mem" where
  "TLSConfig_DeepCopy = DeepCopy_with TLSConfig_DeepCopyInto"

definition InstanceSpec_DeepCopyInto :: "gval \<Rightarrow> gval mem" where
  "InstanceSpec_DeepCopyInto = copy_struct [(''BasicAuth'', copy_ptr assign), (''TokenAuth'', copy_ptr assign),
     (''TLS'', copy_ptr TLSConfig_DeepCopyInto), (''Interval'', assign)]"

definition InstanceSpec_DeepCopy :: "gval \<Rightarrow> gval mem" where
  "InstanceSpec_DeepCopy = DeepCopy_with InstanceSpec_DeepCopyInto"

definition InstanceStatus_DeepCopyInto :: "metav1 \<Rightarrow> gval \<Rightarrow> gval mem" where
  "InstanceStatus_DeepCopyInto M = copy_struct [(''Conditions'', copy_slice (Condition_DeepCopyInto M))]"

definition InstanceStatus_DeepCopy :: "metav1 \<Rightarrow> gval \<Rightarrow> gval mem" where
  "InstanceStatus_DeepCopy M = DeepCopy_with (InstanceStatus_DeepCopyInto M)"

definition Instance_DeepCopyInto :: "metav1 \<Rightarrow> gval \<Rightarrow> gval mem" where
  "Instance_DeepCopyInto M = copy_struct [(''TypeMeta'', assign), (''ObjectMeta'', ObjectMeta_DeepCopyInto M),
     (''Spec'', InstanceSpec_DeepCopyInto), (''Status'', InstanceStatus_DeepCopyInto M)]"

definition Instance_DeepCopy :: "metav1 \<Rightarrow> gval \<Rightarrow> gval mem" where
  "Instance_DeepCopy M = DeepCopy_with (Instance_DeepCopyInto M)"

definition Instance_DeepCopyObject :: "metav1 \<Rightarrow> gval \<Rightarrow> gval option mem" where
  "Instance_DeepCopyObject M = Object_with (Instance_DeepCopy M)"

definition InstanceList_DeepCopyInto :: "metav1 \<Rightarrow> gval \<Rightarrow> gval mem" where
  "InstanceList_DeepCopyInto M = copy_struct [(''TypeMeta'', assign), (''ListMeta'', ListMeta_DeepCopyInto M),
     (''Items'', copy_slice (Instance_DeepCopyInto M))]"

definition InstanceList_DeepCopy :: "metav1 \<Rightarrow> gval \<Rightarrow> gval mem" where
  "InstanceList_DeepCopy M = DeepCopy_with (InstanceList_DeepCopyInto M)"

definition InstanceList_DeepCopyObject :: "metav1 \<Rightarrow> gval \<Rightarrow> gval option mem" where
  "InstanceList_DeepCopyObject M = Object_with (InstanceList_DeepCopy M)"

definition JobSpec_DeepCopyInto :: "gval \<Rightarrow> gval mem" where
  "JobSpec_DeepCopyInto = copy_struct [(''PipelineRef'', assign)]"

definition JobSpec_DeepCopy :: "gval \<Rightarrow> gval mem" where
  "JobSpec_DeepCopy = DeepCopy_with JobSpec_DeepCopyInto"

definition JobStatus_DeepCopyInto :: "metav1 \<Rightarrow> gval \<Rightarrow> gval mem" where
  "JobStatus_DeepCopyInto M = copy_struct [(''Conditions'', copy_slice (Condition_DeepCopyInto M)),
     (''LastBuildTime'', if_set (Time_DeepCopy M))]"

definition JobStatus_DeepCopy :: "metav1 \<Rightarrow> gval \<Rightarrow> gval mem" where
  "JobStatus_DeepCopy M = DeepCopy_with (JobStatus_DeepCopyInto M)"

definition Job_DeepCopyInto :: "metav1 \<Rightarrow> gval \<Rightarrow> gval mem" where
  "Job_DeepCopyInto M = copy_struct [(''TypeMeta'', assign), (''ObjectMeta'', ObjectMeta_DeepCopyInto M),
     (''Spec'', assign),
     (''Status'', JobStatus_DeepCopyInto M)]"

definition Job_DeepCopy :: "metav1 \<Rightarrow> gval \<Rightarrow> gval mem" where
  "Job_DeepCopy M = DeepCopy_with (Job_DeepCopyInto M)"

definition Job_DeepCopyObject :: "metav1 \<Rightarrow> gval \<Rightarrow> gval option mem" where
  "Job_DeepCopyObject M = Object_with (Job_DeepCopy M)"

definition JobList_DeepCopyInto :: "metav1 \<Rightarrow> gval \<Rightarrow> gval mem" where
  "JobList_DeepCopyInto M = copy_struct [(''TypeMeta'', assign), (''ListMeta'', ListMeta_DeepCopyInto M),
     (''Items'', copy_slice (Job_DeepCopyInto M))]"

definition JobList_DeepCopy :: "metav1 \<Rightarrow> gval \<Rightarrow> gval mem" where
  "JobList_DeepCopy M = DeepCopy_with (JobList_DeepCopyInto M)"

definition JobList_DeepCopyObject :: "metav1 \<Rightarrow> gval \<Rightarrow> gval option mem" where
  "JobList_DeepCopyObject M = Object_with (JobList_DeepCopy M)"

definition ConfigMapKeyRef_DeepCopyInto :: "gval \<Rightarrow> gval mem" where
  "ConfigMapKeyRef_DeepCopyInto = copy_struct []"

definition ConfigMapKeyRef_DeepCopy :: "gval \<Rightarrow> gval mem" where
  "ConfigMapKeyRef_DeepCopy = DeepCopy_with ConfigMapKeyRef_DeepCopyInto"

definition PipelineConfig_DeepCopyInto :: "gval \<Rightarrow> gval mem" where
  "PipelineConfig_DeepCopyInto = copy_struct [(''ConfigMapRef'', copy_ptr assign)]"

definition PipelineConfig_DeepCopy :: "gval \<Rightarrow> gval mem" where
  "PipelineConfig_DeepCopy = DeepCopy_with PipelineConfig_DeepCopyInto"

definition PipelineVar_DeepCopyInto :: "gval \<Rightarrow> gval mem" where
  "PipelineVar_DeepCopyInto = copy_struct [(''ValueFrom'', copy_ptr assign)]"

definition PipelineVar_DeepCopy :: "gval \<Rightarrow> gval mem" where
  "PipelineVar_DeepCopy = DeepCopy_with PipelineVar_DeepCopyInto"

definition PipelineSpec_DeepCopyInto :: "gval \<Rightarrow> gval mem" where
  "PipelineSpec_DeepCopyInto = copy_struct [(''TeamRef'', assign), (''Config'', PipelineConfig_DeepCopyInto),
     (''Vars'', copy_slice PipelineVar_DeepCopyInto)]"

definition PipelineSpec_DeepCopy :: "gval \<Rightarrow> gval mem" where
  "PipelineSpec_DeepCopy = DeepCopy_with PipelineSpec_DeepCopyInto"

definition PipelineStatus_DeepCopyInto :: "metav1 \<Rightarrow> gval \<Rightarrow> gval mem" where
  "PipelineStatus_DeepCopyInto M = copy_struct [(''Conditions'', copy_slice (Condition_DeepCopyInto M)),
     (''LastUpdated'', if_set (Time_DeepCopy M))]"

definition PipelineStatus_DeepCopy :: "metav1 \<Rightarrow> gval \<Rightarrow> gval mem" where
  "PipelineStatus_DeepCopy M = DeepCopy_with (PipelineStatus_DeepCopyInto M)"

definition Pipeline_DeepCopyInto :: "metav1 \<Rightarrow> gval \<Rightarrow> gval mem" where
  "Pipeline_DeepCopyInto M = copy_struct [(''TypeMeta'', assign), (''ObjectMeta'', ObjectMeta_DeepCopyInto M),
     (''Spec'', PipelineSpec_DeepCopyInto), (''Status'', PipelineStatus_DeepCopyInto M)]"

definition Pipeline_DeepCopy :: "metav1 \<Rightarrow> gval \<Rightarrow> gval mem" where
  "Pipeline_DeepCopy M = DeepCopy_with (Pipeline_DeepCopyInto M)"

definition Pipeline_DeepCopyObject :: "metav1 \<Rightarrow> gval \<Rightarrow> gval option mem" where
  "Pipeline_DeepCopyObject M = Object_with (Pipeline_DeepCopy M)"

definition PipelineList_DeepCopyInto :: "metav1 \<Rightarrow> gval \<Rightarrow> gval mem" where
  "PipelineList_DeepCopyInto M = copy_struct [(''TypeMeta'', assign), (''ListMeta'', ListMeta_DeepCopyInto M),
     (''Items'', copy_slice (Pipeline_DeepCopyInto M))]"

definition PipelineList_DeepCopy :: "metav1 \<Rightarrow> gval \<Rightarrow> gval mem" where
  "PipelineList_DeepCopy M = DeepCopy_with (PipelineList_DeepCopyInto M)"

definition PipelineList_DeepCopyObject :: "metav1 \<Rightarrow> gval \<Rightarrow> gval option mem" where
  "PipelineList_DeepCopyObject M = Object_with (PipelineList_DeepCopy M)"

definition ResourceSpec_DeepCopyInto :: "gval \<Rightarrow> gval mem" where
  "ResourceSpec_DeepCopyInto = copy_struct [(''PipelineRef'', assign), (''PinnedVersion'', copy_map),
     (''CheckInterval'', copy_ptr assign)]"

definition ResourceSpec_DeepCopy :: "gval \<Rightarrow> gval mem" where
  "ResourceSpec_DeepCopy = DeepCopy_with ResourceSpec_DeepCopyInto"

definition ResourceStatus_DeepCopyInto :: "metav1 \<Rightarrow> gval \<Rightarrow> gval mem" where
  "ResourceStatus_DeepCopyInto M = copy_struct [(''Conditions'', copy_slice (Condition_DeepCopyInto M)),
     (''LastChecked'', if_set (Time_DeepCopy M)),
     (''LatestVersion'', copy_map)]"

definition ResourceStatus_DeepCopy :: "metav1 \<Rightarrow> gval \<Rightarrow> gval mem" where
  "ResourceStatus_DeepCopy M = DeepCopy_with (ResourceStatus_DeepCopyInto M)"

definition Resource_DeepCopyInto :: "metav1 \<Rightarrow> gval \<Rightarrow> gval mem" where
  "Resource_DeepCopyInto M = copy_struct [(''TypeMeta'', assign), (''ObjectMeta'', ObjectMeta_DeepCopyInto M),
     (''Spec'', ResourceSpec_DeepCopyInto), (''Status'', ResourceStatus_DeepCopyInto M)]"

definition Resource_DeepCopy :: "metav1 \<Rightarrow> gval \<Rightarrow> gval mem" where
  "Resource_DeepCopy M = DeepCopy_with (Resource_DeepCopyInto M)"

definition Resource_DeepCopyObject :: "metav1 \<Rightarrow> gval \<Rightarrow> gval option mem" where
  "Resource_DeepCopyObject M = Object_with (Resource_DeepCopy M)"

definition ResourceList_DeepCopyInto :: "metav1 \<Rightarrow> gval \<Rightarrow> gval mem" where
  "ResourceList_DeepCopyInto M = copy_struct [(''TypeMeta'', assign), (''ListMeta'', ListMeta_DeepCopyInto M),
     (''Items'', copy_slice (Resource_DeepCopyInto M))]"

definition ResourceList_DeepCopy :: "metav1 \<Rightarrow> gval \<Rightarrow> gval mem" where
  "ResourceList_DeepCopy M = DeepCopy_with (ResourceList_DeepCopyInto M)"

definition ResourceList_DeepCopyObject :: "metav1 \<Rightarrow> gval \<Rightarrow> gval option mem" where
  "ResourceList_DeepCopyObject M = Object_with (ResourceList_DeepCopy M)"

definition TeamRole_DeepCopyInto :: "gval \<Rightarrow> gval mem" where
  "TeamRole_DeepCopyInto = copy_struct [(''Users'', copy_slice assign), (''Groups'', copy_slice assign)]"

definition TeamRole_DeepCopy :: "gval \<Rightarrow> gval mem" where
  "TeamRole_DeepCopy = DeepCopy_with TeamRole_DeepCopyInto"

definition TeamSpec_DeepCopyInto :: "gval \<Rightarrow> gval mem" where
  "TeamSpec_DeepCopyInto = copy_struct [(''InstanceRef'', assign),
     (''Roles'', copy_slice TeamRole_DeepCopyInto)]"

definition TeamSpec_DeepCopy :: "gval \<Rightarrow> gval mem" where
  "TeamSpec_DeepCopy = DeepCopy_with TeamSpec_DeepCopyInto"

definition TeamStatus_DeepCopyInto :: "metav1 \<Rightarrow> gval \<Rightarrow> gval mem" where
  "TeamStatus_DeepCopyInto M = copy_struct [(''Conditions'', copy_slice (Condition_DeepCopyInto M)),
     (''LastApplied'', if_set (Time_DeepCopy M))]"

definition TeamStatus_DeepCopy :: "metav1 \<Rightarrow> gval \<Rightarrow> gval mem" where
  "TeamStatus_DeepCopy M = DeepCopy_with (TeamStatus_DeepCopyInto M)"

definition Team_DeepCopyInto :: "metav1 \<Rightarrow> gval \<Rightarrow> gval mem" where
  "Team_DeepCopyInto M = copy_struct [(''TypeMeta'', assign), (''ObjectMeta'', ObjectMeta_DeepCopyInto M),
     (''Spec'', TeamSpec_DeepCopyInto), (''Status'', TeamStatus_DeepCopyInto M)]"

definition Team_DeepCopy :: "metav1 \<Rightarrow> gval \<Rightarrow> gval mem" where
  "Team_DeepCopy M = DeepCopy_with (Team_DeepCopyInto M)"

definition Team_DeepCopyObject :: "metav1 \<Rightarrow> gval \<Rightarrow> gval option mem" where
  "Team_DeepCopyObject M = Object_with (Team_DeepCopy M)"

definition TeamList_DeepCopyInto :: "metav1 \<Rightarrow> gval \<Rightarrow> gval mem" where
  "TeamList_DeepCopyInto M = copy_struct [(''TypeMeta'', assign), (''ListMeta'', ListMeta_DeepCopyInto M),
     (''Items'', copy_slice (Team_DeepCopyInto M))]"

definition TeamList_DeepCopy :: "metav1 \<Rightarrow> gval \<Rightarrow> gval mem" where
  "TeamList_DeepCopy M = DeepCopy_with (TeamList_DeepCopyInto M)"

definition TeamList_DeepCopyObject :: "metav1 \<Rightarrow> gval \<Rightarrow> gval option mem" where
  "TeamList_DeepCopyObject M = Object_with (TeamList_DeepCopy M)"

definition WorkerSpec_DeepCopyInto :: "gval \<Rightarrow> gval mem" where
  "WorkerSpec_DeepCopyInto = copy_struct [(''InstanceRef'', assign)]"

definition WorkerSpec_DeepCopy :: "gval \<Rightarrow> gval mem" where
  "WorkerSpec_DeepCopy = DeepCopy_with WorkerSpec_DeepCopyInto"

definition WorkerStatus_DeepCopyInto :: "metav1 \<Rightarrow> gval \<Rightarrow> gval mem" where
  "WorkerStatus_DeepCopyInto M = copy_struct [(''Conditions'', copy_slice (Condition_DeepCopyInto M)),
     (''Tags'', copy_slice assign),
     (''StartTime'', if_set (Time_DeepCopy M))]"

definition WorkerStatus_DeepCopy :: "metav1 \<Rightarrow> gval \<Rightarrow> gval mem" where
  "WorkerStatus_DeepCopy M = DeepCopy_with (WorkerStatus_DeepCopyInto M)"

definition Worker_DeepCopyInto :: "metav1 \<Rightarrow> gval \<Rightarrow> gval mem" where
  "Worker_DeepCopyInto M = copy_struct [(''TypeMeta'', assign), (''ObjectMeta'', ObjectMeta_DeepCopyInto M),
     (''Spec'', assign),
     (''Status'', WorkerStatus_DeepCopyInto M)]"

definition Worker_DeepCopy :: "metav1 \<Rightarrow> gval \<Rightarrow> gval mem" where
  "Worker_DeepCopy M = DeepCopy_with (Worker_DeepCopyInto M)"

definition Worker_DeepCopyObject :: "metav1 \<Rightarrow> gval \<Rightarrow> gval option mem" where
  "Worker_DeepCopyObject M = Object_with (Worker_DeepCopy M)"

definition WorkerList_DeepCopyInto :: "metav1 \<Rightarrow> gval \<Rightarrow> gval mem" where
  "WorkerList_DeepCopyInto M = copy_struct [(''TypeMeta'', assign), (''ListMeta'', ListMeta_DeepCopyInto M),
     (''Items'', copy_slice (Worker_DeepCopyInto M))]"

definition WorkerList_DeepCopy :: "metav1 \<Rightarrow> gval \<Rightarrow> gval mem" where
  "WorkerList_DeepCopy M = DeepCopy_with (WorkerList_DeepCopyInto M)"

definition WorkerList_DeepCopyObject :: "metav1 \<Rightarrow> gval \<Rightarrow> gval option mem" where
  "WorkerList_DeepCopyObject M = Object_with (WorkerList_DeepCopy M)"

text \<open>The types registered with the scheme, whose \<open>DeepCopyObject\<close> the Kubernetes libraries call.\<close>

datatype root_kind =
    Root_Build
  | Root_BuildList
  | Root_Instance
  | Root_InstanceList
  | Root_Job
  | Root_JobList
  | Root_Pipeline
  | Root_PipelineList
  | Root_Resource
  | Root_ResourceList
  | Root_Team
  | Root_TeamList
  | Root_Worker
  | Root_WorkerList

fun root_type :: "metav1 \<Rightarrow> root_kind \<Rightarrow> gotype" where
  "root_type M Root_Build = T_Build M"
| "root_type M Root_BuildList = T_BuildList M"
| "root_type M Root_Instance = T_Instance M"
| "root_type M Root_InstanceList = T_InstanceList M"
| "root_type M Root_Job = T_Job M"
| "root_type M Root_JobList = T_JobList M"
| "root_type M Root_Pipeline = T_Pipeline M"
| "root_type M Root_PipelineList = T_PipelineList M"
| "root_type M Root_Resource = T_Resource M"
| "root_type M Root_ResourceList = T_ResourceList M"
| "root_type M Root_Team = T_Team M"
| "root_type M Root_TeamList = T_TeamList M"
| "root_type M Root_Worker = T_Worker M"
| "root_type M Root_WorkerList = T_WorkerList M"

fun root_DeepCopyObject :: "metav1 \<Rightarrow> root_kind \<Rightarrow> gval \<Rightarrow> gval option mem" where
  "root_DeepCopyObject M Root_Build = Build_DeepCopyObject M"
| "root_DeepCopyObject M Root_BuildList = BuildList_DeepCopyObject M"
| "root_DeepCopyObject M Root_Instance = Instance_DeepCopyObject M"
| "root_DeepCopyObject M Root_InstanceList = InstanceList_DeepCopyObject M"
| "root_DeepCopyObject M Root_Job = Job_DeepCopyObject M"
| "root_DeepCopyObject M Root_JobList = JobList_DeepCopyObject M"
| "root_DeepCopyObject M Root_Pipeline = Pipeline_DeepCopyObject M"
| "root_DeepCopyObject M Root_PipelineList = PipelineList_DeepCopyObject M"
| "root_DeepCopyObject M Root_Resource = Resource_DeepCopyObject M"
| "root_DeepCopyObject M Root_ResourceList = ResourceList_DeepCopyObject M"
| "root_DeepCopyObject M Root_Team = Team_DeepCopyObject M"
| "root_DeepCopyObject M Root_TeamList = TeamList_DeepCopyObject M"
| "root_DeepCopyObject M Root_Worker = Worker_DeepCopyObject M"
| "root_DeepCopyObject M Root_WorkerList = WorkerList_DeepCopyObject M"

subsection \<open>Every method keeps the contract\<close>

lemma DeepCopy_with_ptr: "DeepCopy_with into = copy_ptr into"
  by (simp add: fun_eq_iff DeepCopy_with_def copy_ptr_def)

lemma deep_copies_if_set [copier]: "deep_copies (TPtr T) f \<Longrightarrow> deep_copies (TPtr T) (if_set f)"
  by (auto simp: deep_copies_def if_set_def ex.effect_refl)

lemma flat_types [copier]:
  "flat T_LocalObjectReference"
  "flat T_SecretKeySelector"
  "flat T_BasicAuth"
  "flat T_TokenAuth"
  "flat T_JobSpec"
  "flat T_ConfigMapKeyRef"
  "flat T_WorkerSpec"
  by (simp_all add: T_LocalObjectReference_def T_SecretKeySelector_def T_BasicAuth_def T_TokenAuth_def T_JobSpec_def
      T_ConfigMapKeyRef_def T_WorkerSpec_def)

lemma copies_leaves [copier]:
  "deep_copies T_LocalObjectReference LocalObjectReference_DeepCopyInto"
  "deep_copies T_SecretKeySelector SecretKeySelector_DeepCopyInto"
  "deep_copies T_ConfigMapKeyRef ConfigMapKeyRef_DeepCopyInto"
  "deep_copies T_TeamRole TeamRole_DeepCopyInto"
  by (simp_all add: deep_copies_struct covers_def copier T_LocalObjectReference_def
      LocalObjectReference_DeepCopyInto_def
      T_SecretKeySelector_def SecretKeySelector_DeepCopyInto_def
      T_ConfigMapKeyRef_def ConfigMapKeyRef_DeepCopyInto_def T_TeamRole_def TeamRole_DeepCopyInto_def)

lemma copies_statuses [copier]:
  assumes "metav1_laws M"
  shows "deep_copies (T_BuildStatus M) (BuildStatus_DeepCopyInto M)"
    "deep_copies (T_InstanceStatus M) (InstanceStatus_DeepCopyInto M)"
    "deep_copies (T_JobStatus M) (JobStatus_DeepCopyInto M)"
    "deep_copies (T_PipelineStatus M) (PipelineStatus_DeepCopyInto M)"
    "deep_copies (T_ResourceStatus M) (ResourceStatus_DeepCopyInto M)"
    "deep_copies (T_TeamStatus M) (TeamStatus_DeepCopyInto M)"
    "deep_copies (T_WorkerStatus M) (WorkerStatus_DeepCopyInto M)"
  using assms
  by (simp_all add: deep_copies_struct covers_def copier metav1_laws_def T_BuildStatus_def
      BuildStatus_DeepCopyInto_def T_InstanceStatus_def InstanceStatus_DeepCopyInto_def
      T_JobStatus_def JobStatus_DeepCopyInto_def T_PipelineStatus_def PipelineStatus_DeepCopyInto_def
      T_ResourceStatus_def ResourceStatus_DeepCopyInto_def T_TeamStatus_def TeamStatus_DeepCopyInto_def
      T_WorkerStatus_def WorkerStatus_DeepCopyInto_def)

lemma copies_parts [copier]:
  "deep_copies T_BuildSpec BuildSpec_DeepCopyInto"
  "deep_copies T_BasicAuth BasicAuth_DeepCopyInto"
  "deep_copies T_TokenAuth TokenAuth_DeepCopyInto"
  "deep_copies T_TLSConfig TLSConfig_DeepCopyInto"
  "deep_copies T_JobSpec JobSpec_DeepCopyInto"
  "deep_copies T_PipelineConfig PipelineConfig_DeepCopyInto"
  "deep_copies T_PipelineVar PipelineVar_DeepCopyInto"
  "deep_copies T_ResourceSpec ResourceSpec_DeepCopyInto"
  "deep_copies T_TeamSpec TeamSpec_DeepCopyInto"
  "deep_copies T_WorkerSpec WorkerSpec_DeepCopyInto"
  by (simp_all add: deep_copies_struct covers_def copier T_BuildSpec_def BuildSpec_DeepCopyInto_def
      T_BasicAuth_def BasicAuth_DeepCopyInto_def
      T_TokenAuth_def TokenAuth_DeepCopyInto_def T_TLSConfig_def TLSConfig_DeepCopyInto_def
      T_JobSpec_def JobSpec_DeepCopyInto_def T_PipelineConfig_def PipelineConfig_DeepCopyInto_def
      T_PipelineVar_def PipelineVar_DeepCopyInto_def T_ResourceSpec_def ResourceSpec_DeepCopyInto_def
      T_TeamSpec_def TeamSpec_DeepCopyInto_def T_WorkerSpec_def WorkerSpec_DeepCopyInto_def)

lemma copies_specs [copier]:
  "deep_copies T_InstanceSpec InstanceSpec_DeepCopyInto"
  "deep_copies T_PipelineSpec PipelineSpec_DeepCopyInto"
  by (simp_all add: deep_copies_struct covers_def copier T_InstanceSpec_def InstanceSpec_DeepCopyInto_def
      T_PipelineSpec_def PipelineSpec_DeepCopyInto_def)

lemma copies_objects [copier]:
  assumes "metav1_laws M"
  shows "deep_copies (T_Build M) (Build_DeepCopyInto M)"
    "deep_copies (T_Job M) (Job_DeepCopyInto M)"
    "deep_copies (T_Resource M) (Resource_DeepCopyInto M)"
    "deep_copies (T_Team M) (Team_DeepCopyInto M)"
    "deep_copies (T_Worker M) (Worker_DeepCopyInto M)"
  using assms
  by (simp_all add: deep_copies_struct covers_def copier metav1_laws_def T_Build_def Build_DeepCopyInto_def
      T_Job_def Job_DeepCopyInto_def
      T_Resource_def Resource_DeepCopyInto_def T_Team_def Team_DeepCopyInto_def
      T_Worker_def Worker_DeepCopyInto_def)

lemma copies_lists [copier]:
  assumes "metav1_laws M"
  shows "deep_copies (T_BuildList M) (BuildList_DeepCopyInto M)"
    "deep_copies (T_Instance M) (Instance_DeepCopyInto M)"
    "deep_copies (T_JobList M) (JobList_DeepCopyInto M)"
    "deep_copies (T_Pipeline M) (Pipeline_DeepCopyInto M)"
    "deep_copies (T_ResourceList M) (ResourceList_DeepCopyInto M)"
    "deep_copies (T_TeamList M) (TeamList_DeepCopyInto M)"
    "deep_copies (T_WorkerList M) (WorkerList_DeepCopyInto M)"
  using assms
  by (simp_all add: deep_copies_struct covers_def copier metav1_laws_def T_BuildList_def
      BuildList_DeepCopyInto_def T_Instance_def Instance_DeepCopyInto_def
      T_JobList_def JobList_DeepCopyInto_def T_Pipeline_def Pipeline_DeepCopyInto_def
      T_ResourceList_def ResourceList_DeepCopyInto_def T_TeamList_def TeamList_DeepCopyInto_def
      T_WorkerList_def WorkerList_DeepCopyInto_def)

lemma copies_later_lists [copier]:
  assumes "metav1_laws M"
  shows "deep_copies (T_InstanceList M) (InstanceList_DeepCopyInto M)"
    "deep_copies (T_PipelineList M) (PipelineList_DeepCopyInto M)"
  using assms
  by (simp_all add: deep_copies_struct covers_def copier metav1_laws_def T_InstanceList_def
      InstanceList_DeepCopyInto_def T_PipelineList_def PipelineList_DeepCopyInto_def)

lemmas method_defs =
  Build_DeepCopyObject_def Build_DeepCopy_def BuildList_DeepCopyObject_def BuildList_DeepCopy_def
  Instance_DeepCopyObject_def Instance_DeepCopy_def
  InstanceList_DeepCopyObject_def InstanceList_DeepCopy_def Job_DeepCopyObject_def Job_DeepCopy_def
  JobList_DeepCopyObject_def JobList_DeepCopy_def Pipeline_DeepCopyObject_def Pipeline_DeepCopy_def
  PipelineList_DeepCopyObject_def PipelineList_DeepCopy_def
  Resource_DeepCopyObject_def Resource_DeepCopy_def
  ResourceList_DeepCopyObject_def ResourceList_DeepCopy_def Team_DeepCopyObject_def Team_DeepCopy_def
  TeamList_DeepCopyObject_def TeamList_DeepCopy_def Worker_DeepCopyObject_def Worker_DeepCopy_def
  WorkerList_DeepCopyObject_def WorkerList_DeepCopy_def

lemma root_DeepCopyObject_copies:
  assumes "metav1_laws M"
  shows "\<exists>into. deep_copies (root_type M k) into \<and> root_DeepCopyObject M k = Object_with (DeepCopy_with into)"
  using assms by (cases k) (simp_all add: method_defs, (blast intro: copier)+)

subsection \<open>What a copy is good for\<close>

text \<open>
  C8: a deep copy shares nothing with its original. For each of the fourteen registered types, copying nil
  gives the nil interface and allocates nothing; copying an object gives a pointer to a new object that reads
  the same, no address the one leads to is led to by the other, no memory in use has changed, and whatever is
  done later to memory off the one object, the other's included, does not change what the one reads.
\<close>

theorem deep_copy_isolates:
  assumes laws: "metav1_laws M" and m: "mem_ok m"
  shows "run_state (root_DeepCopyObject M k GNil) m = (None, m) \<and>
    (\<forall>p t A r m'. view m (TPtr (root_type M k)) (GPtr p) = Some (t, A) \<and>
       run_state (root_DeepCopyObject M k (GPtr p)) m = (r, m') \<longrightarrow>
       (\<exists>q B. r = Some (GPtr q) \<and> view m' (TPtr (root_type M k)) (GPtr q) = Some (t, B) \<and> A \<inter> B = {} \<and>
          (\<forall>a. cells m a \<noteq> None \<longrightarrow> cells m' a = cells m a) \<and>
          (\<forall>n. (\<forall>a \<in> A. cells n a = cells m a) \<longrightarrow> view n (TPtr (root_type M k)) (GPtr p) = Some (t, A)) \<and>
          (\<forall>n. (\<forall>a \<in> B. cells n a = cells m' a) \<longrightarrow> view n (TPtr (root_type M k)) (GPtr q) = Some (t, B))))"
proof (intro conjI allI impI; (elim conjE)?)
  from root_DeepCopyObject_copies [OF laws] obtain into where into: "deep_copies (root_type M k) into"
    and root: "root_DeepCopyObject M k = Object_with (copy_ptr into)"
    unfolding DeepCopy_with_ptr by blast
  show "run_state (root_DeepCopyObject M k GNil) m = (None, m)"
    by (simp add: root Object_with_def copy_ptr_def)
  fix p t A r m'
  assume v: "view m (TPtr (root_type M k)) (GPtr p) = Some (t, A)"
    and run: "run_state (root_DeepCopyObject M k (GPtr p)) m = (r, m')"
  obtain c m1 where c: "run_state (copy_ptr into (GPtr p)) m = (c, m1)" by fastforce
  then obtain q where q: "c = GPtr q" by (auto simp: copy_ptr_def split: prod.splits)
  with run c have out: "r = Some (GPtr q)" "m' = m1" by (simp_all add: root Object_with_def)
  from deep_copiesD [OF deep_copies_ptr [OF into] m v c] obtain B where B: "extends m m1"
    "view m1 (TPtr (root_type M k)) c = Some (t, B)" "B \<subseteq> {next_addr m ..< next_addr m1}" .
  have "A \<inter> B = {}" using view_bound [OF m v] B(3) by force
  moreover have "cells m' a = cells m a" if "cells m a \<noteq> None" for a
    using B(1) m that out by (auto simp: extends_def mem_ok_def simp flip: not_le)
  moreover note view_frame [OF v] view_frame [OF B(2)]
  ultimately show "\<exists>q B. r = Some (GPtr q) \<and> view m' (TPtr (root_type M k)) (GPtr q) = Some (t, B) \<and> A \<inter> B = {} \<and>
      (\<forall>a. cells m a \<noteq> None \<longrightarrow> cells m' a = cells m a) \<and>
      (\<forall>n. (\<forall>a \<in> A. cells n a = cells m a) \<longrightarrow> view n (TPtr (root_type M k)) (GPtr p) = Some (t, A)) \<and>
      (\<forall>n. (\<forall>a \<in> B. cells n a = cells m' a) \<longrightarrow> view n (TPtr (root_type M k)) (GPtr q) = Some (t, B))"
    using B out q by blast
qed

text \<open>An instance of \<open>metav1\<close>, and a Build whose job reference and conditions lie in memory.\<close>

definition ex_metav1 :: metav1 where
  "ex_metav1 =
     \<lparr>T_TypeMeta = TStruct [(''Kind'', TBasic), (''APIVersion'', TBasic)],
      T_ObjectMeta = TStruct [(''Name'', TBasic), (''Labels'', TMap), (''Finalizers'', TSlice TBasic)],
      T_ListMeta = TStruct [(''ResourceVersion'', TBasic), (''RemainingItemCount'', TPtr TBasic)],
      T_Condition = TStruct [(''Type'', TBasic), (''Status'', TBasic)],
      T_Time = TBasic,
      ObjectMeta_DeepCopyInto = copy_struct [(''Labels'', copy_map), (''Finalizers'', copy_slice assign)],
      ListMeta_DeepCopyInto = copy_struct [(''RemainingItemCount'', copy_ptr assign)],
      Condition_DeepCopyInto = copy_struct [],
      Time_DeepCopy = copy_ptr assign\<rparr>"

lemma ex_metav1_laws: "metav1_laws ex_metav1"
  by (simp add: metav1_laws_def ex_metav1_def deep_copies_struct covers_def copier)

definition ex_condition :: gval where
  "ex_condition = GStruct [(''Type'', GBasic (BStr ''Ready'')), (''Status'', GBasic (BStr ''True''))]"

definition ex_memory :: memory where
  "ex_memory = \<lparr>cells = [0 \<mapsto> CVal (GStruct
     [(''TypeMeta'', GStruct [(''Kind'', GBasic (BStr ''Build'')), (''APIVersion'', GBasic (BStr ''v1alpha1''))]),
      (''ObjectMeta'', GStruct [(''Name'', GBasic (BStr ''b'')), (''Labels'', GMap 1), (''Finalizers'', GNil)]),
      (''Spec'', GStruct [(''JobRef'', GPtr 2), (''OneOff'', GBasic (BBool False)), (''Abort'', GBasic (BBool False))]),
      (''Status'', GStruct [(''Conditions'', GSlice 3 0 1), (''BuildID'', GBasic (BInt 42)),
         (''BuildName'', GBasic (BStr ''7'')), (''ConcourseStatus'', GBasic (BStr ''started'')),
         (''StartTime'', GPtr 4), (''EndTime'', GNil), (''Duration'', GNil), (''APIURL'', GBasic (BStr '''')),
         (''CreatedBy'', GBasic (BStr '''')), (''ObservedGeneration'', GBasic (BInt 1))])]),
     1 \<mapsto> CMap [(''app'', ''ci'')],
     2 \<mapsto> CVal (GStruct [(''Name'', GBasic (BStr ''unit''))]),
     3 \<mapsto> CArray [ex_condition],
     4 \<mapsto> CVal (GBasic (BInt 100))], next_addr = 5\<rparr>"

lemma ex_memory_ok: "mem_ok ex_memory"
  by (simp add: mem_ok_def ex_memory_def)

lemma ex_memory_view:
  "\<exists>t. view ex_memory (TPtr (root_type ex_metav1 Root_Build)) (GPtr 0) = Some (t, {0, 1, 2, 3, 4})"
  by (simp add: ex_memory_def ex_condition_def ex_metav1_def T_Build_def T_BuildSpec_def T_BuildStatus_def
      T_LocalObjectReference_def insert_commute)

theorem deep_copy_isolates_witness:
  "\<exists>t q B m'. view ex_memory (TPtr (root_type ex_metav1 Root_Build)) (GPtr 0) = Some (t, {0, 1, 2, 3, 4}) \<and>
     run_state (root_DeepCopyObject ex_metav1 Root_Build (GPtr 0)) ex_memory = (Some (GPtr q), m') \<and>
     view m' (TPtr (root_type ex_metav1 Root_Build)) (GPtr q) = Some (t, B) \<and> {0, 1, 2, 3, 4} \<inter> B = {}"
proof -
  from ex_memory_view obtain t
    where t: "view ex_memory (TPtr (root_type ex_metav1 Root_Build)) (GPtr 0) = Some (t, {0, 1, 2, 3, 4})" by blast
  obtain r m' where r: "run_state (root_DeepCopyObject ex_metav1 Root_Build (GPtr 0)) ex_memory = (r, m')" by fastforce
  from deep_copy_isolates [OF ex_metav1_laws ex_memory_ok, THEN conjunct2, rule_format, OF conjI, OF t r] t r
  show ?thesis by blast
qed

end
