(* ===== verification/Startup.thy ===== *)
theory Startup
  imports Flags Deepcopy Controllers
begin

section \<open>Starting the operator (cmd/main.go)\<close>

text \<open>
  What \<open>main\<close> does once the flags are parsed: the options of the webhook and metrics servers and of the
  manager, the registration of the API types with the scheme, the registration of the seven controllers by
  their \<open>SetupWithManager\<close>, and the sequence of steps each of which ends the process when it fails. The calls
  into controller-runtime are steps whose outcome, an error or none, is a parameter.
\<close>

subsection \<open>Server options\<close>

text \<open>A TLS option changes a \<open>tls.Config\<close>; the only one here sets the protocols offered, \<open>NextProtos\<close>.\<close>

type_synonym tls_opt = "string list \<Rightarrow> string list"

definition disableHTTP2 :: tls_opt where
  "disableHTTP2 protos = [''http/1.1'']"

definition tlsOpts :: "main_vars \<Rightarrow> tls_opt list" where
  "tlsOpts v = (if \<not> enableHTTP2 v then [] @ [disableHTTP2] else [])"

record webhook_Options =
  wh_TLSOpts :: "tls_opt list"
  wh_CertDir :: string
  wh_CertName :: string
  wh_KeyName :: string

datatype filter_provider = WithAuthenticationAndAuthorization

record metricsserver_Options =
  ms_BindAddress :: string
  ms_SecureServing :: bool
  ms_TLSOpts :: "tls_opt list"
  ms_FilterProvider :: "filter_provider option"
  ms_CertDir :: string
  ms_CertName :: string
  ms_KeyName :: string

record ctrl_Options =
  opt_Metrics :: metricsserver_Options
  opt_WebhookServer :: webhook_Options
  opt_HealthProbeBindAddress :: string
  opt_LeaderElection :: bool
  opt_LeaderElectionID :: string

definition webhookServerOptions :: "main_vars \<Rightarrow> webhook_Options" where
  "webhookServerOptions v =
     (let opts = \<lparr>wh_TLSOpts = tlsOpts v, wh_CertDir = '''', wh_CertName = '''', wh_KeyName = ''''\<rparr> in
      if length (webhookCertPath v) > 0
      then opts\<lparr>wh_CertDir := webhookCertPath v, wh_CertName := webhookCertName v, wh_KeyName := webhookCertKey v\<rparr>
      else opts)"

definition metricsServerOptions :: "main_vars \<Rightarrow> metricsserver_Options" where
  "metricsServerOptions v =
     (let opts = \<lparr>ms_BindAddress = metricsAddr v, ms_SecureServing = secureMetrics v, ms_TLSOpts = tlsOpts v,
                  ms_FilterProvider = None, ms_CertDir = '''', ms_CertName = '''', ms_KeyName = ''''\<rparr>;
          opts = (if secureMetrics v then opts\<lparr>ms_FilterProvider := Some WithAuthenticationAndAuthorization\<rparr> else opts)
      in if length (metricsCertPath v) > 0
         then opts\<lparr>ms_CertDir := metricsCertPath v, ms_CertName := metricsCertName v, ms_KeyName := metricsCertKey v\<rparr>
         else opts)"

definition manager_options :: "main_vars \<Rightarrow> ctrl_Options" where
  "manager_options v =
     \<lparr>opt_Metrics = metricsServerOptions v, opt_WebhookServer = webhookServerOptions v,
      opt_HealthProbeBindAddress = probeAddr v, opt_LeaderElection = enableLeaderElection v,
      opt_LeaderElectionID = ''b622fb03.concourse-ci.org''\<rparr>"

subsection \<open>The scheme\<close>

text \<open>The \<open>init\<close> functions of \<open>api/v1alpha1\<close>, in the order of their files, and the scheme they fill.\<close>

definition Build_init :: "root_kind list" where "Build_init = [Root_Build, Root_BuildList]"
definition Instance_init :: "root_kind list" where "Instance_init = [Root_Instance, Root_InstanceList]"
definition Job_init :: "root_kind list" where "Job_init = [Root_Job, Root_JobList]"
definition Pipeline_init :: "root_kind list" where "Pipeline_init = [Root_Pipeline, Root_PipelineList]"
definition Resource_init :: "root_kind list" where "Resource_init = [Root_Resource, Root_ResourceList]"
definition Team_init :: "root_kind list" where "Team_init = [Root_Team, Root_TeamList]"
definition Worker_init :: "root_kind list" where "Worker_init = [Root_Worker, Root_WorkerList]"

definition SchemeGroupVersion :: "string \<times> string" where
  "SchemeGroupVersion = (''concourse-ci.org'', ''v1alpha1'')"

definition AddToScheme :: "((string \<times> string) \<times> root_kind) list" where
  "AddToScheme = map (Pair SchemeGroupVersion)
     (Build_init @ Instance_init @ Job_init @ Pipeline_init @ Resource_init @ Team_init @ Worker_init)"

text \<open>The Go types behind a kind of object: the object and its list.\<close>

fun root_kinds_of :: "object_kind \<Rightarrow> root_kind list" where
  "root_kinds_of KInstance = [Root_Instance, Root_InstanceList]"
| "root_kinds_of KTeam = [Root_Team, Root_TeamList]"
| "root_kinds_of KPipeline = [Root_Pipeline, Root_PipelineList]"
| "root_kinds_of KJob = [Root_Job, Root_JobList]"
| "root_kinds_of KBuild = [Root_Build, Root_BuildList]"
| "root_kinds_of KResource = [Root_Resource, Root_ResourceList]"
| "root_kinds_of KWorker = [Root_Worker, Root_WorkerList]"
| "root_kinds_of KSecret = []"
| "root_kinds_of KConfigMap = []"

subsection \<open>Registering the controllers\<close>

text \<open>
  What \<open>SetupWithManager\<close> tells the manager: the kind whose objects give the requests, the kinds whose owner
  is to be reconciled when they change, the capacity of a channel that gives further requests, and the name.
\<close>

record registration =
  reg_For :: object_kind
  reg_Owns :: "object_kind list"
  reg_Channel :: "nat option"
  reg_Named :: string

definition Instance_SetupWithManager :: registration where
  "Instance_SetupWithManager = \<lparr>reg_For = KInstance, reg_Owns = [], reg_Channel = None, reg_Named = ''instance''\<rparr>"

definition Team_SetupWithManager :: registration where
  "Team_SetupWithManager = \<lparr>reg_For = KTeam, reg_Owns = [], reg_Channel = None, reg_Named = ''team''\<rparr>"

definition Pipeline_SetupWithManager :: registration where
  "Pipeline_SetupWithManager = \<lparr>reg_For = KPipeline, reg_Owns = [], reg_Channel = None, reg_Named = ''pipeline''\<rparr>"

definition Job_SetupWithManager :: registration where
  "Job_SetupWithManager = \<lparr>reg_For = KJob, reg_Owns = [KBuild], reg_Channel = None, reg_Named = ''job''\<rparr>"

definition Build_SetupWithManager :: registration where
  "Build_SetupWithManager =
     \<lparr>reg_For = KBuild, reg_Owns = [], reg_Channel = Some eventCh_capacity, reg_Named = ''build''\<rparr>"

definition Resource_SetupWithManager :: registration where
  "Resource_SetupWithManager = \<lparr>reg_For = KResource, reg_Owns = [], reg_Channel = None, reg_Named = ''resource''\<rparr>"

definition Worker_SetupWithManager :: registration where
  "Worker_SetupWithManager = \<lparr>reg_For = KWorker, reg_Owns = [], reg_Channel = None, reg_Named = ''worker''\<rparr>"

fun SetupWithManager :: "controller \<Rightarrow> registration" where
  "SetupWithManager Ctl_Instance = Instance_SetupWithManager"
| "SetupWithManager Ctl_Team = Team_SetupWithManager"
| "SetupWithManager Ctl_Pipeline = Pipeline_SetupWithManager"
| "SetupWithManager Ctl_Job = Job_SetupWithManager"
| "SetupWithManager Ctl_Build = Build_SetupWithManager"
| "SetupWithManager Ctl_Resource = Resource_SetupWithManager"
| "SetupWithManager Ctl_Worker = Worker_SetupWithManager"

lemmas setup_defs =
  Instance_SetupWithManager_def Team_SetupWithManager_def Pipeline_SetupWithManager_def Job_SetupWithManager_def
  Build_SetupWithManager_def Resource_SetupWithManager_def Worker_SetupWithManager_def

subsection \<open>The steps of main\<close>

datatype main_step =
    GetConfigOrDie
  | NewManager ctrl_Options
  | Setup registration
  | AddHealthzCheck
  | AddReadyzCheck
  | Start

definition main_steps :: "main_vars \<Rightarrow> main_step list" where
  "main_steps v =
     [GetConfigOrDie, NewManager (manager_options v),
      Setup (SetupWithManager Ctl_Instance), Setup (SetupWithManager Ctl_Team), Setup (SetupWithManager Ctl_Pipeline),
      Setup (SetupWithManager Ctl_Job), Setup (SetupWithManager Ctl_Build), Setup (SetupWithManager Ctl_Resource),
      Setup (SetupWithManager Ctl_Worker), AddHealthzCheck, AddReadyzCheck, Start]"

fun run_steps :: "(main_step \<Rightarrow> go_error option) \<Rightarrow> main_step list \<Rightarrow> main_step list \<times> int" where
  "run_steps fails [] = ([], 0)"
| "run_steps fails (x # xs) =
     (case fails x of
        Some err \<Rightarrow> ([x], 1)
      | None \<Rightarrow> (case run_steps fails xs of (done, code) \<Rightarrow> (x # done, code)))"

text \<open>
  \<open>main\<close> from the arguments: the steps it took and the exit code. \<open>flag.CommandLine\<close> exits with 0 when help was
  asked for and with 2 when the arguments cannot be parsed.
\<close>

definition main :: "other_flags \<Rightarrow> (main_step \<Rightarrow> go_error option) \<Rightarrow> string list \<Rightarrow> main_step list \<times> int" where
  "main other fails args =
     (case parse other args default_vars of
        Inl ErrHelp \<Rightarrow> ([], 0)
      | Inl _ \<Rightarrow> ([], 2)
      | Inr (v, _) \<Rightarrow> run_steps fails (main_steps v))"

text \<open>
  HTTP/2 is off unless asked for, on both servers: applied to any TLS configuration, the options of the
  webhook server and of the metrics server leave HTTP/1.1 as the only protocol exactly when the flag is not
  set, and change nothing otherwise; and the metrics endpoint is filtered by authentication and authorisation
  exactly when it is served securely, which is the default, as is HTTP/2 being off and metrics not served.
\<close>

lemma servers_hardened:
  "foldl (\<lambda>c f. f c) protos (wh_TLSOpts (opt_WebhookServer (manager_options v))) =
     (if enableHTTP2 v then protos else [''http/1.1'']) \<and>
   foldl (\<lambda>c f. f c) protos (ms_TLSOpts (opt_Metrics (manager_options v))) =
     (if enableHTTP2 v then protos else [''http/1.1'']) \<and>
   (ms_FilterProvider (opt_Metrics (manager_options v)) = Some WithAuthenticationAndAuthorization \<longleftrightarrow>
      ms_SecureServing (opt_Metrics (manager_options v))) \<and>
   ms_SecureServing (opt_Metrics (manager_options default_vars)) \<and>
   \<not> enableHTTP2 default_vars \<and> ms_BindAddress (opt_Metrics (manager_options default_vars)) = ''0''"
  by (simp add: manager_options_def webhookServerOptions_def metricsServerOptions_def tlsOpts_def disableHTTP2_def
      default_vars_def Let_def)

lemma run_steps_prefix:
  "run_steps fails xs = (tr, code) \<Longrightarrow>
   (\<exists>ys. xs = tr @ ys) \<and> list_all (\<lambda>x. fails x = None) (butlast tr) \<and>
   (if list_all (\<lambda>x. fails x = None) tr then tr = xs \<and> code = 0 else code = 1)"
proof (induction xs arbitrary: tr code)
  case (Cons x xs)
  then show ?case by (fastforce split: option.splits prod.splits)
qed simp

lemma distinct_main_steps: "distinct (main_steps v)"
  by (simp add: main_steps_def setup_defs)

lemma setup_in_main_steps: "Setup (SetupWithManager c) \<in> set (main_steps v)"
  by (cases c) (simp_all add: main_steps_def)

lemma start_last:
  assumes "main_steps v = tr @ ys" and "Start \<in> set tr"
  shows "tr = main_steps v"
proof (cases ys rule: rev_cases)
  case (snoc zs z)
  with assms(1) have "last (main_steps v) = z" by simp
  then have "z = Start" by (simp add: main_steps_def)
  with distinct_main_steps [of v] assms snoc show ?thesis by simp
qed (use assms in simp)

text \<open>
  C17: starting is all or nothing. A step is only taken when all steps before it succeeded; the manager is
  started only after every one of the seven controllers was set up, each once; the process ends with 0 exactly
  when help was asked for or the manager was started and returned no error; and when the manager was not
  started, nothing was done at all or the last step is the one that failed.
\<close>

theorem startup_all_or_nothing:
  assumes run: "main other fails args = (tr, code)"
  shows "list_all (\<lambda>x. fails x = None) (butlast tr) \<and> distinct tr \<and>
    (Start \<in> set tr \<longrightarrow> (\<forall>c. Setup (SetupWithManager c) \<in> set tr)) \<and>
    (code = 0 \<longleftrightarrow> parse other args default_vars = Inl ErrHelp \<or> Start \<in> set tr \<and> fails Start = None) \<and>
    (Start \<notin> set tr \<longrightarrow> tr = [] \<or> fails (last tr) \<noteq> None)"
proof (cases "parse other args default_vars")
  case (Inl e)
  with run show ?thesis by (cases e) (auto simp: main_def)
next
  case (Inr a)
  then obtain v rest where v: "parse other args default_vars = Inr (v, rest)" by (cases a) auto
  with run have steps: "run_steps fails (main_steps v) = (tr, code)" by (simp add: main_def)
  from run_steps_prefix [OF steps] obtain ys where ys: "main_steps v = tr @ ys"
    and ok: "list_all (\<lambda>x. fails x = None) (butlast tr)"
    and code: "if list_all (\<lambda>x. fails x = None) tr then tr = main_steps v \<and> code = 0 else code = 1" by blast
  have end_step: "last (main_steps v) = Start" by (simp add: main_steps_def)
  have "distinct tr" using distinct_main_steps [of v] ys by simp
  moreover have "list_all (\<lambda>x. fails x = None) tr \<longleftrightarrow> tr = [] \<or> fails (last tr) = None"
    using ok by (cases tr rule: rev_cases) simp_all
  moreover have "Start \<in> set tr \<longleftrightarrow> tr = main_steps v"
    using start_last [OF ys] by (auto simp: main_steps_def)
  moreover have "main_steps v \<noteq> []" by (simp add: main_steps_def)
  moreover have "\<forall>c. Setup (SetupWithManager c) \<in> set (main_steps v)" by (simp add: setup_in_main_steps)
  ultimately show ?thesis
    using ok code v end_step by (cases "list_all (\<lambda>x. fails x = None) tr") auto
qed

definition ex_fails :: "main_step \<Rightarrow> go_error option" where
  "ex_fails x = (if x = Setup (SetupWithManager Ctl_Job) then Some (Errorf ''no match for kind'') else None)"

lemma ex_failed_start:
  "main Map.empty ex_fails [''--leader-elect''] =
     (take 6 (main_steps (default_vars\<lparr>enableLeaderElection := True\<rparr>)), 1)"
  by (simp add: main_def scan_def lookup_flag_def main_flags_def ParseBool_def default_vars_def main_steps_def
      ex_fails_def setup_defs Let_def)

theorem startup_all_or_nothing_witness:
  "\<exists>tr. main Map.empty ex_fails [''--leader-elect''] = (tr, 1) \<and> Start \<notin> set tr \<and> ex_fails (last tr) \<noteq> None"
proof -
  have "Start \<notin> set (take 6 (main_steps (default_vars\<lparr>enableLeaderElection := True\<rparr>)))"
    by (simp add: main_steps_def)
  with startup_all_or_nothing [OF ex_failed_start] ex_failed_start show ?thesis
    by (auto simp: main_steps_def)
qed

text \<open>
  C20: every controller is wired to its own kind: it is registered for the kind of object its \<open>Reconcile\<close>
  reads first, under the request's name; no two controllers share a kind or a name; and the scheme knows, in
  the API group, the object and list types of every kind a controller is registered for or owns.
\<close>

theorem controllers_wired:
  "(\<exists>cs. calls (dispatch E c req) s = KGet (reg_For (SetupWithManager c)) req # cs) \<and>
   (reg_For (SetupWithManager c) = reg_For (SetupWithManager d) \<longleftrightarrow> c = d) \<and>
   (reg_Named (SetupWithManager c) = reg_Named (SetupWithManager d) \<longleftrightarrow> c = d) \<and>
   list_all (\<lambda>k. list_all (\<lambda>r. ((''concourse-ci.org'', ''v1alpha1''), r) \<in> set AddToScheme) (root_kinds_of k))
     (reg_For (SetupWithManager c) # reg_Owns (SetupWithManager c))"
proof -
  have "reg_For (SetupWithManager c) = kind_of c" by (cases c) (simp_all add: setup_defs)
  moreover note mgr.first_call [of E c req s]
  moreover have "reg_For (SetupWithManager c) = reg_For (SetupWithManager d) \<longleftrightarrow> c = d"
    "reg_Named (SetupWithManager c) = reg_Named (SetupWithManager d) \<longleftrightarrow> c = d"
    by (cases c; cases d; simp add: setup_defs)+
  moreover have "list_all (\<lambda>k. list_all (\<lambda>r. ((''concourse-ci.org'', ''v1alpha1''), r) \<in> set AddToScheme) (root_kinds_of k))
     (reg_For (SetupWithManager c) # reg_Owns (SetupWithManager c))"
    by (cases c) (simp_all add: setup_defs AddToScheme_def SchemeGroupVersion_def Build_init_def Instance_init_def
        Job_init_def Pipeline_init_def Resource_init_def Team_init_def Worker_init_def)
  ultimately show ?thesis by simp
qed

end
