(* ===== verification/Spec2Isabelle.thy ===== *)
theory Spec2Isabelle
  imports Client_Layer Instance_Controller Team_Controller Pipeline_Controller Job_Controller
    Build_Controller Resource_Controller Worker_Controller Cache_Concurrency Controllers Operator
    Watcher_Liveness Scheduling History Check_Spacing Ownership Isolation Finalizers
    Convergence Readiness Leaves Startup
begin

text \<open>
  \<^bold>\<open>A verification library of the Concourse operator.\<close>

  \<^bold>\<open>The program.\<close> The operator keeps a Concourse CI server in step with custom resources of a Kubernetes
  cluster. \<open>cmd/main.go\<close> parses flags, creates one client cache, hands it to seven reconcilers and starts
  controller-runtime's manager. A reconciler (\<open>internal/controller/*_controller.go\<close>) is run for one object at a
  time: it reads the object, follows its references up to the Instance (\<open>resolver.go\<close>), obtains an
  authenticated client from the cache (\<open>internal/concourse/client_cache.go\<close>, \<open>auth.go\<close>), asks things of
  Concourse, and writes back a status with conditions (\<open>conditions.go\<close>). The build controller also starts
  goroutines that watch a build's event stream and send requests through a channel.

  \<^bold>\<open>The model.\<close> Handlers are written in the state monad over \<open>op_state\<close>, what the process keeps: the trace of
  remote calls and clock readings, the cache's store, the watcher sentinels, the running watchers and the event
  channel. Code that is not in the repository is an argument: \<open>lib\<close> (apimachinery's and controller-runtime's
  helpers, go-concourse's constructor), \<open>k8s_api\<close>, \<open>concourse_api\<close> and the clock, together an \<open>env\<close>. A remote
  operation takes the number of the interaction and answers as it pleases, so a statement about all \<open>E\<close> covers
  every cluster, server and failure. What is relied on is named: \<open>condition_laws\<close> (the documented behaviour of
  \<open>meta.SetStatusCondition\<close> and \<open>IsStatusConditionTrue\<close>), \<open>valid_names\<close> (objects the API server shows have
  names without \<open>/\<close> and \<open>@\<close>), \<open>metav1_laws\<close> (the deep copies of apimachinery's own types). \<open>Example_Env\<close> is a
  concrete environment that satisfies them and on which witnesses run. Errors are values: a Go \<open>error\<close> is
  \<open>go_error\<close>, a fallible call returns \<open>go_error + 'a\<close>, a reconciliation returns its result and an optional error.
  Integers that cannot overflow are \<open>int\<close>; durations saturate at 64 bits as \<open>Time.Sub\<close> does; SHA-256 is on
  32-bit words.

  \<^bold>\<open>Theories and sources.\<close>
  \<^item> \<open>Prelude\<close>: error values, \<open>strconv.Itoa\<close>, durations, the locale \<open>effect_relation\<close> that proves once that
    sequencing and branching stay within a reflexive and transitive relation on states.
  \<^item> \<open>Api_Types\<close>: the structs and constants of \<open>api/v1alpha1/*_types.go\<close> as records and strings.
  \<^item> \<open>Environment\<close>: calls, \<open>env\<close>, \<open>op_state\<close>, \<open>ask\<close>; the relations \<open>emits\<close>, \<open>keeps\<close>, \<open>preserves\<close> as
    interpretations of \<open>effect_relation\<close>.
  \<^item> \<open>Conditions\<close>: \<open>conditions.go\<close> and \<open>isReady\<close>. \<open>Auth\<close>: \<open>auth.go\<close>. \<open>Client_Cache\<close>: \<open>client_cache.go\<close>, with the
    locale \<open>client_cache\<close> of what a cache promises, interpreted on the store. Its loops over
    the keys of the map are proved independent of the order Go visits them in. \<open>Resolver\<close>: \<open>resolver.go\<close>.
    \<open>Client_Layer\<close> holds their properties. \<open>Cache_Concurrency\<close> interleaves the critical sections of
    concurrent \<open>GetOrBuild\<close> and \<open>Evict\<close> calls.
  \<^item> \<open>Reconciler\<close>: the locales \<open>reconciler\<close> and \<open>passive_reconciler\<close>, what the manager and the other controllers
    rely on (the first call reads the request's object of the controller's kind; the cache invariant, the
    watcher invariant and the channel are kept), and the counting calculus \<open>at_most\<close>.
  \<^item> \<open>Instance_Controller\<close>, \<open>Team_Controller\<close>, \<open>Pipeline_Controller\<close>, \<open>Job_Controller\<close>, \<open>Build_Controller\<close>,
    \<open>Resource_Controller\<close>, \<open>Worker_Controller\<close>: one theory per \<open>*_controller.go\<close>, the whole \<open>Reconcile\<close> split
    at the source's own comments, each interpreting \<open>reconciler\<close>. \<open>Sha256\<close> is the digest the pipeline
    controller compares.
  \<^item> \<open>Controllers\<close>: the seven reconcilers as one function, and the discipline all of them keep with the memory
    they share: at most one client stored or one instance evicted, at most one watcher started, last.
  \<^item> \<open>Operator\<close>: the process as one transition system. Any number of reconciliations is in progress, each
    performing its accesses to the cache and the sentinels one critical section at a time, in between those of
    the others and the steps of the watcher goroutines. \<open>Watcher_Liveness\<close>: infinite runs of it under a fair
    scheduler, and what becomes of watchers in them. \<open>Scheduling\<close>: which requests the manager runs again on
    its own, and what each controller read when it does not. \<open>History\<close>: what happens over an object's life; the
    manager never runs two reconciliations of one object at a time, so its reconciliations follow each other.
    \<open>Check_Spacing\<close>: the same for the checks of a resource.
  \<^item> \<open>Ownership\<close>: which objects a controller writes. \<open>Isolation\<close>: no call leaves the namespace of the request,
    in the running operator with its shared cache. \<open>Finalizers\<close>: the finalizer is there before anything is created. \<open>Reporting\<close>: the last status sent for an object, and
    handlers that end by sending a Ready one. \<open>Convergence\<close>: the chain of instance, team, pipeline and job
    over histories, by the locale \<open>link\<close>; \<open>Leaves\<close>: the same for workers, resources and builds.
    \<open>Readiness\<close>: what was answered before a Ready status was sent.
  \<^item> \<open>Go_Memory\<close> and \<open>Deepcopy\<close>: Go's memory and \<open>zz_generated.deepcopy.go\<close>. \<open>Flags\<close> and \<open>Startup\<close>:
    \<open>cmd/main.go\<close>, the \<open>SetupWithManager\<close> methods and \<open>groupversion_info.go\<close>.

  \<^bold>\<open>What is shown.\<close>
  \<^item> Clients: a client authenticates as its Instance's spec says and never falls back; the cache refines a map
    to one versioned client per instance; no error is cached; in every reachable state of the interleaved
    operator, and under every interleaving of callers, cached clients belong to the instance and version they are
    stored for. (A reconciliation that runs alone has, access by access,
    the effect of its handler: lemma \<open>alone_steps\<close>.)
  \<^item> Resolution: a client is only obtained through a chain of Ready ancestors, by reading only.
  \<^item> Controllers: when Concourse is asked to change something and when not (uploads, triggers, checks,
    worker actions), that repeated reconciliation does not repeat it (over whole histories for builds and
    jobs: one Concourse build per build object, one build object per generation of a job, one check of a resource per interval), what statuses say on success and on each
    kind of failure, that finalizers are removed whatever Concourse answers, and that Ready is never reported
    without Concourse's word. No request is dropped except for the reasons \<open>settled\<close> lists.
  \<^item> The whole: when Concourse cooperates, an instance, its team, a pipeline, and the job, resource, build and
    worker that rest on them become Ready one after the other and stay so, from any state and with anything else
    reconciled in between. Each object is written by one controller. Namespaces are kept apart although
    they share a cache, and nothing is created in Concourse for an object that has no finalizer.
  \<^item> Watchers: at most one per build, sentinels exactly for the running ones. In a fair run a watcher whose stream ends
    or reports a final status gets its request through to the manager and releases its sentinel, however full the
    channel is at times; on its own it ends exactly when its stream does.
  \<^item> Start-up: flags are read back as written, \<open>main\<close> is all or nothing, every controller is registered for the
    kind it reads. Deep copies share no memory with their originals.
  \<^item> Some properties record behaviour that surprises: a trigger repeated after a lost status, an eviction undone
    by a concurrent build, a token ignored beside basic authentication, variables and pins that have no effect.

  \<^bold>\<open>Loops and bounds.\<close> Loops over lists are structural recursion. The watcher's loop may run for ever and is
  \<open>partial_function (option)\<close>; \<open>watcher_ends_iff_stream_ends\<close> says exactly when it returns. The event channel has
  the source's capacity of 64. There is no fuel.

  \<^bold>\<open>Not modelled.\<close> Log output; HTTP and TLS below the values \<open>auth.go\<close> builds; the manager's work queues and
  rate limits (any order of requests is allowed instead); the answers a reconciliation gets do not depend on
  what others do in \<open>Operator\<close> except through the arbitrary environment, and it looks the cache up when it begins;
  \<open>test/utils\<close>, which shells out to kubectl and kind.
\<close>

end
